theory Spec2Isabelle
  imports Complex_Main "HOL-Library.AList"
begin

section \<open>Python values, strings and dictionaries\<close>

text \<open>
  The mailbox is a JSON document, so the values stored in a mail record are JSON values as
  Python reads them. Floats are left out: the store never writes one. Strings are read as
  ASCII text: the character classes below (\<open>str.isspace\<close>, \<open>\d\<close>, \<open>\w\<close>,
  \<open>str.lower\<close>) are those of Python restricted to code points below 128.

  A Python \<open>dict\<close> is an association list in insertion order; \<open>d.get(k)\<close> is
  \<open>map_of d k\<close> and \<open>d[k] = v\<close> is \<open>AList.update k v d\<close> (in place when the key
  is there, appended otherwise).
\<close>

datatype pyval =
    PNone
  | PBool bool
  | PInt int
  | PStr string
  | PList "pyval list"
  | PDict "(string \<times> pyval) list"

type_synonym mail = "(string \<times> pyval) list"

datatype exn_kind = ValueError | TypeError | IndexError | AttributeError
  | TimeoutError | OSError | ConnectionError

text \<open>An exception is its class and its message (\<open>str(e)\<close>).\<close>

datatype exn = Exn exn_kind string

fun exn_kind_of :: "exn \<Rightarrow> exn_kind" where
  "exn_kind_of (Exn k m) = k"

fun exn_str :: "exn \<Rightarrow> string" where
  "exn_str (Exn k m) = m"

definition is_space :: "char \<Rightarrow> bool" where
  "is_space c = (c \<in> set [CHR 0x09, CHR 0x0A, CHR 0x0B, CHR 0x0C, CHR 0x0D,
                            CHR 0x1C, CHR 0x1D, CHR 0x1E, CHR 0x1F, CHR 0x20])"

definition is_digit :: "char \<Rightarrow> bool" where
  "is_digit c = (let n = (of_char c :: nat) in 48 \<le> n \<and> n \<le> 57)"

definition is_alpha :: "char \<Rightarrow> bool" where
  "is_alpha c = (let n = (of_char c :: nat) in (65 \<le> n \<and> n \<le> 90) \<or> (97 \<le> n \<and> n \<le> 122))"

definition is_word :: "char \<Rightarrow> bool" where
  "is_word c = (is_alpha c \<or> is_digit c \<or> c = CHR ''_'')"

definition lower_char :: "char \<Rightarrow> char" where
  "lower_char c = (let n = (of_char c :: nat) in if 65 \<le> n \<and> n \<le> 90 then char_of (n + 32) else c)"

definition lower :: "string \<Rightarrow> string" where
  "lower s = map lower_char s"

definition lstrip :: "string \<Rightarrow> string" where
  "lstrip s = dropWhile is_space s"

definition rstrip :: "string \<Rightarrow> string" where
  "rstrip s = rev (dropWhile is_space (rev s))"

definition strip :: "string \<Rightarrow> string" where
  "strip s = rstrip (lstrip s)"

text \<open>\<open>k in txt\<close> for strings: \<open>k\<close> occurs in \<open>txt\<close> as a contiguous block.\<close>

fun contains :: "string \<Rightarrow> string \<Rightarrow> bool" where
  "contains [] k = (k = [])"
| "contains (c # cs) k = (take (length k) (c # cs) = k \<or> contains cs k)"

subsection \<open>Truthiness, equality and \<open>int()\<close>\<close>

fun py_truthy :: "pyval \<Rightarrow> bool" where
  "py_truthy PNone = False"
| "py_truthy (PBool b) = b"
| "py_truthy (PInt n) = (n \<noteq> 0)"
| "py_truthy (PStr s) = (s \<noteq> [])"
| "py_truthy (PList xs) = (xs \<noteq> [])"
| "py_truthy (PDict d) = (d \<noteq> [])"

fun py_num :: "pyval \<Rightarrow> int option" where
  "py_num (PInt n) = Some n"
| "py_num (PBool b) = Some (if b then 1 else 0)"
| "py_num v = None"

text \<open>
  Python's \<open>==\<close>: numbers (\<open>bool\<close> is a number) by value, strings and \<open>None\<close> by
  identity of value, lists element by element, dictionaries key by key whatever the order.
\<close>

fun py_eq :: "pyval \<Rightarrow> pyval \<Rightarrow> bool" where
  "py_eq PNone b = (b = PNone)"
| "py_eq (PBool x) b = (py_num b = Some (if x then 1 else 0))"
| "py_eq (PInt n) b = (py_num b = Some n)"
| "py_eq (PStr s) b = (b = PStr s)"
| "py_eq (PList xs) b = (case b of PList ys \<Rightarrow> list_all2 py_eq xs ys | _ \<Rightarrow> False)"
| "py_eq (PDict d) b = (case b of
       PDict d' \<Rightarrow> length d = length d' \<and>
         list_all (\<lambda>kv. case map_of d' (fst kv) of None \<Rightarrow> False | Some v' \<Rightarrow> py_eq (snd kv) v') d
     | _ \<Rightarrow> False)"

fun type_name :: "pyval \<Rightarrow> string" where
  "type_name PNone = ''NoneType''"
| "type_name (PBool b) = ''bool''"
| "type_name (PInt n) = ''int''"
| "type_name (PStr s) = ''str''"
| "type_name (PList xs) = ''list''"
| "type_name (PDict d) = ''dict''"

definition hex_digit :: "nat \<Rightarrow> char" where
  "hex_digit n = (if n < 10 then char_of (48 + n) else char_of (87 + n))"

definition repr_char :: "char \<Rightarrow> char \<Rightarrow> string" where
  "repr_char q c =
     (let n = (of_char c :: nat) in
      if c = CHR 0x5C then [CHR 0x5C, CHR 0x5C]
      else if c = q then [CHR 0x5C, q]
      else if c = CHR 0x0A then [CHR 0x5C, CHR ''n'']
      else if c = CHR 0x0D then [CHR 0x5C, CHR ''r'']
      else if c = CHR 0x09 then [CHR 0x5C, CHR ''t'']
      else if n < 32 \<or> n = 127 then [CHR 0x5C, CHR ''x'', hex_digit (n div 16), hex_digit (n mod 16)]
      else [c])"

text \<open>\<open>repr\<close> of a string: single quotes, unless the text has a single quote and no double one.\<close>

definition repr_str :: "string \<Rightarrow> string" where
  "repr_str s =
     (let q = (if CHR 0x27 \<in> set s \<and> CHR 0x22 \<notin> set s then CHR 0x22 else CHR 0x27)
      in [q] @ concat (map (repr_char q) s) @ [q])"

fun valid_body :: "string \<Rightarrow> bool" where
  "valid_body [] = False"
| "valid_body [c] = is_digit c"
| "valid_body (c # d # r) =
     (is_digit c \<and> (if d = CHR ''_'' then valid_body r else valid_body (d # r)))"

definition digits_val :: "string \<Rightarrow> int" where
  "digits_val ds = foldl (\<lambda>acc c. 10 * acc + int (of_char c - 48)) 0 ds"

text \<open>
  The whitespace \<open>int(s)\<close> skips around an ASCII text: blank, tab, line feed, vertical tab,
  form feed and carriage return. It is a smaller set than the one \<open>str.strip()\<close> removes:
  the separators 0x1C to 0x1F stay and make the literal invalid.
\<close>

definition is_int_space :: "char \<Rightarrow> bool" where
  "is_int_space c = (c \<in> set [CHR 0x09, CHR 0x0A, CHR 0x0B, CHR 0x0C, CHR 0x0D, CHR 0x20])"

definition int_strip :: "string \<Rightarrow> string" where
  "int_strip s = rev (dropWhile is_int_space (rev (dropWhile is_int_space s)))"

text \<open>
  The digits of \<open>int(s)\<close>: surrounding whitespace, one optional sign, decimal digits with
  single underscores between them. The result is the sign and the digits without the
  underscores; \<open>None\<close> when the text is no literal.
\<close>

definition int_literal :: "string \<Rightarrow> (bool \<times> string) option" where
  "int_literal s =
     (let t = int_strip s;
          neg = (t \<noteq> [] \<and> hd t = CHR ''-'');
          body = (if t \<noteq> [] \<and> (hd t = CHR ''-'' \<or> hd t = CHR ''+'') then tl t else t)
      in if valid_body body then Some (neg, filter is_digit body) else None)"

text \<open>\<open>str(n)\<close> of a natural number.\<close>

fun str_of_nat :: "nat \<Rightarrow> string" where
  "str_of_nat n =
     (if n < 10 then [char_of (48 + n)] else str_of_nat (n div 10) @ [char_of (48 + n mod 10)])"

declare str_of_nat.simps [simp del]

text \<open>
  \<open>int(x)\<close>. A text that is no literal raises \<open>ValueError\<close>, and so does a literal of more
  than 4300 digits (the default of \<open>sys.set_int_max_str_digits\<close>); \<open>None\<close>, a list and a
  dictionary raise \<open>TypeError\<close>.
\<close>

definition int_max_str_digits :: nat where
  "int_max_str_digits = 4300"

fun py_int :: "pyval \<Rightarrow> exn + int" where
  "py_int (PInt n) = Inr n"
| "py_int (PBool b) = Inr (if b then 1 else 0)"
| "py_int (PStr s) =
     (case int_literal s of
        None \<Rightarrow> Inl (Exn ValueError (''invalid literal for int() with base 10: '' @ repr_str s))
      | Some (neg, ds) \<Rightarrow>
          if int_max_str_digits < length ds
          then Inl (Exn ValueError
                 (''Exceeds the limit ('' @ str_of_nat int_max_str_digits @
                  '' digits) for integer string conversion: value has '' @ str_of_nat (length ds) @
                  '' digits; use sys.set_int_max_str_digits() to increase the limit''))
          else Inr ((if neg then - 1 else 1) * digits_val ds))"
| "py_int v =
     Inl (Exn TypeError
       (''int() argument must be a string, a bytes-like object or a real number, not '' @
        [CHR 0x27] @ type_name v @ [CHR 0x27]))"

text \<open>\<open>d.get(k, default)\<close> and \<open>d.setdefault(k, v)\<close>.\<close>

definition get_or :: "mail \<Rightarrow> string \<Rightarrow> pyval \<Rightarrow> pyval" where
  "get_or d k dflt = (case map_of d k of None \<Rightarrow> dflt | Some v \<Rightarrow> v)"

definition setdefault :: "string \<Rightarrow> pyval \<Rightarrow> mail \<Rightarrow> mail" where
  "setdefault k v d = (case map_of d k of None \<Rightarrow> d @ [(k, v)] | Some _ \<Rightarrow> d)"

section \<open>The world the program runs in\<close>

text \<open>
  The mailbox document \<open>{counter, emails}\<close>, the file that holds it (absent or present), the
  lock directory beside it, and the process-wide state of the orchestrator. Time advances by
  sleeping only; \<open>slept\<close> is the log of the \<open>time.sleep\<close> calls. \<open>lock_acquisitions\<close> and
  \<open>gateway_calls\<close> count the successful \<open>os.mkdir\<close> of the lock directory and the calls of
  the Model Gateway.
\<close>

record document =
  counter :: int
  emails :: "mail list"

record world =
  inbox :: "document option"
  lockdir :: bool
  lock_acquisitions :: nat
  clock :: rat
  slept :: "rat list"
  gateway_calls :: nat
  last_llm_call :: rat
  quota_backoff_until :: rat
  last_error :: "(string \<times> rat) option"
  error_signal :: "(string \<times> rat) option"

definition INBOX :: string where
  "INBOX = ''Data_Storage_Vault/mail_inbox.json''"

definition sleep :: "rat \<Rightarrow> world \<Rightarrow> world" where
  "sleep d w = w\<lparr>clock := clock w + d, slept := slept w @ [d]\<rparr>"

section \<open>Mailbox Store\<close>

text \<open>
  \<open>_acquire_lock(path, timeout=5.0, poll=0.05)\<close>: \<open>os.mkdir\<close> of the lock directory; while it
  exists, sleep 0.05 s and try again, and raise \<open>TimeoutError\<close> once 5 s have passed. Within
  one call nobody else runs, so a lock directory that is there stays there: 100 polls, then
  the error.
\<close>

definition acquire_lock :: "world \<Rightarrow> (exn + unit) \<times> world" where
  "acquire_lock w =
     (if lockdir w
      then (Inl (Exn TimeoutError (''Failed to acquire lock for '' @ INBOX @ '' within 5.0s'')),
            w\<lparr>clock := clock w + 5, slept := slept w @ replicate 100 (1 / 20)\<rparr>)
      else (Inr (), w\<lparr>lockdir := True, lock_acquisitions := Suc (lock_acquisitions w)\<rparr>))"

definition release_lock :: "world \<Rightarrow> world" where
  "release_lock w = w\<lparr>lockdir := False\<rparr>"

definition required_fields :: "string list" where
  "required_fields = [''sender'', ''subject'', ''timestamp'', ''body'']"

definition new_entry :: "mail \<Rightarrow> int \<Rightarrow> mail" where
  "new_entry mail_obj new_id =
     setdefault ''draftable'' (PStr [])
       (setdefault ''action_items'' (PList [])
         (setdefault ''category'' (PStr [])
           (AList.update ''id'' (PInt new_id) mail_obj)))"

definition add_mail :: "mail \<Rightarrow> world \<Rightarrow> (exn + int) \<times> world" where
  "add_mail mail_obj w =
     (case find (\<lambda>k. map_of mail_obj k = None) required_fields of
        Some k \<Rightarrow> (Inl (Exn ValueError (''Missing required field: '' @ k)), w)
      | None \<Rightarrow>
          (case acquire_lock w of
             (Inl e, w1) \<Rightarrow> (Inl e, w1)
           | (Inr u, w1) \<Rightarrow>
               (let data = (case inbox w1 of None \<Rightarrow> \<lparr>counter = 0, emails = []\<rparr> | Some d \<Rightarrow> d);
                    new_id = counter data + 1;
                    entry = new_entry mail_obj new_id;
                    data' = data\<lparr>emails := emails data @ [entry], counter := new_id\<rparr>
                in (Inr new_id, release_lock (w1\<lparr>inbox := Some data'\<rparr>)))))"

text \<open>
  The test both \<open>delete_mail\<close> and \<open>update_mail\<close> make on a record: compare the ids as
  integers, and when \<open>int()\<close> raises on either side, compare them with \<open>==\<close> as they are.
\<close>

definition id_matches :: "mail \<Rightarrow> pyval \<Rightarrow> bool" where
  "id_matches e mail_id =
     (case py_int (get_or e ''id'' (PInt (- 1))) of
        Inr a \<Rightarrow> (case py_int mail_id of
                    Inr b \<Rightarrow> a = b
                  | Inl x \<Rightarrow> py_eq (get_or e ''id'' PNone) mail_id)
      | Inl x \<Rightarrow> py_eq (get_or e ''id'' PNone) mail_id)"

text \<open>\<open>for idx, email in enumerate(new_emails, start=1): email["id"] = idx\<close>\<close>

fun renumber :: "int \<Rightarrow> mail list \<Rightarrow> mail list" where
  "renumber idx [] = []"
| "renumber idx (e # es) = AList.update ''id'' (PInt idx) e # renumber (idx + 1) es"

definition delete_mail :: "pyval \<Rightarrow> world \<Rightarrow> (exn + bool) \<times> world" where
  "delete_mail mail_id w =
     (case inbox w of
        None \<Rightarrow> (Inr False, w)
      | Some d0 \<Rightarrow>
          (case acquire_lock w of
             (Inl e, w1) \<Rightarrow> (Inl e, w1)
           | (Inr u, w1) \<Rightarrow>
               (let new_emails = filter (\<lambda>e. \<not> id_matches e mail_id) (emails d0)
                in if length new_emails = length (emails d0)
                   then (Inr False, release_lock w1)
                   else (let data' = d0\<lparr>emails := renumber 1 new_emails,
                                         counter := int (length new_emails)\<rparr>
                         in (Inr True, release_lock (w1\<lparr>inbox := Some data'\<rparr>))))))"

text \<open>\<open>for k, v in updates.items(): if k == "id": continue; data["emails"][i][k] = v\<close>\<close>

fun apply_updates :: "mail \<Rightarrow> mail \<Rightarrow> mail" where
  "apply_updates [] e = e"
| "apply_updates ((k, v) # us) e =
     apply_updates us (if k = ''id'' then e else AList.update k v e)"

text \<open>The loop over the records stops at the first one that matches (\<open>break\<close>).\<close>

fun update_first :: "pyval \<Rightarrow> mail \<Rightarrow> mail list \<Rightarrow> (mail list) option" where
  "update_first mail_id updates [] = None"
| "update_first mail_id updates (e # es) =
     (if id_matches e mail_id then Some (apply_updates updates e # es)
      else map_option (\<lambda>es'. e # es') (update_first mail_id updates es))"

definition update_mail :: "pyval \<Rightarrow> mail \<Rightarrow> world \<Rightarrow> (exn + bool) \<times> world" where
  "update_mail mail_id updates w =
     (case inbox w of
        None \<Rightarrow> (Inr False, w)
      | Some d0 \<Rightarrow>
          (case acquire_lock w of
             (Inl e, w1) \<Rightarrow> (Inl e, w1)
           | (Inr u, w1) \<Rightarrow>
               (case update_first mail_id updates (emails d0) of
                  None \<Rightarrow> (Inr False, release_lock w1)
                | Some es' \<Rightarrow> (Inr True, release_lock (w1\<lparr>inbox := Some (d0\<lparr>emails := es'\<rparr>)\<rparr>)))))"

section \<open>Runs of the store and the shape of a well-numbered mailbox\<close>

text \<open>
  A process that has just started, at time \<open>t\<close>, with no mailbox file: the module globals
  have their initial values.
\<close>

definition fresh_world :: "rat \<Rightarrow> world" where
  "fresh_world t = \<lparr>inbox = None, lockdir = False, lock_acquisitions = 0, clock = t, slept = [],
     gateway_calls = 0, last_llm_call = 0, quota_backoff_until = 0, last_error = None,
     error_signal = None\<rparr>"

text \<open>The sample record of \<open>add_mail.py\<close>'s example run.\<close>

definition sample_mail :: mail where
  "sample_mail = [(''sender'', PStr ''tester@example.com''), (''subject'', PStr ''Test Add Mail''),
     (''timestamp'', PStr ''2025-11-20T12:00:00+05:30''), (''body'', PStr ''This is a test email body.'')]"

text \<open>The ids are \<open>1..N\<close> in order, and the counter is \<open>N\<close>.\<close>

definition contiguous :: "document \<Rightarrow> bool" where
  "contiguous d =
     (map (\<lambda>e. map_of e ''id'') (emails d) = map (\<lambda>i. Some (PInt i)) [1..int (length (emails d))]
      \<and> counter d = int (length (emails d)))"

definition doc_ok :: "world \<Rightarrow> bool" where
  "doc_ok w = (case inbox w of None \<Rightarrow> True | Some d \<Rightarrow> contiguous d)"

datatype op = Add mail | Delete pyval

fun step :: "op \<Rightarrow> world \<Rightarrow> world" where
  "step (Add m) w = snd (add_mail m w)"
| "step (Delete i) w = snd (delete_mail i w)"

definition run :: "op list \<Rightarrow> world \<Rightarrow> world" where
  "run ops w = fold step ops w"

section \<open>Prompt-change reset rules\<close>

text \<open>
  \<open>drop_categories_on_categorizer_prompt_change\<close> reads the mailbox file it finds, without the
  lock, and for each mail: leaves it when \<open>mail.get("category") == "draft"\<close>, and otherwise
  sets \<open>category\<close> to \<open>""\<close> when \<open>mail.get("category") not in (None, "")\<close>. The file is
  written back when some mail changed.
\<close>

definition category_droppable :: "mail \<Rightarrow> bool" where
  "category_droppable m =
     (let c = get_or m ''category'' PNone
      in \<not> py_eq c (PStr ''draft'') \<and> \<not> (py_eq c PNone \<or> py_eq c (PStr [])))"

definition drop_category :: "mail \<Rightarrow> mail" where
  "drop_category m = (if category_droppable m then AList.update ''category'' (PStr []) m else m)"

definition drop_categories_on_categorizer_prompt_change :: "world \<Rightarrow> world" where
  "drop_categories_on_categorizer_prompt_change w =
     (case inbox w of
        None \<Rightarrow> w
      | Some d \<Rightarrow>
          if list_ex category_droppable (emails d)
          then w\<lparr>inbox := Some (d\<lparr>emails := map drop_category (emails d)\<rparr>)\<rparr>
          else w)"

text \<open>A mailbox with a work mail, a draft and an unclassified mail.\<close>

definition triage_box :: document where
  "triage_box = \<lparr>counter = 3, emails =
     [[(''id'', PInt 1), (''subject'', PStr ''Plan''), (''category'', PStr ''work'')],
      [(''id'', PInt 2), (''subject'', PStr ''Draft reply: Plan''), (''category'', PStr ''draft'')],
      [(''id'', PInt 3), (''subject'', PStr ''Hi''), (''category'', PStr [])]]\<rparr>"

section \<open>Reply drafter: choosing one option of the model's answer\<close>

text \<open>\<open>raw_text.replace("\r\n", "\n")\<close>\<close>

fun replace_crlf :: "string \<Rightarrow> string" where
  "replace_crlf (c # d # r) =
     (if c = CHR 0x0D \<and> d = CHR 0x0A then CHR 0x0A # replace_crlf r else c # replace_crlf (d # r))"
| "replace_crlf s = s"

text \<open>Python's slice \<open>t[start:end]\<close> for indices within the text.\<close>

definition slice :: "string \<Rightarrow> nat \<Rightarrow> nat \<Rightarrow> string" where
  "slice t start end = take (end - start) (drop start t)"

text \<open>
  The body of \<open>Option\s*(?:#?\s*)?(\d+)\<close> after the word: whitespace, an optional \<open>#\<close> with
  whitespace after it, then the digits. The result is the digits and what follows them.
\<close>

definition after_option_word :: "string \<Rightarrow> (string \<times> string) option" where
  "after_option_word s =
     (if lower (take 6 s) = ''option''
      then (let r1 = dropWhile is_space (drop 6 s);
                r2 = (case r1 of [] \<Rightarrow> r1
                      | c # r \<Rightarrow> if c = CHR ''#'' then dropWhile is_space r else r1)
            in if takeWhile is_digit r2 \<noteq> []
               then Some (takeWhile is_digit r2, dropWhile is_digit r2)
               else None)
      else None)"

text \<open>
  \<open>\bOption\s*(?:#?\s*)?(\d+)\b\<close>, ignoring case, tried at the start of \<open>s\<close>, the character
  before it being \<open>prev\<close>: the length of the match. The digits are followed by the end of
  the text or by a character that is not a word character.
\<close>

definition match_option :: "char option \<Rightarrow> string \<Rightarrow> nat option" where
  "match_option prev s =
     (if (case prev of None \<Rightarrow> True | Some p \<Rightarrow> \<not> is_word p)
      then (case after_option_word s of
              None \<Rightarrow> None
            | Some (ds, rest) \<Rightarrow>
                if rest = [] \<or> \<not> is_word (hd rest) then Some (length s - length rest) else None)
      else None)"

text \<open>
  \<open>re.finditer\<close>: the starts of the matches, left to right, each search resuming where the
  match before ended (\<open>skip\<close> counts the characters of a match still to pass).
\<close>

fun option_starts :: "nat \<Rightarrow> nat \<Rightarrow> char option \<Rightarrow> string \<Rightarrow> nat list" where
  "option_starts skip pos prev [] = []"
| "option_starts skip pos prev (c # r) =
     (if 0 < skip then option_starts (skip - 1) (pos + 1) (Some c) r
      else (case match_option prev (c # r) of
              Some n \<Rightarrow> pos # option_starts (n - 1) (pos + 1) (Some c) r
            | None \<Rightarrow> option_starts 0 (pos + 1) (Some c) r))"

text \<open>\<open>re.sub(r"^\s*Option\s*(?:#?\s*)?\d+[:\-\)]?\s*", "", candidate, flags=re.IGNORECASE)\<close>\<close>

definition strip_option_label :: "string \<Rightarrow> string" where
  "strip_option_label s =
     (case after_option_word (dropWhile is_space s) of
        None \<Rightarrow> s
      | Some (ds, rest) \<Rightarrow>
          dropWhile is_space
            (case rest of [] \<Rightarrow> []
             | c # r \<Rightarrow> if c = CHR '':'' \<or> c = CHR ''-'' \<or> c = CHR '')'' then r else rest))"

definition is_rule :: "char \<Rightarrow> bool" where
  "is_rule c = (c = CHR ''-'' \<or> c = CHR ''*'' \<or> c = CHR ''_'')"

text \<open>
  \<open>\n\s*[-*_]{3,}\s*\n\<close> tried at the start of \<open>s\<close>: the length of the match. The last
  \<open>\s*\n\<close> ends at the last newline of the whitespace after the rule.
\<close>

definition match_separator :: "string \<Rightarrow> nat option" where
  "match_separator s =
     (case s of
        [] \<Rightarrow> None
      | c # r \<Rightarrow>
          if c = CHR 0x0A
          then (let r1 = dropWhile is_space r;
                    rule = takeWhile is_rule r1;
                    r2 = dropWhile is_rule r1;
                    ws = takeWhile is_space r2;
                    tail = rev (takeWhile (\<lambda>x. x \<noteq> CHR 0x0A) (rev ws))
                in if 3 \<le> length rule \<and> CHR 0x0A \<in> set ws
                   then Some (length s - (length tail + length (dropWhile is_space r2)))
                   else None)
          else None)"

text \<open>\<open>re.split\<close>: the texts between the matches; \<open>cur\<close> is the part being read.\<close>

fun split_separators :: "nat \<Rightarrow> string \<Rightarrow> string \<Rightarrow> string list" where
  "split_separators skip cur [] = [cur]"
| "split_separators skip cur (c # r) =
     (if 0 < skip then split_separators (skip - 1) cur r
      else (case match_separator (c # r) of
              Some n \<Rightarrow> cur # split_separators (n - 1) [] r
            | None \<Rightarrow> split_separators 0 (cur @ [c]) r))"

text \<open>
  \<open>for part in sep_parts: part_clean = part.strip(); if len(part_clean) >= 30: return
  part_clean\<close>; \<open>None\<close> when the loop ends without returning.
\<close>

fun first_long_part :: "string list \<Rightarrow> string option" where
  "first_long_part [] = None"
| "first_long_part (part # parts) =
     (if 30 \<le> length (strip part) then Some (strip part) else first_long_part parts)"

text \<open>\<open>\s*(?:d[\.\)])\s+\<close> at the start of \<open>s\<close>, for the digit \<open>d\<close>.\<close>

definition match_number :: "char \<Rightarrow> string \<Rightarrow> bool" where
  "match_number d s =
     (case dropWhile is_space s of
        c1 # c2 # c3 # r \<Rightarrow> c1 = d \<and> (c2 = CHR ''.'' \<or> c2 = CHR '')'') \<and> is_space c3
      | _ \<Rightarrow> False)"

text \<open>
  \<open>re.search(r"(?m)^\s*(?:d[\.\)])\s+", t)\<close>: the first position at the start of a line
  (\<open>bol\<close>) where the pattern matches.
\<close>

fun number_start :: "char \<Rightarrow> nat \<Rightarrow> bool \<Rightarrow> string \<Rightarrow> nat option" where
  "number_start d pos bol [] = None"
| "number_start d pos bol (c # r) =
     (if bol \<and> match_number d (c # r) then Some pos
      else number_start d (pos + 1) (c = CHR 0x0A) r)"

text \<open>\<open>re.sub(r"^\s*(?:1[\.\)])\s*", "", candidate)\<close>\<close>

definition strip_number :: "string \<Rightarrow> string" where
  "strip_number s =
     (case dropWhile is_space s of
        c1 # c2 # r \<Rightarrow>
          if c1 = CHR ''1'' \<and> (c2 = CHR ''.'' \<or> c2 = CHR '')'') then dropWhile is_space r else s
      | _ \<Rightarrow> s)"

definition select_best_option :: "string \<Rightarrow> string" where
  "select_best_option raw_text =
     (if raw_text = [] then raw_text
      else (let t = replace_crlf raw_text;
                opt_matches = option_starts 0 0 None t
            in if opt_matches \<noteq> []
               then (let start = hd opt_matches;
                         end = (if 1 < length opt_matches then opt_matches ! 1 else length t);
                         candidate = strip (slice t start end)
                     in strip (strip_option_label candidate))
               else (let sep_parts = split_separators 0 [] t
                     in if 1 < length sep_parts
                        then (case first_long_part sep_parts of
                                Some part_clean \<Rightarrow> part_clean
                              | None \<Rightarrow> strip (hd sep_parts))
                        else (case number_start (CHR ''1'') 0 True t of
                                Some start \<Rightarrow>
                                  (let end = (case number_start (CHR ''2'') 0 True t of
                                                Some m2 \<Rightarrow> m2 | None \<Rightarrow> length t);
                                       candidate = strip (slice t start end)
                                   in strip (strip_number candidate))
                              | None \<Rightarrow> strip t))))"

text \<open>The four literal answers of the specification's fixtures.\<close>

definition fixture_options :: string where
  "fixture_options = ''Option 1: Hello\<newline>Option 2: Goodbye''"

definition fixture_rules :: string where
  "fixture_rules = ''Foo\<newline>---\<newline>Bar baz long enough text here\<newline>---\<newline>Qux''"

definition fixture_numbered :: string where
  "fixture_numbered = ''1. Do the thing\<newline>2. Do another''"

definition fixture_plain :: string where
  "fixture_plain = ''Just a plain reply.''"

section \<open>What the stage processors are given\<close>

text \<open>
  The things outside the repository: the Model Gateway (\<open>call\<close>: its answer to the
  \<open>n\<close>-th call of the process, a text or the message of a \<open>ConnectionError\<close>), the prompt
  library file as pairs of a type and a prompt, \<open>json.loads\<close> (a value or the message of
  its error), \<open>str()\<close> on values that are not strings, \<open>time.strftime\<close>, and the two
  settings read from the process environment.
\<close>

record env =
  gateway :: "nat \<Rightarrow> string \<Rightarrow> string + string"
  prompt_library :: "(string \<times> string) list"
  json_loads :: "string \<Rightarrow> string + pyval"
  py_str :: "pyval \<Rightarrow> string"
  strftime :: "rat \<Rightarrow> string"
  retry_backoff_seconds :: rat
  min_seconds_between_llm_calls :: rat

text \<open>\<open>for p in d.get("prompts", []): if p.get("type") == kind: return p.get("prompt", "")\<close>\<close>

definition prompt_for :: "env \<Rightarrow> string \<Rightarrow> string" where
  "prompt_for en kind = (case map_of (prompt_library en) kind of None \<Rightarrow> [] | Some p \<Rightarrow> p)"

text \<open>A value inside an f-string.\<close>

definition fmt :: "env \<Rightarrow> pyval \<Rightarrow> string" where
  "fmt en v = (case v of PStr s \<Rightarrow> s | _ \<Rightarrow> py_str en v)"


text \<open>
  \<open>template + "..." + mail_obj.get("body", "") + "..."\<close>: a body that is not a string
  raises \<open>TypeError\<close>.
\<close>

definition body_text :: "mail \<Rightarrow> exn + string" where
  "body_text mail_obj =
     (case get_or mail_obj ''body'' (PStr []) of
        PStr b \<Rightarrow> Inr b
      | v \<Rightarrow> Inl (Exn TypeError (''can only concatenate str (not '' @ [CHR 0x22] @ type_name v @
                                  [CHR 0x22] @ '') to str'')))"

definition gateway_call :: "env \<Rightarrow> string \<Rightarrow> world \<Rightarrow> (exn + string) \<times> world" where
  "gateway_call en prompt w =
     (case gateway en (gateway_calls w) prompt of
        Inl msg \<Rightarrow> (Inl (Exn ConnectionError msg), w\<lparr>gateway_calls := Suc (gateway_calls w)\<rparr>)
      | Inr out \<Rightarrow> (Inr out, w\<lparr>gateway_calls := Suc (gateway_calls w)\<rparr>))"

section \<open>Stage processors\<close>

text \<open>
  The loop the three processors share, word for word:
  \<^verbatim>\<open>
  attempts = 0; last_err = None
  while attempts < 5:
      attempts += 1
      try: ... return ...
      except ConnectionError as ce: last_err = ce; time.sleep(1 * attempts); continue
      except Exception as e: raise e
  raise ConnectionError(f"... {attempts} attempts. Last error: {last_err}")
  \<close>
  \<open>attempt\<close> is the body of the \<open>try\<close>, \<open>failure\<close> the text of the last message.
\<close>

function retry_loop ::
  "(world \<Rightarrow> (exn + 'a) \<times> world) \<Rightarrow> (nat \<Rightarrow> exn option \<Rightarrow> string) \<Rightarrow> nat \<Rightarrow> exn option \<Rightarrow> world
     \<Rightarrow> (exn + 'a) \<times> world" where
  "retry_loop attempt failure attempts last_err w =
     (if attempts < 5
      then (case attempt w of
              (Inr v, w1) \<Rightarrow> (Inr v, w1)
            | (Inl e, w1) \<Rightarrow>
                if exn_kind_of e = ConnectionError
                then retry_loop attempt failure (attempts + 1) (Some e)
                       (sleep (of_nat (attempts + 1)) w1)
                else (Inl e, w1))
      else (Inl (Exn ConnectionError (failure attempts last_err)), w))"
  by pat_completeness auto
termination
  by (relation "measure (\<lambda>(attempt, failure, attempts, last_err, w). 5 - attempts)") auto

declare retry_loop.simps [simp del]

definition last_err_str :: "exn option \<Rightarrow> string" where
  "last_err_str last_err = (case last_err of None \<Rightarrow> ''None'' | Some e \<Rightarrow> exn_str e)"

subsection \<open>Categorizer\<close>

definition is_linebreak :: "char \<Rightarrow> bool" where
  "is_linebreak c = (c \<in> set [CHR 0x0A, CHR 0x0B, CHR 0x0C, CHR 0x0D, CHR 0x1C, CHR 0x1D, CHR 0x1E])"

text \<open>\<open>s.splitlines()[0]\<close> for a text that is not empty.\<close>

definition first_line :: "string \<Rightarrow> string" where
  "first_line s = takeWhile (\<lambda>c. \<not> is_linebreak c) s"

text \<open>\<open>s.strip(q)\<close> for one character \<open>q\<close>.\<close>

definition strip_char :: "char \<Rightarrow> string \<Rightarrow> string" where
  "strip_char q s = rev (dropWhile (\<lambda>c. c = q) (rev (dropWhile (\<lambda>c. c = q) s)))"

definition category_char :: "char \<Rightarrow> bool" where
  "category_char c =
     (is_alpha c \<or> is_digit c \<or> c = CHR '' '' \<or> c = CHR ''_'' \<or> c = CHR ''-'' \<or> c = CHR ''&'')"

text \<open>
  \<open>CATEGORY_RE.match(cat)\<close> with \<open>^[A-Za-z0-9 _\-\&]{1,100}$\<close>; \<open>$\<close> also matches before a
  newline that ends the text.
\<close>

definition category_re_match :: "string \<Rightarrow> bool" where
  "category_re_match s =
     (let body = (if s \<noteq> [] \<and> last s = CHR 0x0A then butlast s else s)
      in 1 \<le> length body \<and> length body \<le> 100 \<and> list_all category_char body)"

definition parse_category :: "string \<Rightarrow> exn + string" where
  "parse_category out =
     (let s = strip out
      in if s = [] then Inl (Exn IndexError ''list index out of range'')
         else (let cat = strip_char (CHR 0x27) (strip_char (CHR 0x22) (strip (first_line s)))
               in if category_re_match cat then Inr cat
                  else Inl (Exn ValueError
                         (''Invalid category format: '' @ [CHR 0x27] @ cat @ [CHR 0x27]))))"

definition categorize_attempt :: "env \<Rightarrow> int \<Rightarrow> string \<Rightarrow> world \<Rightarrow> (exn + string) \<times> world" where
  "categorize_attempt en mail_id prompt w =
     (case gateway_call en prompt w of
        (Inl e, w1) \<Rightarrow> (Inl e, w1)
      | (Inr out, w1) \<Rightarrow>
          (case parse_category out of
             Inl e \<Rightarrow> (Inl e, w1)
           | Inr cat \<Rightarrow>
               (case update_mail (PInt mail_id) [(''category'', PStr cat)] w1 of
                  (Inl e, w2) \<Rightarrow> (Inl e, w2)
                | (Inr b, w2) \<Rightarrow> (Inr cat, w2))))"

definition categorizer_prompt :: "env \<Rightarrow> string \<Rightarrow> string" where
  "categorizer_prompt en body =
     prompt_for en ''categorization'' @ ''\<newline>\<newline>EMAIL:\<newline>'' @ body @
       ''\<newline>\<newline>Return a single short category label.''"

definition smart_categorizer :: "env \<Rightarrow> mail \<Rightarrow> world \<Rightarrow> (exn + string) \<times> world" where
  "smart_categorizer en mail_obj w =
     (case py_int (get_or mail_obj ''id'' PNone) of
        Inl e \<Rightarrow> (Inl e, w)
      | Inr mail_id \<Rightarrow>
          if prompt_for en ''categorization'' = []
          then (Inl (Exn ValueError ''No categorization prompt found in prompt_library.json''), w)
          else (case body_text mail_obj of
                  Inl e \<Rightarrow> (Inl e, w)
                | Inr body \<Rightarrow>
                    retry_loop (categorize_attempt en mail_id (categorizer_prompt en body))
                      (\<lambda>attempts last_err. ''Failed to categorize after '' @ str_of_nat attempts @
                          '' attempts. Last error: '' @ last_err_str last_err)
                      0 None w))"

subsection \<open>Action-item extractor\<close>

text \<open>
  \<open>JSON_LIKE_RE.search(text)\<close> with \<open>[\{\[][\s\S]*[\}\]]\<close>: from the first opening brace or
  bracket to the last closing one after it.
\<close>

definition json_like :: "string \<Rightarrow> string option" where
  "json_like s =
     (case dropWhile (\<lambda>c. c \<noteq> CHR ''{'' \<and> c \<noteq> CHR ''['') s of
        [] \<Rightarrow> None
      | c # r \<Rightarrow>
          (let body = rev (dropWhile (\<lambda>x. x \<noteq> CHR ''}'' \<and> x \<noteq> CHR '']'') (rev r))
           in if body = [] then None else Some (c # body)))"

definition parse_json_from_text :: "env \<Rightarrow> string \<Rightarrow> exn + pyval" where
  "parse_json_from_text en text =
     (let t = strip text
      in case json_loads en t of
           Inr v \<Rightarrow> Inr v
         | Inl m0 \<Rightarrow>
             (case json_like t of
                Some candidate \<Rightarrow>
                  (case json_loads en candidate of
                     Inr v \<Rightarrow> Inr v
                   | Inl m \<Rightarrow> Inl (Exn ValueError (''Found JSON-like text but failed to parse: '' @ m)))
              | None \<Rightarrow> Inl (Exn ValueError ''No JSON found in model output'')))"

definition is_action_item :: "pyval \<Rightarrow> bool" where
  "is_action_item it = (case it of PDict d \<Rightarrow> map_of d ''task'' \<noteq> None | _ \<Rightarrow> False)"

definition parse_action_items :: "env \<Rightarrow> string \<Rightarrow> exn + pyval list" where
  "parse_action_items en out =
     (case parse_json_from_text en out of
        Inl e \<Rightarrow> Inl e
      | Inr parsed \<Rightarrow>
          (case (case parsed of PDict d \<Rightarrow> Some [parsed] | PList xs \<Rightarrow> Some xs | _ \<Rightarrow> None) of
             None \<Rightarrow> Inl (Exn ValueError ''Parsed JSON is neither object nor list.'')
           | Some items \<Rightarrow>
               (case find (\<lambda>it. \<not> is_action_item it) items of
                  Some it \<Rightarrow> Inl (Exn ValueError (''Invalid action item format: '' @ fmt en it))
                | None \<Rightarrow> Inr items)))"

definition extract_attempt :: "env \<Rightarrow> int \<Rightarrow> string \<Rightarrow> world \<Rightarrow> (exn + pyval list) \<times> world" where
  "extract_attempt en mail_id prompt w =
     (case gateway_call en prompt w of
        (Inl e, w1) \<Rightarrow> (Inl e, w1)
      | (Inr out, w1) \<Rightarrow>
          (case parse_action_items en out of
             Inl e \<Rightarrow> (Inl e, w1)
           | Inr items \<Rightarrow>
               (case update_mail (PInt mail_id) [(''action_items'', PList items)] w1 of
                  (Inl e, w2) \<Rightarrow> (Inl e, w2)
                | (Inr b, w2) \<Rightarrow> (Inr items, w2))))"

definition extractor_prompt :: "env \<Rightarrow> string \<Rightarrow> string" where
  "extractor_prompt en body =
     prompt_for en ''action_extraction'' @ ''\<newline>\<newline>EMAIL:\<newline>'' @ body @
       ''\<newline>\<newline>Respond with JSON.''"

definition action_item_extractor :: "env \<Rightarrow> mail \<Rightarrow> world \<Rightarrow> (exn + pyval list) \<times> world" where
  "action_item_extractor en mail_obj w =
     (case py_int (get_or mail_obj ''id'' PNone) of
        Inl e \<Rightarrow> (Inl e, w)
      | Inr mail_id \<Rightarrow>
          if prompt_for en ''action_extraction'' = []
          then (Inl (Exn ValueError ''No action_extraction prompt found in prompt_library.json''), w)
          else (case body_text mail_obj of
                  Inl e \<Rightarrow> (Inl e, w)
                | Inr body \<Rightarrow>
                    retry_loop (extract_attempt en mail_id (extractor_prompt en body))
                      (\<lambda>attempts last_err. ''Failed after '' @ str_of_nat attempts @
                          '' attempts. Last error: '' @ last_err_str last_err)
                      0 None w))"

subsection \<open>Reply drafter\<close>

text \<open>\<open>re.sub(r"```.*?```", "", text, flags=re.DOTALL)\<close>: a fence and the text up to the next one.\<close>

fun find_fence :: "string \<Rightarrow> nat option" where
  "find_fence [] = None"
| "find_fence (c # r) = (if take 3 (c # r) = ''```'' then Some 0 else map_option Suc (find_fence r))"

fun remove_fences :: "nat \<Rightarrow> string \<Rightarrow> string" where
  "remove_fences skip [] = []"
| "remove_fences skip (c # r) =
     (if 0 < skip then remove_fences (skip - 1) r
      else if take 3 (c # r) = ''```''
      then (case find_fence (drop 3 (c # r)) of
              Some k \<Rightarrow> remove_fences (k + 5) r
            | None \<Rightarrow> c # remove_fences 0 r)
      else c # remove_fences 0 r)"

text \<open>
  \<open>\s*[-*_]{3,}\s*$\<close> (multi-line) tried at the start of \<open>s\<close>: the length of the match. It
  ends at the end of the text, or before the last newline of the whitespace after the rule.
\<close>

definition match_rule_line :: "string \<Rightarrow> nat option" where
  "match_rule_line s =
     (let r1 = dropWhile is_space s;
          rule = takeWhile is_rule r1;
          r2 = dropWhile is_rule r1;
          ws = takeWhile is_space r2;
          rest = dropWhile is_space r2;
          tail = rev (takeWhile (\<lambda>x. x \<noteq> CHR 0x0A) (rev ws))
      in if length rule < 3 then None
         else if rest = [] then Some (length s)
         else if CHR 0x0A \<in> set ws then Some (length s - (length tail + 1 + length rest))
         else None)"

text \<open>\<open>re.sub(r"^\s*[-*_]{3,}\s*$", "", text, flags=re.MULTILINE)\<close>\<close>

fun remove_rule_lines :: "nat \<Rightarrow> bool \<Rightarrow> string \<Rightarrow> string" where
  "remove_rule_lines skip bol [] = []"
| "remove_rule_lines skip bol (c # r) =
     (if 0 < skip then remove_rule_lines (skip - 1) (c = CHR 0x0A) r
      else (case (if bol then match_rule_line (c # r) else None) of
              Some n \<Rightarrow> remove_rule_lines (n - 1) (c = CHR 0x0A) r
            | None \<Rightarrow> c # remove_rule_lines 0 (c = CHR 0x0A) r))"

text \<open>\<open>text.replace("**", "")\<close>\<close>

fun remove_bold :: "string \<Rightarrow> string" where
  "remove_bold (c # d # r) =
     (if c = CHR ''*'' \<and> d = CHR ''*'' then remove_bold r else c # remove_bold (d # r))"
| "remove_bold s = s"

text \<open>\<open>re.sub(r"^Subject:.*$", "", text, flags=re.MULTILINE)\<close>: the line, not its newline.\<close>

fun remove_subject_lines :: "nat \<Rightarrow> bool \<Rightarrow> string \<Rightarrow> string" where
  "remove_subject_lines skip bol [] = []"
| "remove_subject_lines skip bol (c # r) =
     (if 0 < skip then remove_subject_lines (skip - 1) (c = CHR 0x0A) r
      else if bol \<and> take 8 (c # r) = ''Subject:''
      then remove_subject_lines (7 + length (takeWhile (\<lambda>x. x \<noteq> CHR 0x0A) (drop 8 (c # r))))
             (c = CHR 0x0A) r
      else c # remove_subject_lines 0 (c = CHR 0x0A) r)"

text \<open>
  \<open>\n\s*\n\s*\n+\<close> tried at the start of \<open>s\<close>: a stretch of whitespace that starts with a
  newline and holds three newlines or more, up to its last newline.
\<close>

definition match_blank_lines :: "string \<Rightarrow> nat option" where
  "match_blank_lines s =
     (let ws = takeWhile is_space s;
          tail = rev (takeWhile (\<lambda>x. x \<noteq> CHR 0x0A) (rev ws))
      in if s \<noteq> [] \<and> hd s = CHR 0x0A \<and> 3 \<le> length (filter (\<lambda>x. x = CHR 0x0A) ws)
         then Some (length ws - length tail)
         else None)"

text \<open>\<open>re.sub(r"\n\s*\n\s*\n+", "\n\n", text)\<close>\<close>

fun collapse_blank_lines :: "nat \<Rightarrow> string \<Rightarrow> string" where
  "collapse_blank_lines skip [] = []"
| "collapse_blank_lines skip (c # r) =
     (if 0 < skip then collapse_blank_lines (skip - 1) r
      else (case match_blank_lines (c # r) of
              Some n \<Rightarrow> CHR 0x0A # CHR 0x0A # collapse_blank_lines (n - 1) r
            | None \<Rightarrow> c # collapse_blank_lines 0 r))"

definition clean_draft :: "string \<Rightarrow> string" where
  "clean_draft text =
     strip (collapse_blank_lines 0
       (strip (remove_subject_lines 0 True
         (remove_bold (remove_rule_lines 0 True (remove_fences 0 text))))))"

definition drafter_prompt :: "env \<Rightarrow> string \<Rightarrow> string" where
  "drafter_prompt en body =
     prompt_for en ''auto_reply'' @ ''\<newline>\<newline>ORIGINAL EMAIL:\<newline>'' @ body @
       ''\<newline>\<newline>Produce a polite reply.'' @
       ''\<newline>\<newline>IMPORTANT: If this email is NOT suitable for drafting based on the prompt, respond with exactly the single word:\<newline>INVALID''"

text \<open>
  \<open>src_id = mail_obj.get("id")\<close>; when it is not \<open>None\<close>, \<open>update_mail(src_id, {"draftable":
  0})\<close>, whatever it returns or raises.
\<close>

definition mark_not_draftable :: "mail \<Rightarrow> world \<Rightarrow> world" where
  "mark_not_draftable mail_obj w =
     (case get_or mail_obj ''id'' PNone of
        PNone \<Rightarrow> w
      | src_id \<Rightarrow> snd (update_mail src_id [(''draftable'', PInt 0)] w))"

text \<open>\<open>PermissionError\<close> and \<open>TimeoutError\<close> are \<open>OSError\<close>s.\<close>

definition is_oserror :: "exn \<Rightarrow> bool" where
  "is_oserror e = (exn_kind_of e = OSError \<or> exn_kind_of e = TimeoutError)"

text \<open>
  The inner loop that writes the draft: \<open>add_mail\<close> up to 5 times, sleeping
  \<open>0.2 * add_attempts\<close> after an \<open>OSError\<close>; \<open>IOError\<close> when no attempt got an id.
\<close>

function add_loop :: "mail \<Rightarrow> nat \<Rightarrow> exn option \<Rightarrow> world \<Rightarrow> (exn + int) \<times> world" where
  "add_loop draft_mail add_attempts last_err w =
     (if add_attempts < 5
      then (case add_mail draft_mail w of
              (Inr new_id, w1) \<Rightarrow> (Inr new_id, w1)
            | (Inl e, w1) \<Rightarrow>
                if is_oserror e
                then add_loop draft_mail (add_attempts + 1) (Some e)
                       (sleep (of_nat (add_attempts + 1) / 5) w1)
                else (Inl e, w1))
      else (Inl (Exn OSError (''Failed to write draft mail after retries. Last error: '' @
                              last_err_str last_err)), w))"
  by pat_completeness auto
termination
  by (relation "measure (\<lambda>(draft_mail, add_attempts, last_err, w). 5 - add_attempts)") auto

declare add_loop.simps [simp del]

definition make_draft_mail :: "env \<Rightarrow> mail \<Rightarrow> string option \<Rightarrow> string \<Rightarrow> world \<Rightarrow> mail" where
  "make_draft_mail en mail_obj sender_override draft_text w =
     [(''sender'', PStr (case sender_override of
                          None \<Rightarrow> ''ai.drafter@oceanai.local''
                        | Some s \<Rightarrow> if s = [] then ''ai.drafter@oceanai.local'' else s)),
      (''subject'', PStr (''Draft reply: '' @ fmt en (get_or mail_obj ''subject'' (PStr ''(no subject)'')))),
      (''timestamp'', PStr (strftime en (clock w))),
      (''body'', PStr draft_text),
      (''category'', PStr ''draft''),
      (''action_items'', PList []),
      (''draft_for'', get_or mail_obj ''id'' PNone)]"

definition draft_attempt ::
  "env \<Rightarrow> mail \<Rightarrow> string option \<Rightarrow> string \<Rightarrow> world \<Rightarrow> (exn + string) \<times> world" where
  "draft_attempt en mail_obj sender_override prompt w =
     (case gateway_call en prompt w of
        (Inl e, w1) \<Rightarrow> (Inl e, w1)
      | (Inr out, w1) \<Rightarrow>
          (let raw_draft = strip out
           in if raw_draft = [] then (Inl (Exn ValueError ''Empty draft from model.''), w1)
              else if raw_draft = ''INVALID'' then (Inr [], mark_not_draftable mail_obj w1)
              else (let best_block = select_best_option raw_draft;
                        draft_text = clean_draft best_block;
                        draft_mail = make_draft_mail en mail_obj sender_override draft_text w1
                    in case add_loop draft_mail 0 None w1 of
                         (Inl e, w2) \<Rightarrow> (Inl e, w2)
                       | (Inr new_id, w2) \<Rightarrow>
                           (Inr draft_text,
                            snd (update_mail (PInt new_id) [(''category'', PStr ''draft'')]
                                   (mark_not_draftable mail_obj w2))))))"

definition AI_mail_drafter ::
  "env \<Rightarrow> mail \<Rightarrow> string option \<Rightarrow> world \<Rightarrow> (exn + string) \<times> world" where
  "AI_mail_drafter en mail_obj sender_override w =
     (if py_eq (get_or mail_obj ''draftable'' PNone) (PInt 0) then (Inr [], w)
      else if prompt_for en ''auto_reply'' = []
      then (Inl (Exn ValueError ''No auto_reply prompt found in prompt_library.json''), w)
      else (case body_text mail_obj of
              Inl e \<Rightarrow> (Inl e, w)
            | Inr body \<Rightarrow>
                retry_loop (draft_attempt en mail_obj sender_override (drafter_prompt en body))
                  (\<lambda>attempts last_err. ''Failed to generate draft after '' @ str_of_nat attempts @
                      '' attempts. Last error: '' @ last_err_str last_err)
                  0 None w))"

section \<open>Pipeline orchestrator\<close>

definition set_last_error :: "string \<Rightarrow> world \<Rightarrow> world" where
  "set_last_error message w =
     w\<lparr>last_error := Some (message, clock w), error_signal := Some (message, clock w)\<rparr>"

definition clear_last_error :: "world \<Rightarrow> world" where
  "clear_last_error w = w\<lparr>last_error := None, error_signal := None\<rparr>"

text \<open>
  \<open>_throttle\<close>: sleep what is missing of \<open>MIN_SECONDS_BETWEEN_LLM_CALLS\<close> since the last call,
  then note the time.
\<close>

definition throttle :: "env \<Rightarrow> world \<Rightarrow> world" where
  "throttle en w =
     (let elapsed = clock w - last_llm_call w;
          w1 = (if elapsed < min_seconds_between_llm_calls en
                then sleep (min_seconds_between_llm_calls en - elapsed) w else w)
      in w1\<lparr>last_llm_call := clock w1\<rparr>)"

text \<open>
  \<open>_read_inbox\<close>: the empty document when there is no file; otherwise the document, read
  under the lock when \<open>os.mkdir\<close> gets it, and read all the same after 5 s of polling when
  it does not.
\<close>

definition read_inbox :: "world \<Rightarrow> document \<times> world" where
  "read_inbox w =
     (case inbox w of
        None \<Rightarrow> (\<lparr>counter = 0, emails = []\<rparr>, w)
      | Some d \<Rightarrow>
          if lockdir w
          then (d, w\<lparr>clock := clock w + 5, slept := slept w @ replicate 100 (1 / 20)\<rparr>)
          else (d, w\<lparr>lock_acquisitions := Suc (lock_acquisitions w)\<rparr>))"

text \<open>
  \<open>_normalize_action_items\<close>. \<open>json.loads\<close> of a text that starts with a bracket or a brace
  gives a list or a dictionary, so the inner call is written out for those: a list item by
  item, anything else that is truthy as one task.
\<close>

definition task_of :: "env \<Rightarrow> pyval \<Rightarrow> pyval" where
  "task_of en it = (case it of PDict d \<Rightarrow> it | _ \<Rightarrow> PDict [(''task'', PStr (fmt en it))])"

definition normalize_parsed :: "env \<Rightarrow> pyval \<Rightarrow> pyval list" where
  "normalize_parsed en raw =
     (if \<not> py_truthy raw then []
      else (case raw of
              PList xs \<Rightarrow> map (task_of en) xs
            | _ \<Rightarrow> [PDict [(''task'', PStr (fmt en raw))]]))"

definition normalize_action_items :: "env \<Rightarrow> pyval \<Rightarrow> pyval list" where
  "normalize_action_items en raw =
     (if \<not> py_truthy raw then []
      else (case raw of
              PList xs \<Rightarrow> map (task_of en) xs
            | PStr s \<Rightarrow>
                (let r = strip s
                 in if r \<noteq> [] \<and> ((hd r = CHR ''['' \<and> last r = CHR '']'') \<or>
                                   (hd r = CHR ''{'' \<and> last r = CHR ''}''))
                    then (case json_loads en r of
                            Inr parsed \<Rightarrow> normalize_parsed en parsed
                          | Inl m \<Rightarrow> [PDict [(''task'', PStr r)]])
                    else [PDict [(''task'', PStr r)]])
            | _ \<Rightarrow> [PDict [(''task'', PStr (fmt en raw))]]))"

definition quota_keywords :: "string list" where
  "quota_keywords = [''quota'', ''quota exceeded'', ''429'', ''rate limit'', ''token'', ''billing'',
     ''quota_exceeded'', ''resource_exhausted'', ''exceeded'']"

definition is_quota_or_token_error :: "exn \<Rightarrow> bool" where
  "is_quota_or_token_error e = list_ex (contains (lower (exn_str e))) quota_keywords"

definition set_quota_backoff :: "env \<Rightarrow> string \<Rightarrow> world \<Rightarrow> world" where
  "set_quota_backoff en message w =
     set_last_error message
       (w\<lparr>quota_backoff_until := max (quota_backoff_until w) (clock w + retry_backoff_seconds en)\<rparr>)"

definition clear_quota_backoff :: "world \<Rightarrow> world" where
  "clear_quota_backoff w = clear_last_error (w\<lparr>quota_backoff_until := 0\<rparr>)"

definition quota_backoff_active :: "world \<Rightarrow> rat" where
  "quota_backoff_active w = max 0 (quota_backoff_until w - clock w)"

text \<open>\<open>(mail.get("category") or "").lower()\<close>; a truthy value that is no string has no \<open>lower\<close>.\<close>

definition category_lower :: "mail \<Rightarrow> exn + string" where
  "category_lower m =
     (let v = get_or m ''category'' PNone
      in if \<not> py_truthy v then Inr []
         else (case v of
                 PStr s \<Rightarrow> Inr (lower s)
               | _ \<Rightarrow> Inl (Exn AttributeError ([CHR 0x27] @ type_name v @ [CHR 0x27] @
                                                '' object has no attribute '' @
                                                [CHR 0x27] @ ''lower'' @ [CHR 0x27]))))"

definition is_draft_for :: "pyval \<Rightarrow> mail \<Rightarrow> bool" where
  "is_draft_for mail_id m =
     (case category_lower m of
        Inl e \<Rightarrow> False
      | Inr c \<Rightarrow> c = ''draft'' \<and>
          (py_eq (get_or m ''draft_for'' PNone) mail_id \<or>
           py_eq (get_or m ''in_reply_to'' PNone) mail_id \<or>
           py_eq (get_or m ''source_id'' PNone) mail_id))"

definition draft_exists_for :: "pyval \<Rightarrow> world \<Rightarrow> bool \<times> world" where
  "draft_exists_for mail_id w =
     (case read_inbox w of (data, w1) \<Rightarrow> (list_ex (is_draft_for mail_id) (emails data), w1))"

text \<open>
  What every \<open>except\<close> of \<open>_process_one_mail\<close> does with the exception of a stage: a quota
  or token error sets the backoff. The flag says whether it did.
\<close>

definition on_stage_failure :: "env \<Rightarrow> exn \<Rightarrow> world \<Rightarrow> bool \<times> world" where
  "on_stage_failure en e w =
     (if is_quota_or_token_error e then (True, set_quota_backoff en (exn_str e) w) else (False, w))"

text \<open>Stage 1 of \<open>_process_one_mail\<close>; the flag is the early \<open>return\<close>.\<close>

definition categorize_stage :: "env \<Rightarrow> mail \<Rightarrow> world \<Rightarrow> bool \<times> world" where
  "categorize_stage en m w =
     (if \<not> py_truthy (get_or m ''category'' PNone)
      then (case smart_categorizer en m (throttle en w) of
              (Inl e, w1) \<Rightarrow> on_stage_failure en e w1
            | (Inr cat, w1) \<Rightarrow> (False, w1))
      else (False, w))"

text \<open>Stage 2.\<close>

definition extract_stage :: "env \<Rightarrow> mail \<Rightarrow> world \<Rightarrow> bool \<times> world" where
  "extract_stage en m w =
     (let v = get_or m ''action_items'' PNone;
          current_ais = (if py_truthy v then v else PList [])
      in if normalize_action_items en current_ais = []
         then (case action_item_extractor en m (throttle en w) of
                 (Inl e, w1) \<Rightarrow> on_stage_failure en e w1
               | (Inr items, w1) \<Rightarrow> (False, w1))
         else (False, w))"

text \<open>Stage 3, under \<open>_draft_lock\<close>: one thread runs here, so the mutex is always free.\<close>

definition draft_stage :: "env \<Rightarrow> mail \<Rightarrow> world \<Rightarrow> world" where
  "draft_stage en m w =
     (case category_lower m of
        Inl e \<Rightarrow> snd (on_stage_failure en e w)
      | Inr current_cat \<Rightarrow>
          if current_cat \<noteq> ''draft''
          then (case draft_exists_for (get_or m ''id'' PNone) w of
                  (True, w1) \<Rightarrow> w1
                | (False, w1) \<Rightarrow>
                    (case AI_mail_drafter en m None (throttle en w1) of
                       (Inr draft, w2) \<Rightarrow> clear_quota_backoff w2
                     | (Inl e, w2) \<Rightarrow> snd (on_stage_failure en e w2)))
          else w)"

text \<open>The branch for a mail that is a draft: action extraction only.\<close>

definition draft_mail_branch :: "env \<Rightarrow> mail \<Rightarrow> world \<Rightarrow> world" where
  "draft_mail_branch en m w =
     (case action_item_extractor en m (throttle en w) of
        (Inl e, w1) \<Rightarrow> snd (on_stage_failure en e w1)
      | (Inr items, w1) \<Rightarrow> w1)"

text \<open>
  \<open>_process_one_mail\<close>. It returns nothing; the only exception that leaves it is the one of
  \<open>.lower()\<close> before the first \<open>try\<close>.
\<close>

definition process_one_mail :: "env \<Rightarrow> mail \<Rightarrow> world \<Rightarrow> exn option \<times> world" where
  "process_one_mail en m w =
     (if 0 < quota_backoff_active w then (None, w)
      else (case category_lower m of
              Inl e \<Rightarrow> (Some e, w)
            | Inr cat \<Rightarrow>
                if cat = ''draft'' then (None, draft_mail_branch en m w)
                else (case categorize_stage en m w of
                        (True, w1) \<Rightarrow> (None, w1)
                      | (False, w1) \<Rightarrow>
                          (case extract_stage en m (sleep (1 / 5) w1) of
                             (True, w2) \<Rightarrow> (None, w2)
                           | (False, w2) \<Rightarrow> (None, draft_stage en m (sleep (1 / 5) w2))))))"

text \<open>
  The loop of \<open>process_mails_sequentially\<close>. A gateway that keeps answering with quota
  errors keeps it going for ever, so the loop counts its turns down from \<open>fuel\<close> and
  \<open>None\<close> stands for a loop that has not ended within them. Whatever is raised inside a
  turn is caught and the loop goes on with the next mail: the exception of
  \<open>_process_one_mail\<close>, and the \<open>ValueError\<close> of \<open>time.sleep\<close> on a negative
  \<open>delay_between\<close>.
\<close>

fun process_loop :: "env \<Rightarrow> rat \<Rightarrow> nat \<Rightarrow> nat \<Rightarrow> mail list \<Rightarrow> world \<Rightarrow> world option" where
  "process_loop en delay_between 0 idx mails w = None"
| "process_loop en delay_between (Suc fuel) idx mails w =
     (if idx < length mails
      then (if 0 < quota_backoff_active w
            then (case read_inbox (sleep (min (quota_backoff_active w) 2) w) of
                    (data, w1) \<Rightarrow> process_loop en delay_between fuel 0 (emails data) w1)
            else (case read_inbox w of
                    (current, w1) \<Rightarrow>
                      (case find (\<lambda>m. id_matches m (get_or (mails ! idx) ''id'' PNone)) (emails current) of
                         None \<Rightarrow> process_loop en delay_between fuel (idx + 1) mails w1
                       | Some fresh \<Rightarrow>
                           (case process_one_mail en fresh w1 of
                              (None, w2) \<Rightarrow>
                                process_loop en delay_between fuel (idx + 1) mails
                                  (if delay_between < 0 then w2 else sleep delay_between w2)
                            | (Some e, w2) \<Rightarrow>
                                process_loop en delay_between fuel (idx + 1) mails w2))))
      else Some w)"

definition process_mails_sequentially :: "env \<Rightarrow> rat \<Rightarrow> nat \<Rightarrow> world \<Rightarrow> world option" where
  "process_mails_sequentially en delay_between fuel w =
     (case read_inbox w of
        (data, w1) \<Rightarrow>
          if emails data = [] then Some w1
          else process_loop en delay_between fuel 0 (emails data) w1)"

text \<open>A gateway and a prompt library to run the pipeline on.\<close>

definition demo_env :: "(nat \<Rightarrow> string \<Rightarrow> string + string) \<Rightarrow> env" where
  "demo_env gw = \<lparr>gateway = gw,
     prompt_library = [(''categorization'', ''Label this mail.''),
                       (''action_extraction'', ''List the tasks.''),
                       (''auto_reply'', ''Write a reply.'')],
     json_loads = (\<lambda>s. Inl ''Expecting value''), py_str = (\<lambda>v. ''?''), strftime = (\<lambda>t. ''now''),
     retry_backoff_seconds = 60, min_seconds_between_llm_calls = 1 / 2\<rparr>"

section \<open>Vocabulary of the retry and pipeline theorems\<close>

text \<open>
  The world after \<open>k\<close> attempts in a row ended in a \<open>ConnectionError\<close> of the gateway, the
  first of them being attempt number \<open>attempts + 1\<close>: each is one call and one sleep of as
  many seconds as the number of the attempt.
\<close>

fun after_failures :: "nat \<Rightarrow> nat \<Rightarrow> world \<Rightarrow> world" where
  "after_failures 0 attempts w = w"
| "after_failures (Suc k) attempts w =
     after_failures k (Suc attempts)
       (sleep (of_nat (Suc attempts)) (w\<lparr>gateway_calls := Suc (gateway_calls w)\<rparr>))"

text \<open>The gateway answers the next \<open>k\<close> calls with a \<open>ConnectionError\<close>.\<close>

definition gateway_down :: "env \<Rightarrow> string \<Rightarrow> nat \<Rightarrow> nat \<Rightarrow> bool" where
  "gateway_down en prompt c k = list_all (\<lambda>i. isl (gateway en (c + i) prompt)) [0..<k]"

text \<open>A gateway out of quota, and one that fails once and then answers \<open>response\<close>.\<close>

definition quota_gateway :: "nat \<Rightarrow> string \<Rightarrow> string + string" where
  "quota_gateway n prompt = Inl ''Quota exceeded (429).''"

definition flaky_gateway :: "string \<Rightarrow> nat \<Rightarrow> string \<Rightarrow> string + string" where
  "flaky_gateway response n prompt =
     (if n = 0 then Inl ''Network error calling LLM: timed out'' else Inr response)"

text \<open>The sample mail as the store holds it, and a world whose mailbox holds just that mail.\<close>

definition first_mail :: mail where
  "first_mail = sample_mail @ [(''id'', PInt 1), (''category'', PStr []),
     (''action_items'', PList []), (''draftable'', PStr [])]"

definition one_mail_world :: world where
  "one_mail_world = (fresh_world 100)\<lparr>inbox := Some \<lparr>counter = 1, emails = [first_mail]\<rparr>\<rparr>"

text \<open>The state of the quota backoff: the deadline and the last-error record, in memory and on disk.\<close>

definition backoff_state :: "world \<Rightarrow> rat \<times> (string \<times> rat) option \<times> (string \<times> rat) option" where
  "backoff_state w = (quota_backoff_until w, last_error w, error_signal w)"

text \<open>
  A mail the pipeline has nothing left to do for: it is no draft, it has a category and a
  non-empty list of action items, and drafting is closed for it, by \<open>draftable == 0\<close> or
  by a draft in the mailbox that refers to it.
\<close>

definition processed :: "mail \<Rightarrow> bool" where
  "processed m =
     ((case get_or m ''category'' PNone of PStr c \<Rightarrow> c \<noteq> [] \<and> lower c \<noteq> ''draft'' | _ \<Rightarrow> False)
      \<and> (case get_or m ''action_items'' PNone of PList xs \<Rightarrow> xs \<noteq> [] | _ \<Rightarrow> False))"

definition drafting_closed :: "world \<Rightarrow> mail \<Rightarrow> bool" where
  "drafting_closed w m =
     (py_eq (get_or m ''draftable'' PNone) (PInt 0)
      \<or> (case inbox w of
            None \<Rightarrow> False
          | Some d \<Rightarrow> list_ex (is_draft_for (get_or m ''id'' PNone)) (emails d)))"

definition settled :: "world \<Rightarrow> mail \<Rightarrow> bool" where
  "settled w m = (processed m \<and> drafting_closed w m)"

text \<open>
  The transition to \<open>Backoff\<close> on the exception \<open>e\<close>, from the world \<open>w1\<close> the failed stage
  left to \<open>w'\<close>: the deadline is at least now plus the configured pause and no earlier than
  it was, and the last error is the message with the time, in memory and on disk.
\<close>

definition backoff_set :: "env \<Rightarrow> exn \<Rightarrow> world \<Rightarrow> world \<Rightarrow> bool" where
  "backoff_set en e w1 w' =
     (w' = set_quota_backoff en (exn_str e) w1
      \<and> clock w1 + retry_backoff_seconds en \<le> quota_backoff_until w'
      \<and> quota_backoff_until w1 \<le> quota_backoff_until w'
      \<and> last_error w' = Some (exn_str e, clock w1)
      \<and> error_signal w' = Some (exn_str e, clock w1)
      \<and> clock w' = clock w1)"

text \<open>
  A mail that is categorized and has its action items but no decision on drafting, and a
  world that holds it with an expired backoff and an old error still on record.
\<close>

definition work_mail :: mail where
  "work_mail = sample_mail @ [(''id'', PInt 1), (''category'', PStr ''work''),
     (''action_items'', PList [PDict [(''task'', PStr ''Reply to the tester'')]]),
     (''draftable'', PStr [])]"

definition stale_error_world :: world where
  "stale_error_world = (fresh_world 100)\<lparr>inbox := Some \<lparr>counter = 1, emails = [work_mail]\<rparr>,
     quota_backoff_until := 50, last_error := Some (''Quota exceeded (429).'', - 10),
     error_signal := Some (''Quota exceeded (429).'', - 10)\<rparr>"

text \<open>A gateway that answers every prompt with a short reply.\<close>

definition polite_gateway :: "nat \<Rightarrow> string \<Rightarrow> string + string" where
  "polite_gateway n prompt = Inr ''Thanks, will do.''"

definition all_settled :: "world \<Rightarrow> bool" where
  "all_settled w = (case inbox w of None \<Rightarrow> True | Some d \<Rightarrow> list_all (settled w) (emails d))"

text \<open>
  Two mailboxes in which every mail has a category, action items and \<open>draftable\<close> set: one
  whose mail carries the marker 1 and has no draft yet, and one that holds a draft.
\<close>

definition marked_mail :: mail where
  "marked_mail = sample_mail @ [(''id'', PInt 1), (''category'', PStr ''work''),
     (''action_items'', PList [PDict [(''task'', PStr ''Reply to the tester'')]]),
     (''draftable'', PInt 1)]"

definition marked_world :: world where
  "marked_world = (fresh_world 100)\<lparr>inbox := Some \<lparr>counter = 1, emails = [marked_mail]\<rparr>\<rparr>"

definition closed_mail :: mail where
  "closed_mail = sample_mail @ [(''id'', PInt 1), (''category'', PStr ''work''),
     (''action_items'', PList [PDict [(''task'', PStr ''Reply to the tester'')]]),
     (''draftable'', PInt 0)]"

definition draft_of_closed_mail :: mail where
  "draft_of_closed_mail =
     [(''sender'', PStr ''ai.drafter@oceanai.local''), (''subject'', PStr ''Draft reply: Test Add Mail''),
      (''timestamp'', PStr ''now''), (''body'', PStr ''Thanks, will do.''), (''category'', PStr ''draft''),
      (''action_items'', PList [PDict [(''task'', PStr ''Send it'')]]), (''draft_for'', PInt 1),
      (''id'', PInt 2), (''draftable'', PInt 0)]"

definition drafted_world :: world where
  "drafted_world = (fresh_world 100)\<lparr>inbox :=
     Some \<lparr>counter = 2, emails = [closed_mail, draft_of_closed_mail]\<rparr>\<rparr>"

definition closed_world :: world where
  "closed_world = (fresh_world 100)\<lparr>inbox := Some \<lparr>counter = 1, emails = [closed_mail]\<rparr>,
     quota_backoff_until := 103\<rparr>"

section \<open>Properties of the Mailbox Store\<close>

lemma find_required:
  "(find (\<lambda>k. map_of m k = None) required_fields = None) = (\<forall>k\<in>set required_fields. map_of m k \<noteq> None)"
  by (auto simp: find_None_iff)

lemma find_required_Some:
  "find (\<lambda>k. map_of m k = None) required_fields = Some k \<Longrightarrow> k \<in> set required_fields \<and> map_of m k = None"
  by (auto simp: find_Some_iff)

lemma map_of_setdefault:
  "map_of (setdefault k v d) k' =
     (case map_of d k' of Some x \<Rightarrow> Some x | None \<Rightarrow> if k' = k then Some v else None)"
  by (auto simp: setdefault_def map_add_def split: option.splits)

lemma map_of_new_entry_id: "map_of (new_entry m n) ''id'' = Some (PInt n)"
  by (simp add: new_entry_def map_of_setdefault update_conv')

lemma map_of_new_entry_other:
  "k \<noteq> ''id'' \<Longrightarrow> map_of (new_entry m n) k =
     (case map_of m k of Some v \<Rightarrow> Some v
      | None \<Rightarrow> map_of [(''category'', PStr []), (''action_items'', PList []), (''draftable'', PStr [])] k)"
  by (auto simp: new_entry_def map_of_setdefault update_conv' split: option.splits)

lemma add_mail_missing:
  "\<exists>k\<in>set required_fields. map_of m k = None \<Longrightarrow>
   \<exists>k\<in>set required_fields. add_mail m w = (Inl (Exn ValueError (''Missing required field: '' @ k)), w)"
proof -
  assume a: "\<exists>k\<in>set required_fields. map_of m k = None"
  then have "find (\<lambda>k. map_of m k = None) required_fields \<noteq> None"
    using find_required[of m] by blast
  then obtain k where k: "find (\<lambda>k. map_of m k = None) required_fields = Some k" by blast
  then have "k \<in> set required_fields" using find_required_Some by blast
  moreover have "add_mail m w = (Inl (Exn ValueError (''Missing required field: '' @ k)), w)"
    using k by (simp add: add_mail_def)
  ultimately show ?thesis by blast
qed

lemma add_mail_locked:
  "\<forall>k\<in>set required_fields. map_of m k \<noteq> None \<Longrightarrow> lockdir w \<Longrightarrow>
   fst (add_mail m w) = Inl (Exn TimeoutError (''Failed to acquire lock for '' @ INBOX @ '' within 5.0s''))
   \<and> inbox (snd (add_mail m w)) = inbox w \<and> lockdir (snd (add_mail m w))"
  using find_required[of m] by (simp add: add_mail_def acquire_lock_def)

lemma add_mail_ok:
  "\<forall>k\<in>set required_fields. map_of m k \<noteq> None \<Longrightarrow> \<not> lockdir w \<Longrightarrow>
   add_mail m w =
     (let d = (case inbox w of None \<Rightarrow> \<lparr>counter = 0, emails = []\<rparr> | Some d \<Rightarrow> d);
          new_id = counter d + 1
      in (Inr new_id,
          w\<lparr>lock_acquisitions := Suc (lock_acquisitions w),
            inbox := Some (d\<lparr>emails := emails d @ [new_entry m new_id], counter := new_id\<rparr>)\<rparr>))"
  using find_required[of m]
  by (simp add: add_mail_def acquire_lock_def release_lock_def Let_def)

lemma length_renumber: "length (renumber i es) = length es"
  by (induction es arbitrary: i) auto

lemma ids_renumber:
  "map (\<lambda>e. map_of e ''id'') (renumber i es) = map (\<lambda>j. Some (PInt j)) [i..i + int (length es) - 1]"
proof (induction es arbitrary: i)
  case Nil
  then show ?case by simp
next
  case (Cons e es)
  have "[i..i + int (length (e # es)) - 1] = i # [i + 1..(i + 1) + int (length es) - 1]"
    by (simp add: upto_rec1)
  then show ?case using Cons.IH[of "i + 1"] by (simp add: update_conv')
qed

lemma renumber_other:
  "j < length es \<Longrightarrow> k \<noteq> ''id'' \<Longrightarrow> map_of (renumber i es ! j) k = map_of (es ! j) k"
proof (induction es arbitrary: i j)
  case Nil
  then show ?case by simp
next
  case (Cons e es)
  then show ?case by (cases j) (auto simp: update_conv')
qed

lemma contiguous_renumber:
  "contiguous (d\<lparr>emails := renumber 1 es, counter := int (length es)\<rparr>)"
  using ids_renumber[of 1 es] by (simp add: contiguous_def length_renumber)

lemma delete_mail_cases:
  "delete_mail i w =
     (case inbox w of None \<Rightarrow> (Inr False, w)
      | Some d \<Rightarrow>
         if lockdir w
         then (Inl (Exn TimeoutError (''Failed to acquire lock for '' @ INBOX @ '' within 5.0s'')),
               w\<lparr>clock := clock w + 5, slept := slept w @ replicate 100 (1 / 20)\<rparr>)
         else if length (filter (\<lambda>e. \<not> id_matches e i) (emails d)) = length (emails d)
         then (Inr False, w\<lparr>lock_acquisitions := Suc (lock_acquisitions w)\<rparr>)
         else (Inr True, w\<lparr>lock_acquisitions := Suc (lock_acquisitions w),
                 inbox := Some (d\<lparr>emails := renumber 1 (filter (\<lambda>e. \<not> id_matches e i) (emails d)),
                                   counter := int (length (filter (\<lambda>e. \<not> id_matches e i) (emails d)))\<rparr>)\<rparr>))"
  by (simp add: delete_mail_def acquire_lock_def release_lock_def Let_def split: option.splits)

lemma doc_ok_delete: "doc_ok w \<Longrightarrow> doc_ok (snd (delete_mail i w))"
  by (auto simp: delete_mail_cases doc_ok_def contiguous_renumber split: option.splits)

lemma contiguous_append:
  assumes "contiguous d"
  shows "contiguous (d\<lparr>emails := emails d @ [new_entry m (counter d + 1)], counter := counter d + 1\<rparr>)"
proof -
  let ?n = "int (length (emails d))"
  have c: "counter d = ?n" using assms by (simp add: contiguous_def)
  have "[1..1 + ?n] = [1..?n] @ [?n + 1]" by (simp add: upto_rec2)
  then show ?thesis using assms c
    by (simp add: contiguous_def map_of_new_entry_id)
qed

lemma contiguous_first:
  "contiguous (\<lparr>counter = 1, emails = [new_entry m 1]\<rparr>)"
  by (simp add: contiguous_def map_of_new_entry_id)

lemma doc_ok_add: "doc_ok w \<Longrightarrow> doc_ok (snd (add_mail m w))"
proof (cases "\<forall>k\<in>set required_fields. map_of m k \<noteq> None")
  case False
  assume ok: "doc_ok w"
  from False have "\<exists>k\<in>set required_fields. map_of m k = None" by simp
  then obtain k where "add_mail m w = (Inl (Exn ValueError (''Missing required field: '' @ k)), w)"
    using add_mail_missing[of m w] by blast
  then show ?thesis using ok by simp
next
  case True
  assume ok: "doc_ok w"
  show ?thesis
  proof (cases "lockdir w")
    case True
    then show ?thesis using add_mail_locked[OF \<open>\<forall>k\<in>set required_fields. map_of m k \<noteq> None\<close> True, of ] ok
      by (simp add: doc_ok_def)
  next
    case False
    show ?thesis
    proof (cases "inbox w")
      case None
      then show ?thesis using add_mail_ok[OF True False]
        by (simp add: doc_ok_def contiguous_first)
    next
      case (Some d)
      then have "contiguous d" using ok by (simp add: doc_ok_def)
      then show ?thesis using add_mail_ok[OF True False] Some contiguous_append[of d m]
        by (simp add: doc_ok_def Let_def)
    qed
  qed
qed

lemma doc_ok_run: "doc_ok w \<Longrightarrow> doc_ok (run ops w)"
  unfolding run_def
proof (induction ops arbitrary: w)
  case Nil
  then show ?case by simp
next
  case (Cons o1 ops)
  then show ?case by (cases o1) (auto intro: doc_ok_add doc_ok_delete)
qed


lemma map_of_apply_updates:
  "map_of (apply_updates u e) k =
     (if k = ''id'' then map_of e k
      else case map_of (rev u) k of Some v \<Rightarrow> Some v | None \<Rightarrow> map_of e k)"
proof (induction u arbitrary: e)
  case Nil
  then show ?case by simp
next
  case (Cons kv us)
  obtain k' v where kv: "kv = (k', v)" by (cases kv)
  show ?case unfolding kv
    by (auto simp: Cons.IH update_conv' map_add_def split: option.splits)
qed

lemma update_first_None:
  "(update_first i u es = None) = (\<forall>e\<in>set es. \<not> id_matches e i)"
  by (induction es) auto

lemma update_first_Some:
  "update_first i u es = Some es' \<Longrightarrow>
   \<exists>k<length es. id_matches (es ! k) i \<and> (\<forall>j<k. \<not> id_matches (es ! j) i)
      \<and> es' = es[k := apply_updates u (es ! k)]"
proof (induction es arbitrary: es')
  case Nil
  then show ?case by simp
next
  case (Cons e es)
  show ?case
  proof (cases "id_matches e i")
    case True
    then have "es' = (e # es)[0 := apply_updates u ((e # es) ! 0)]" using Cons.prems by simp
    then show ?thesis using True by (intro exI[of _ 0]) simp
  next
    case False
    then obtain es2 where es2: "update_first i u es = Some es2" and e': "es' = e # es2"
      using Cons.prems by auto
    from Cons.IH[OF es2] obtain k where k: "k < length es" "id_matches (es ! k) i"
      "\<forall>j<k. \<not> id_matches (es ! j) i" "es2 = es[k := apply_updates u (es ! k)]" by blast
    have "\<forall>j<Suc k. \<not> id_matches ((e # es) ! j) i"
    proof (intro allI impI)
      fix j assume "j < Suc k"
      then show "\<not> id_matches ((e # es) ! j) i" using False k(3) by (cases j) auto
    qed
    then show ?thesis using k e' by (intro exI[of _ "Suc k"]) simp
  qed
qed

lemma update_mail_cases:
  "update_mail i u w =
     (case inbox w of None \<Rightarrow> (Inr False, w)
      | Some d \<Rightarrow>
         if lockdir w
         then (Inl (Exn TimeoutError (''Failed to acquire lock for '' @ INBOX @ '' within 5.0s'')),
               w\<lparr>clock := clock w + 5, slept := slept w @ replicate 100 (1 / 20)\<rparr>)
         else (case update_first i u (emails d) of
                 None \<Rightarrow> (Inr False, w\<lparr>lock_acquisitions := Suc (lock_acquisitions w)\<rparr>)
               | Some es' \<Rightarrow> (Inr True, w\<lparr>lock_acquisitions := Suc (lock_acquisitions w),
                                  inbox := Some (d\<lparr>emails := es'\<rparr>)\<rparr>)))"
  by (simp add: update_mail_def acquire_lock_def release_lock_def split: option.splits)

text \<open>
  Claim C5. \<open>add_mail\<close> raises the validation error (\<open>ValueError\<close>) exactly when one of
  \<open>sender\<close>, \<open>subject\<close>, \<open>timestamp\<close>, \<open>body\<close> is absent from the record, and then nothing
  changes. Otherwise, the lock being free, it returns \<open>counter + 1\<close>, appends the record
  with that id, with every field the caller gave and the defaults \<open>category = ""\<close>,
  \<open>action_items = []\<close>, \<open>draftable = ""\<close> for the fields the caller left out, and sets the
  counter to the new id.
\<close>

theorem add_mail_validation:
  "((\<exists>msg. fst (add_mail mail_obj w) = Inl (Exn ValueError msg))
      \<longleftrightarrow> (\<exists>k\<in>set required_fields. map_of mail_obj k = None))
   \<and> ((\<exists>k\<in>set required_fields. map_of mail_obj k = None) \<longrightarrow> snd (add_mail mail_obj w) = w)
   \<and> ((\<forall>k\<in>set required_fields. map_of mail_obj k \<noteq> None) \<and> \<not> lockdir w \<longrightarrow>
        (let d = (case inbox w of None \<Rightarrow> \<lparr>counter = 0, emails = []\<rparr> | Some d \<Rightarrow> d);
             new_id = counter d + 1
         in fst (add_mail mail_obj w) = Inr new_id
            \<and> (\<exists>entry. inbox (snd (add_mail mail_obj w))
                          = Some (d\<lparr>emails := emails d @ [entry], counter := new_id\<rparr>)
                 \<and> map_of entry ''id'' = Some (PInt new_id)
                 \<and> (\<forall>k. k \<noteq> ''id'' \<longrightarrow> map_of entry k =
                       (case map_of mail_obj k of
                          Some v \<Rightarrow> Some v
                        | None \<Rightarrow> map_of [(''category'', PStr []), (''action_items'', PList []),
                                           (''draftable'', PStr [])] k)))))"
proof (intro conjI impI)
  show "(\<exists>msg. fst (add_mail mail_obj w) = Inl (Exn ValueError msg))
      \<longleftrightarrow> (\<exists>k\<in>set required_fields. map_of mail_obj k = None)"
  proof
    assume a: "\<exists>msg. fst (add_mail mail_obj w) = Inl (Exn ValueError msg)"
    show "\<exists>k\<in>set required_fields. map_of mail_obj k = None"
    proof (rule ccontr)
      assume "\<not> (\<exists>k\<in>set required_fields. map_of mail_obj k = None)"
      then have all: "\<forall>k\<in>set required_fields. map_of mail_obj k \<noteq> None" by simp
      show False
      proof (cases "lockdir w")
        case True
        then show ?thesis using add_mail_locked[OF all True] a by simp
      next
        case False
        then show ?thesis using add_mail_ok[OF all False] a by (simp add: Let_def)
      qed
    qed
  next
    assume "\<exists>k\<in>set required_fields. map_of mail_obj k = None"
    then show "\<exists>msg. fst (add_mail mail_obj w) = Inl (Exn ValueError msg)"
      using add_mail_missing[of mail_obj w] by force
  qed
next
  assume "\<exists>k\<in>set required_fields. map_of mail_obj k = None"
  then show "snd (add_mail mail_obj w) = w"
    using add_mail_missing[of mail_obj w] by force
next
  assume a: "(\<forall>k\<in>set required_fields. map_of mail_obj k \<noteq> None) \<and> \<not> lockdir w"
  then have all: "\<forall>k\<in>set required_fields. map_of mail_obj k \<noteq> None" and free: "\<not> lockdir w"
    by blast+
  show "(let d = (case inbox w of None \<Rightarrow> \<lparr>counter = 0, emails = []\<rparr> | Some d \<Rightarrow> d);
             new_id = counter d + 1
         in fst (add_mail mail_obj w) = Inr new_id
            \<and> (\<exists>entry. inbox (snd (add_mail mail_obj w))
                          = Some (d\<lparr>emails := emails d @ [entry], counter := new_id\<rparr>)
                 \<and> map_of entry ''id'' = Some (PInt new_id)
                 \<and> (\<forall>k. k \<noteq> ''id'' \<longrightarrow> map_of entry k =
                       (case map_of mail_obj k of
                          Some v \<Rightarrow> Some v
                        | None \<Rightarrow> map_of [(''category'', PStr []), (''action_items'', PList []),
                                           (''draftable'', PStr [])] k))))"
    unfolding Let_def add_mail_ok[OF all free]
    apply (intro conjI)
     apply simp
    apply (rule exI[of _ "new_entry mail_obj
             (counter (case inbox w of None \<Rightarrow> \<lparr>counter = 0, emails = []\<rparr> | Some d \<Rightarrow> d) + 1)"])
    apply (simp add: map_of_new_entry_id map_of_new_entry_other)
    done
qed

theorem add_mail_validation_witness:
  "(\<exists>k\<in>set required_fields. map_of [(''sender'', PStr ''a'')] k = None)
   \<and> snd (add_mail [(''sender'', PStr ''a'')] (fresh_world 0)) = fresh_world 0
   \<and> list_all (\<lambda>k. map_of sample_mail k \<noteq> None) required_fields \<and> \<not> lockdir (fresh_world 0)
   \<and> fst (add_mail sample_mail (fresh_world 0)) = Inr 1"
  using add_mail_validation[of "[(''sender'', PStr ''a'')]" "fresh_world 0"]
    add_mail_validation[of sample_mail "fresh_world 0"]
  by (simp add: required_fields_def sample_mail_def fresh_world_def)


lemma doc_ok_empty:
  "inbox w0 = None \<or> inbox w0 = Some \<lparr>counter = 0, emails = []\<rparr> \<Longrightarrow> doc_ok w0"
  by (auto simp: doc_ok_def contiguous_def)

lemma delete_mail_True:
  assumes "fst (delete_mail i w) = Inr True"
  shows "\<exists>d. inbox w = Some d \<and>
           inbox (snd (delete_mail i w)) =
             Some (d\<lparr>emails := renumber 1 (filter (\<lambda>e. \<not> id_matches e i) (emails d)),
                     counter := int (length (filter (\<lambda>e. \<not> id_matches e i) (emails d)))\<rparr>)"
  using assms by (auto simp: delete_mail_cases split: option.splits if_splits)

lemma add_mail_Inr:
  assumes "fst (add_mail m w) = Inr n"
  shows "\<exists>d'. inbox (snd (add_mail m w)) = Some d' \<and> counter d' = n \<and> emails d' \<noteq> []
            \<and> map_of (last (emails d')) ''id'' = Some (PInt n)"
proof (cases "\<forall>k\<in>set required_fields. map_of m k \<noteq> None")
  case False
  then have "\<exists>k\<in>set required_fields. map_of m k = None" by simp
  then show ?thesis using add_mail_missing[of m w] assms by force
next
  case True
  show ?thesis
  proof (cases "lockdir w")
    case True
    then show ?thesis using add_mail_locked[OF \<open>\<forall>k\<in>set required_fields. map_of m k \<noteq> None\<close> True] assms
      by simp
  next
    case False
    then show ?thesis using add_mail_ok[OF True False] assms
      by (auto simp: Let_def map_of_new_entry_id)
  qed
qed

text \<open>
  Claim C1. Starting from an empty mailbox (no file, or counter 0 and no records), after
  every prefix of every sequence of \<open>add_mail\<close> and \<open>delete_mail\<close> the ids are \<open>1..N\<close> and
  the counter is \<open>N\<close>. A \<open>delete_mail\<close> that returns true keeps the surviving records in
  their order, numbers them from 1 and sets the counter to their number; an \<open>add_mail\<close>
  that returns an id leaves the counter at that id, which is the id of the last record.
\<close>

theorem id_contiguity:
  "(inbox w0 = None \<or> inbox w0 = Some \<lparr>counter = 0, emails = []\<rparr> \<longrightarrow>
      (\<forall>n. doc_ok (run (take n ops) w0)))
   \<and> (fst (delete_mail i w) = Inr True \<longrightarrow>
        (\<exists>d d'. inbox w = Some d \<and> inbox (snd (delete_mail i w)) = Some d' \<and>
           (let surv = filter (\<lambda>e. \<not> id_matches e i) (emails d) in
              length (emails d') = length surv \<and> counter d' = int (length surv) \<and>
              map (\<lambda>e. map_of e ''id'') (emails d') = map (\<lambda>j. Some (PInt j)) [1..int (length surv)] \<and>
              (\<forall>j<length surv. \<forall>k. k \<noteq> ''id'' \<longrightarrow> map_of (emails d' ! j) k = map_of (surv ! j) k))))
   \<and> (fst (add_mail m w) = Inr n \<longrightarrow>
        (\<exists>d'. inbox (snd (add_mail m w)) = Some d' \<and> counter d' = n
            \<and> map_of (last (emails d')) ''id'' = Some (PInt n)))"
proof (intro conjI impI)
  assume "inbox w0 = None \<or> inbox w0 = Some \<lparr>counter = 0, emails = []\<rparr>"
  then have "doc_ok w0" by (rule doc_ok_empty)
  then show "\<forall>n. doc_ok (run (take n ops) w0)" by (simp add: doc_ok_run)
next
  assume "fst (delete_mail i w) = Inr True"
  then obtain d where d: "inbox w = Some d"
    "inbox (snd (delete_mail i w)) =
             Some (d\<lparr>emails := renumber 1 (filter (\<lambda>e. \<not> id_matches e i) (emails d)),
                     counter := int (length (filter (\<lambda>e. \<not> id_matches e i) (emails d)))\<rparr>)"
    using delete_mail_True by blast
  show "\<exists>d d'. inbox w = Some d \<and> inbox (snd (delete_mail i w)) = Some d' \<and>
           (let surv = filter (\<lambda>e. \<not> id_matches e i) (emails d) in
              length (emails d') = length surv \<and> counter d' = int (length surv) \<and>
              map (\<lambda>e. map_of e ''id'') (emails d') = map (\<lambda>j. Some (PInt j)) [1..int (length surv)] \<and>
              (\<forall>j<length surv. \<forall>k. k \<noteq> ''id'' \<longrightarrow> map_of (emails d' ! j) k = map_of (surv ! j) k))"
    apply (rule exI[of _ d])
    apply (rule exI[of _ "d\<lparr>emails := renumber 1 (filter (\<lambda>e. \<not> id_matches e i) (emails d)),
                     counter := int (length (filter (\<lambda>e. \<not> id_matches e i) (emails d)))\<rparr>"])
    using d ids_renumber[of 1 "filter (\<lambda>e. \<not> id_matches e i) (emails d)"]
    apply (simp add: Let_def length_renumber renumber_other)
    done
next
  assume "fst (add_mail m w) = Inr n"
  then show "\<exists>d'. inbox (snd (add_mail m w)) = Some d' \<and> counter d' = n
            \<and> map_of (last (emails d')) ''id'' = Some (PInt n)"
    using add_mail_Inr by blast
qed

theorem id_contiguity_witness:
  "inbox (fresh_world 0) = None
   \<and> doc_ok (run [Add sample_mail, Add sample_mail, Delete (PInt 1), Add sample_mail] (fresh_world 0))
   \<and> fst (delete_mail (PInt 2) (run [Add sample_mail, Add sample_mail, Add sample_mail] (fresh_world 0))) = Inr True
   \<and> map (\<lambda>e. map_of e ''id'')
        (emails (the (inbox (snd (delete_mail (PInt 2)
           (run [Add sample_mail, Add sample_mail, Add sample_mail] (fresh_world 0)))))))
       = [Some (PInt 1), Some (PInt 2)]
   \<and> fst (add_mail sample_mail (run [Add sample_mail, Add sample_mail, Add sample_mail] (fresh_world 0))) = Inr 4"
proof -
  let ?ops = "[Add sample_mail, Add sample_mail, Delete (PInt 1), Add sample_mail]"
  let ?w = "run [Add sample_mail, Add sample_mail, Add sample_mail] (fresh_world 0)"
  note t = id_contiguity[of "fresh_world 0" ?ops "PInt 2" ?w sample_mail 4]
  have e: "inbox (fresh_world 0) = None" by (simp add: fresh_world_def)
  with t have "\<forall>n. doc_ok (run (take n ?ops) (fresh_world 0))" by blast
  then have "doc_ok (run (take 4 ?ops) (fresh_world 0))" by blast
  then have r: "doc_ok (run ?ops (fresh_world 0))" by simp
  have w: "?w = \<lparr>inbox = Some \<lparr>counter = 3, emails = [new_entry sample_mail 1, new_entry sample_mail 2,
                 new_entry sample_mail 3]\<rparr>,
            lockdir = False, lock_acquisitions = 3, clock = 0, slept = [],
            gateway_calls = 0, last_llm_call = 0, quota_backoff_until = 0, last_error = None,
            error_signal = None\<rparr>"
    by (simp add: run_def fresh_world_def sample_mail_def add_mail_def
      required_fields_def acquire_lock_def release_lock_def Let_def)
  have ids: "\<not> id_matches (new_entry sample_mail 1) (PInt 2)" "id_matches (new_entry sample_mail 2) (PInt 2)"
    "\<not> id_matches (new_entry sample_mail 3) (PInt 2)"
    by (simp_all add: id_matches_def get_or_def map_of_new_entry_id)
  have d: "fst (delete_mail (PInt 2) ?w) = Inr True"
    unfolding w by (simp add: delete_mail_cases ids)
  have d2: "map (\<lambda>e. map_of e ''id'') (emails (the (inbox (snd (delete_mail (PInt 2) ?w)))))
       = [Some (PInt 1), Some (PInt 2)]"
    unfolding w by (simp add: delete_mail_cases ids update_conv')
  have a: "fst (add_mail sample_mail ?w) = Inr 4"
    unfolding w by (simp add: sample_mail_def add_mail_def
      required_fields_def acquire_lock_def release_lock_def Let_def)
  show ?thesis using e r d d2 a by blast
qed

text \<open>
  Claim C8. \<open>update_mail\<close> returns false, without raising, when the file is missing or no
  record matches the id. Otherwise it changes the first matching record only: its \<open>id\<close> stays
  whatever \<open>updates\<close> says, every other key of \<open>updates\<close> gets its new value, every other
  field stays; the other records and the counter are as before. These three cases are those
  of a free lock. No id makes \<open>update_mail\<close> raise: whatever the id and the updates, the one
  exception that leaves it is the \<open>TimeoutError\<close> of a lock that is held, and then the
  mailbox is as before.
\<close>

theorem update_mail_frame:
  "(inbox w = None \<longrightarrow> update_mail mail_id updates w = (Inr False, w))
   \<and> (\<forall>d. inbox w = Some d \<and> \<not> lockdir w \<and> (\<forall>e\<in>set (emails d). \<not> id_matches e mail_id) \<longrightarrow>
          fst (update_mail mail_id updates w) = Inr False
          \<and> inbox (snd (update_mail mail_id updates w)) = Some d)
   \<and> (\<forall>d. inbox w = Some d \<and> \<not> lockdir w \<and> (\<exists>e\<in>set (emails d). id_matches e mail_id) \<longrightarrow>
          (\<exists>i<length (emails d).
              id_matches (emails d ! i) mail_id
            \<and> (\<forall>j<i. \<not> id_matches (emails d ! j) mail_id)
            \<and> fst (update_mail mail_id updates w) = Inr True
            \<and> inbox (snd (update_mail mail_id updates w))
                = Some (d\<lparr>emails := (emails d)[i := apply_updates updates (emails d ! i)]\<rparr>)
            \<and> (\<forall>k. map_of (apply_updates updates (emails d ! i)) k =
                  (if k = ''id'' then map_of (emails d ! i) k
                   else case map_of (rev updates) k of
                          Some v \<Rightarrow> Some v
                        | None \<Rightarrow> map_of (emails d ! i) k))))
   \<and> (\<forall>e. fst (update_mail mail_id updates w) = Inl e \<longrightarrow>
          lockdir w \<and> inbox w \<noteq> None \<and> exn_kind_of e = TimeoutError
          \<and> inbox (snd (update_mail mail_id updates w)) = inbox w)"
proof (intro conjI allI impI)
  assume "inbox w = None"
  then show "update_mail mail_id updates w = (Inr False, w)" by (simp add: update_mail_def)
next
  fix e
  assume "fst (update_mail mail_id updates w) = Inl e"
  then show "lockdir w" by (auto simp: update_mail_cases split: option.splits if_splits)
next
  fix e
  assume "fst (update_mail mail_id updates w) = Inl e"
  then show "inbox w \<noteq> None" by (auto simp: update_mail_cases split: option.splits if_splits)
next
  fix e
  assume "fst (update_mail mail_id updates w) = Inl e"
  then show "exn_kind_of e = TimeoutError"
    by (auto simp: update_mail_cases split: option.splits if_splits)
next
  fix e
  assume "fst (update_mail mail_id updates w) = Inl e"
  then show "inbox (snd (update_mail mail_id updates w)) = inbox w"
    by (auto simp: update_mail_cases split: option.splits if_splits)
next
  fix d
  assume a: "inbox w = Some d \<and> \<not> lockdir w \<and> (\<forall>e\<in>set (emails d). \<not> id_matches e mail_id)"
  then have "update_first mail_id updates (emails d) = None" by (simp add: update_first_None)
  then show "fst (update_mail mail_id updates w) = Inr False" using a by (simp add: update_mail_cases)
next
  fix d
  assume a: "inbox w = Some d \<and> \<not> lockdir w \<and> (\<forall>e\<in>set (emails d). \<not> id_matches e mail_id)"
  then have "update_first mail_id updates (emails d) = None" by (simp add: update_first_None)
  then show "inbox (snd (update_mail mail_id updates w)) = Some d" using a by (simp add: update_mail_cases)
next
  fix d
  assume a: "inbox w = Some d \<and> \<not> lockdir w \<and> (\<exists>e\<in>set (emails d). id_matches e mail_id)"
  then have "update_first mail_id updates (emails d) \<noteq> None" using update_first_None by blast
  then obtain es' where es': "update_first mail_id updates (emails d) = Some es'" by blast
  from update_first_Some[OF es'] obtain i where i: "i < length (emails d)"
    "id_matches (emails d ! i) mail_id" "\<forall>j<i. \<not> id_matches (emails d ! j) mail_id"
    "es' = (emails d)[i := apply_updates updates (emails d ! i)]" by blast
  have r: "update_mail mail_id updates w =
     (Inr True, w\<lparr>lock_acquisitions := Suc (lock_acquisitions w), inbox := Some (d\<lparr>emails := es'\<rparr>)\<rparr>)"
    using a es' by (simp add: update_mail_cases)
  show "\<exists>i<length (emails d).
              id_matches (emails d ! i) mail_id
            \<and> (\<forall>j<i. \<not> id_matches (emails d ! j) mail_id)
            \<and> fst (update_mail mail_id updates w) = Inr True
            \<and> inbox (snd (update_mail mail_id updates w))
                = Some (d\<lparr>emails := (emails d)[i := apply_updates updates (emails d ! i)]\<rparr>)
            \<and> (\<forall>k. map_of (apply_updates updates (emails d ! i)) k =
                  (if k = ''id'' then map_of (emails d ! i) k
                   else case map_of (rev updates) k of
                          Some v \<Rightarrow> Some v
                        | None \<Rightarrow> map_of (emails d ! i) k))"
    apply (rule exI[of _ i])
    using i r map_of_apply_updates[of updates "emails d ! i"] apply simp
    done
qed

theorem update_mail_frame_witness:
  "fst (update_mail (PInt 3) [(''subject'', PStr ''x''), (''id'', PInt 99)]
          ((fresh_world 0)\<lparr>inbox := Some triage_box\<rparr>)) = Inr True
   \<and> inbox (snd (update_mail (PInt 3) [(''subject'', PStr ''x''), (''id'', PInt 99)]
          ((fresh_world 0)\<lparr>inbox := Some triage_box\<rparr>)))
      = Some \<lparr>counter = 3, emails =
         [[(''id'', PInt 1), (''subject'', PStr ''Plan''), (''category'', PStr ''work'')],
          [(''id'', PInt 2), (''subject'', PStr ''Draft reply: Plan''), (''category'', PStr ''draft'')],
          [(''id'', PInt 3), (''subject'', PStr ''x''), (''category'', PStr [])]]\<rparr>
   \<and> fst (update_mail (PInt 7) [(''subject'', PStr ''x'')]
          ((fresh_world 0)\<lparr>inbox := Some triage_box\<rparr>)) = Inr False
   \<and> fst (update_mail (PStr [CHR 0x1F, CHR ''3'']) [(''subject'', PStr ''x'')]
          ((fresh_world 0)\<lparr>inbox := Some triage_box\<rparr>)) = Inr False
   \<and> inbox (snd (update_mail (PStr [CHR 0x1F, CHR ''3'']) [(''subject'', PStr ''x'')]
          ((fresh_world 0)\<lparr>inbox := Some triage_box\<rparr>))) = Some triage_box
   \<and> fst (update_mail (PStr '' 3 '') [(''subject'', PStr ''x'')]
          ((fresh_world 0)\<lparr>inbox := Some triage_box\<rparr>)) = Inr True
   \<and> exn_kind_of (projl (fst (update_mail (PInt 7) [(''subject'', PStr ''x'')]
          ((fresh_world 0)\<lparr>inbox := Some triage_box, lockdir := True\<rparr>)))) = TimeoutError"
proof -
  let ?w = "(fresh_world 0)\<lparr>inbox := Some triage_box\<rparr>"
  let ?l = "(fresh_world 0)\<lparr>inbox := Some triage_box, lockdir := True\<rparr>"
  let ?u = "[(''subject'', PStr ''x''), (''id'', PInt 99)]"
  let ?v = "[(''subject'', PStr ''x'')]"
  let ?s = "PStr [CHR 0x1F, CHR ''3'']"
  have m: "\<not> id_matches (emails triage_box ! 0) (PInt 3)" "\<not> id_matches (emails triage_box ! 1) (PInt 3)"
     "id_matches (emails triage_box ! 2) (PInt 3)"
    "\<forall>e\<in>set (emails triage_box). \<not> id_matches e (PInt 7)"
    by (simp_all add: triage_box_def id_matches_def get_or_def)
  have s: "\<forall>e\<in>set (emails triage_box). \<not> id_matches e ?s"
    by (simp add: triage_box_def id_matches_def get_or_def int_literal_def int_strip_def
        is_int_space_def is_digit_def)
  have t: "\<exists>e\<in>set (emails triage_box). id_matches e (PStr '' 3 '')"
    by (simp add: triage_box_def id_matches_def get_or_def int_literal_def int_strip_def
        is_int_space_def is_digit_def digits_val_def int_max_str_digits_def)
  have w: "inbox ?w = Some triage_box \<and> \<not> lockdir ?w" by (simp add: fresh_world_def)
  have ex: "\<exists>e\<in>set (emails triage_box). id_matches e (PInt 3)"
    by (simp add: triage_box_def id_matches_def get_or_def)
  from update_mail_frame[of ?w "PInt 3" ?u] w ex
  obtain i where i: "i < length (emails triage_box)" "id_matches (emails triage_box ! i) (PInt 3)"
    "fst (update_mail (PInt 3) ?u ?w) = Inr True"
    "inbox (snd (update_mail (PInt 3) ?u ?w))
       = Some (triage_box\<lparr>emails := (emails triage_box)[i := apply_updates ?u (emails triage_box ! i)]\<rparr>)"
    by blast
  have "i = 2"
  proof -
    have "i < 3" using i(1) by (simp add: triage_box_def)
    then have "i = 0 \<or> i = 1 \<or> i = 2" by arith
    then show ?thesis using i(2) m by auto
  qed
  then have a: "inbox (snd (update_mail (PInt 3) ?u ?w))
      = Some \<lparr>counter = 3, emails =
         [[(''id'', PInt 1), (''subject'', PStr ''Plan''), (''category'', PStr ''work'')],
          [(''id'', PInt 2), (''subject'', PStr ''Draft reply: Plan''), (''category'', PStr ''draft'')],
          [(''id'', PInt 3), (''subject'', PStr ''x''), (''category'', PStr [])]]\<rparr>"
    using i(4) by (simp add: triage_box_def)
  have b: "fst (update_mail (PInt 7) ?v ?w) = Inr False"
    using update_mail_frame[of ?w "PInt 7" ?v] w m(4) by blast
  have c: "fst (update_mail ?s ?v ?w) = Inr False \<and> inbox (snd (update_mail ?s ?v ?w)) = Some triage_box"
    using update_mail_frame[of ?w ?s ?v] w s by blast
  have d: "fst (update_mail (PStr '' 3 '') ?v ?w) = Inr True"
    using update_mail_frame[of ?w "PStr '' 3 ''" ?v] w t by blast
  have l: "fst (update_mail (PInt 7) ?v ?l)
            = Inl (Exn TimeoutError (''Failed to acquire lock for '' @ INBOX @ '' within 5.0s''))"
    by (simp add: update_mail_cases fresh_world_def)
  have e: "exn_kind_of (projl (fst (update_mail (PInt 7) ?v ?l))) = TimeoutError"
    using update_mail_frame[of ?l "PInt 7" ?v] l by simp
  show ?thesis using i(3) a b c d e by blast
qed

text \<open>
  Claim C10. With no mailbox file, \<open>update_mail\<close> and \<open>delete_mail\<close> return false for every
  id and leave the world as it is: no file, no lock taken. \<open>add_mail\<close> of a complete record,
  the lock being free, starts from the document with counter 0 and stores the record with
  id 1.
\<close>

theorem missing_file:
  "(inbox w = None \<longrightarrow>
       update_mail mail_id updates w = (Inr False, w) \<and> delete_mail mail_id w = (Inr False, w)
     \<and> inbox (snd (update_mail mail_id updates w)) = None
     \<and> inbox (snd (delete_mail mail_id w)) = None
     \<and> lock_acquisitions (snd (update_mail mail_id updates w)) = lock_acquisitions w
     \<and> lock_acquisitions (snd (delete_mail mail_id w)) = lock_acquisitions w)
   \<and> (inbox w = None \<and> \<not> lockdir w \<and> (\<forall>k\<in>set required_fields. map_of mail_obj k \<noteq> None) \<longrightarrow>
        fst (add_mail mail_obj w) = Inr 1
      \<and> inbox (snd (add_mail mail_obj w)) = Some \<lparr>counter = 1, emails = [new_entry mail_obj 1]\<rparr>
      \<and> map_of (new_entry mail_obj 1) ''id'' = Some (PInt 1))"
proof (intro conjI impI)
  assume a: "inbox w = None \<and> \<not> lockdir w \<and> (\<forall>k\<in>set required_fields. map_of mail_obj k \<noteq> None)"
  then have r: "add_mail mail_obj w =
     (Inr 1, w\<lparr>lock_acquisitions := Suc (lock_acquisitions w),
               inbox := Some \<lparr>counter = 1, emails = [new_entry mail_obj 1]\<rparr>\<rparr>)"
    using add_mail_ok[of mail_obj w] by (simp add: Let_def)
  show "fst (add_mail mail_obj w) = Inr 1" using r by simp
  show "inbox (snd (add_mail mail_obj w)) = Some \<lparr>counter = 1, emails = [new_entry mail_obj 1]\<rparr>"
    using r by simp
  show "map_of (new_entry mail_obj 1) ''id'' = Some (PInt 1)" by (rule map_of_new_entry_id)
qed (simp_all add: update_mail_def delete_mail_def)

theorem missing_file_witness:
  "inbox (fresh_world 0) = None \<and> \<not> lockdir (fresh_world 0)
   \<and> list_all (\<lambda>k. map_of sample_mail k \<noteq> None) required_fields
   \<and> update_mail (PInt 1) [(''subject'', PStr ''x'')] (fresh_world 0) = (Inr False, fresh_world 0)
   \<and> delete_mail (PInt 1) (fresh_world 0) = (Inr False, fresh_world 0)
   \<and> fst (add_mail sample_mail (fresh_world 0)) = Inr 1
   \<and> inbox (snd (add_mail sample_mail (fresh_world 0)))
        = Some \<lparr>counter = 1, emails = [sample_mail @ [(''id'', PInt 1), (''category'', PStr []),
             (''action_items'', PList []), (''draftable'', PStr [])]]\<rparr>"
  using missing_file[of "fresh_world 0" "PInt 1" "[(''subject'', PStr ''x'')]" sample_mail]
  by (simp add: fresh_world_def sample_mail_def required_fields_def new_entry_def setdefault_def)

section \<open>Properties of the reset rules\<close>

lemma map_of_drop_category:
  "map_of (drop_category m) k =
     (if k = ''category'' \<and> category_droppable m then Some (PStr []) else map_of m k)"
  by (simp add: drop_category_def update_conv')

lemma drop_category_draft: "map_of m ''category'' = Some (PStr ''draft'') \<Longrightarrow> drop_category m = m"
  by (simp add: drop_category_def category_droppable_def get_or_def)

lemma droppable_iff:
  "category_droppable m =
     (\<exists>c. map_of m ''category'' = Some c \<and> c \<noteq> PStr ''draft'' \<and> c \<noteq> PNone \<and> c \<noteq> PStr [])"
proof (cases "map_of m ''category''")
  case None
  then show ?thesis by (simp add: category_droppable_def get_or_def)
next
  case (Some c)
  then show ?thesis by (cases c) (auto simp: category_droppable_def get_or_def)
qed

lemma drop_categories_inbox:
  "inbox w = Some d \<Longrightarrow>
   drop_categories_on_categorizer_prompt_change w = w\<lparr>inbox := Some (d\<lparr>emails := map drop_category (emails d)\<rparr>)\<rparr>"
proof (cases "list_ex category_droppable (emails d)")
  case True
  assume "inbox w = Some d"
  then show ?thesis using True by (simp add: drop_categories_on_categorizer_prompt_change_def)
next
  case False
  assume i: "inbox w = Some d"
  from False have "\<forall>m\<in>set (emails d). drop_category m = m"
    by (simp add: list_ex_iff drop_category_def)
  then have "map drop_category (emails d) = emails d" by (simp add: map_idI)
  then show ?thesis using i False by (simp add: drop_categories_on_categorizer_prompt_change_def)
qed

text \<open>
  Claim C9. After \<open>drop_categories_on_categorizer_prompt_change\<close>, a mail whose category
  was a non-empty string other than \<open>"draft"\<close> has category \<open>""\<close>; a mail whose category
  was \<open>"draft"\<close> is the record it was; no other field of any mail, no other mail count or
  order, and nothing else of the world changes.
\<close>

theorem categorization_reset:
  "(inbox w = None \<longrightarrow> drop_categories_on_categorizer_prompt_change w = w)
   \<and> (\<forall>d. inbox w = Some d \<longrightarrow>
        (\<exists>es'. drop_categories_on_categorizer_prompt_change w = w\<lparr>inbox := Some (d\<lparr>emails := es'\<rparr>)\<rparr>
           \<and> length es' = length (emails d)
           \<and> (\<forall>i<length (emails d).
                 (\<forall>c. map_of (emails d ! i) ''category'' = Some (PStr c) \<and> c \<noteq> [] \<and> c \<noteq> ''draft''
                        \<longrightarrow> map_of (es' ! i) ''category'' = Some (PStr []))
               \<and> (map_of (emails d ! i) ''category'' = Some (PStr ''draft'') \<longrightarrow> es' ! i = emails d ! i)
               \<and> (\<forall>k. k \<noteq> ''category'' \<longrightarrow> map_of (es' ! i) k = map_of (emails d ! i) k))))"
proof (intro conjI allI impI)
  assume "inbox w = None"
  then show "drop_categories_on_categorizer_prompt_change w = w"
    by (simp add: drop_categories_on_categorizer_prompt_change_def)
next
  fix d assume d: "inbox w = Some d"
  show "\<exists>es'. drop_categories_on_categorizer_prompt_change w = w\<lparr>inbox := Some (d\<lparr>emails := es'\<rparr>)\<rparr>
           \<and> length es' = length (emails d)
           \<and> (\<forall>i<length (emails d).
                 (\<forall>c. map_of (emails d ! i) ''category'' = Some (PStr c) \<and> c \<noteq> [] \<and> c \<noteq> ''draft''
                        \<longrightarrow> map_of (es' ! i) ''category'' = Some (PStr []))
               \<and> (map_of (emails d ! i) ''category'' = Some (PStr ''draft'') \<longrightarrow> es' ! i = emails d ! i)
               \<and> (\<forall>k. k \<noteq> ''category'' \<longrightarrow> map_of (es' ! i) k = map_of (emails d ! i) k))"
    apply (rule exI[of _ "map drop_category (emails d)"])
    apply (simp add: drop_categories_inbox[OF d] map_of_drop_category drop_category_draft droppable_iff)
    done
qed

theorem categorization_reset_witness:
  "inbox (drop_categories_on_categorizer_prompt_change ((fresh_world 0)\<lparr>inbox := Some triage_box\<rparr>))
     = Some \<lparr>counter = 3, emails =
     [[(''id'', PInt 1), (''subject'', PStr ''Plan''), (''category'', PStr [])],
      [(''id'', PInt 2), (''subject'', PStr ''Draft reply: Plan''), (''category'', PStr ''draft'')],
      [(''id'', PInt 3), (''subject'', PStr ''Hi''), (''category'', PStr [])]]\<rparr>"
proof -
  let ?w = "(fresh_world 0)\<lparr>inbox := Some triage_box\<rparr>"
  have w: "inbox ?w = Some triage_box" by (simp add: fresh_world_def)
  from categorization_reset[of ?w] w obtain es' where
    e: "drop_categories_on_categorizer_prompt_change ?w = ?w\<lparr>inbox := Some (triage_box\<lparr>emails := es'\<rparr>)\<rparr>"
    by blast
  have "drop_categories_on_categorizer_prompt_change ?w
      = ?w\<lparr>inbox := Some (triage_box\<lparr>emails := map drop_category (emails triage_box)\<rparr>)\<rparr>"
    using w by (rule drop_categories_inbox)
  then show ?thesis using e
    by (simp add: triage_box_def drop_category_def category_droppable_def get_or_def fresh_world_def)
qed

section \<open>Properties of the option selection\<close>


lemma first_long_part_Some:
  "first_long_part ps = Some p \<Longrightarrow>
   \<exists>i<length ps. p = strip (ps ! i) \<and> 30 \<le> length (strip (ps ! i))
      \<and> (\<forall>j<i. length (strip (ps ! j)) < 30)"
proof (induction ps)
  case Nil
  then show ?case by simp
next
  case (Cons q ps)
  show ?case
  proof (cases "30 \<le> length (strip q)")
    case True
    then have "p = strip q" using Cons.prems by simp
    then show ?thesis using True by (intro exI[of _ 0]) simp
  next
    case False
    then have "first_long_part ps = Some p" using Cons.prems by simp
    from Cons.IH[OF this] obtain i where i: "i < length ps" "p = strip (ps ! i)"
      "30 \<le> length (strip (ps ! i))" "\<forall>j<i. length (strip (ps ! j)) < 30" by blast
    have "\<forall>j<Suc i. length (strip ((q # ps) ! j)) < 30"
    proof (intro allI impI)
      fix j assume "j < Suc i"
      then show "length (strip ((q # ps) ! j)) < 30" using False i(4) by (cases j) auto
    qed
    then show ?thesis using i by (intro exI[of _ "Suc i"]) simp
  qed
qed

lemma first_long_part_None:
  "first_long_part ps = None \<Longrightarrow> \<forall>j<length ps. length (strip (ps ! j)) < 30"
proof (induction ps)
  case Nil
  then show ?case by simp
next
  case (Cons q ps)
  then have q: "length (strip q) < 30" and r: "first_long_part ps = None"
    by (auto split: if_splits)
  show ?case
  proof (intro allI impI)
    fix j assume "j < length (q # ps)"
    then show "length (strip ((q # ps) ! j)) < 30" using q Cons.IH[OF r] by (cases j) auto
  qed
qed

lemma select_options:
  "raw \<noteq> [] \<Longrightarrow> option_starts 0 0 None (replace_crlf raw) \<noteq> [] \<Longrightarrow>
   select_best_option raw =
     strip (strip_option_label (strip (slice (replace_crlf raw)
        (hd (option_starts 0 0 None (replace_crlf raw)))
        (if 1 < length (option_starts 0 0 None (replace_crlf raw))
         then option_starts 0 0 None (replace_crlf raw) ! 1 else length (replace_crlf raw)))))"
  by (simp add: select_best_option_def Let_def)

lemma select_separators:
  assumes "raw \<noteq> []" "option_starts 0 0 None (replace_crlf raw) = []"
    "1 < length (split_separators 0 [] (replace_crlf raw))"
  shows "(\<exists>i<length (split_separators 0 [] (replace_crlf raw)).
            select_best_option raw = strip (split_separators 0 [] (replace_crlf raw) ! i)
          \<and> 30 \<le> length (strip (split_separators 0 [] (replace_crlf raw) ! i))
          \<and> (\<forall>j<i. length (strip (split_separators 0 [] (replace_crlf raw) ! j)) < 30))
       \<or> (select_best_option raw = strip (split_separators 0 [] (replace_crlf raw) ! 0)
          \<and> (\<forall>j<length (split_separators 0 [] (replace_crlf raw)).
                 length (strip (split_separators 0 [] (replace_crlf raw) ! j)) < 30))"
proof (cases "first_long_part (split_separators 0 [] (replace_crlf raw))")
  case None
  have "split_separators 0 [] (replace_crlf raw) \<noteq> []" using assms(3) by auto
  then have "hd (split_separators 0 [] (replace_crlf raw)) = split_separators 0 [] (replace_crlf raw) ! 0"
    by (simp add: hd_conv_nth)
  then have "select_best_option raw = strip (split_separators 0 [] (replace_crlf raw) ! 0)"
    using assms None by (simp add: select_best_option_def Let_def)
  then show ?thesis using first_long_part_None[OF None] by blast
next
  case (Some p)
  then have "select_best_option raw = p"
    using assms by (simp add: select_best_option_def Let_def)
  then show ?thesis using first_long_part_Some[OF Some] by blast
qed

lemma select_numbered:
  "raw \<noteq> [] \<Longrightarrow> option_starts 0 0 None (replace_crlf raw) = [] \<Longrightarrow>
   length (split_separators 0 [] (replace_crlf raw)) \<le> 1 \<Longrightarrow>
   select_best_option raw =
     (case number_start (CHR ''1'') 0 True (replace_crlf raw) of
        Some start \<Rightarrow>
          strip (strip_number (strip (slice (replace_crlf raw) start
            (case number_start (CHR ''2'') 0 True (replace_crlf raw) of
               Some m2 \<Rightarrow> m2 | None \<Rightarrow> length (replace_crlf raw)))))
      | None \<Rightarrow> strip (replace_crlf raw))"
  by (simp add: select_best_option_def Let_def split: option.splits)

lemma fixture_values:
  "select_best_option fixture_options = ''Hello''"
  "select_best_option fixture_rules = ''Foo''"
  "select_best_option fixture_numbered = ''Do the thing''"
  "select_best_option fixture_plain = ''Just a plain reply.''"
  by code_simp+

text \<open>
  The middle block of the second fixture has 29 characters, one short of the 30 the loop
  asks for, so it is not the block selected.
\<close>

theorem fixture_rules_counterexample:
  "select_best_option ''Foo\<newline>---\<newline>Bar baz long enough text here\<newline>---\<newline>Qux''
     \<noteq> ''Bar baz long enough text here''"
  by code_simp

text \<open>
  Claim C3, amended. On a non-empty answer, after \<open>\r\n\<close> is read as \<open>\n\<close>: (a) when there
  are \<open>Option N\<close> markers, the text from the first to just before the second (or the end),
  trimmed, without its label; (b) else, when the rules \<open>---\<close>, \<open>***\<close>, \<open>___\<close> split the text
  in several blocks, the first block of 30 characters or more once trimmed, or the first
  block when there is none; (c) else, when a line starts with \<open>1.\<close> or \<open>1)\<close>, the text from
  there to just before the line of \<open>2.\<close>, without its number; (d) else the whole text,
  trimmed. The first fixture yields \<open>Hello\<close>; the second yields \<open>Foo\<close>, its middle block
  having 29 characters.
\<close>

theorem option_selection:
  "(raw \<noteq> [] \<longrightarrow>
     (let t = replace_crlf raw;
          opts = option_starts 0 0 None t;
          parts = split_separators 0 [] t
      in (opts \<noteq> [] \<longrightarrow>
            select_best_option raw =
              strip (strip_option_label (strip (slice t (hd opts)
                 (if 1 < length opts then opts ! 1 else length t)))))
       \<and> (opts = [] \<and> 1 < length parts \<longrightarrow>
            (\<exists>i<length parts. select_best_option raw = strip (parts ! i)
                \<and> 30 \<le> length (strip (parts ! i))
                \<and> (\<forall>j<i. length (strip (parts ! j)) < 30))
          \<or> (select_best_option raw = strip (parts ! 0)
                \<and> (\<forall>j<length parts. length (strip (parts ! j)) < 30)))
       \<and> (opts = [] \<and> length parts \<le> 1 \<longrightarrow>
            select_best_option raw =
              (case number_start (CHR ''1'') 0 True t of
                 Some start \<Rightarrow>
                   strip (strip_number (strip (slice t start
                     (case number_start (CHR ''2'') 0 True t of
                        Some m2 \<Rightarrow> m2 | None \<Rightarrow> length t))))
               | None \<Rightarrow> strip t))))
   \<and> select_best_option [] = []
   \<and> select_best_option ''Option 1: Hello\<newline>Option 2: Goodbye'' = ''Hello''
   \<and> select_best_option ''Foo\<newline>---\<newline>Bar baz long enough text here\<newline>---\<newline>Qux'' = ''Foo''
   \<and> length ''Bar baz long enough text here'' = 29"
proof (intro conjI)
  show "raw \<noteq> [] \<longrightarrow>
     (let t = replace_crlf raw;
          opts = option_starts 0 0 None t;
          parts = split_separators 0 [] t
      in (opts \<noteq> [] \<longrightarrow>
            select_best_option raw =
              strip (strip_option_label (strip (slice t (hd opts)
                 (if 1 < length opts then opts ! 1 else length t)))))
       \<and> (opts = [] \<and> 1 < length parts \<longrightarrow>
            (\<exists>i<length parts. select_best_option raw = strip (parts ! i)
                \<and> 30 \<le> length (strip (parts ! i))
                \<and> (\<forall>j<i. length (strip (parts ! j)) < 30))
          \<or> (select_best_option raw = strip (parts ! 0)
                \<and> (\<forall>j<length parts. length (strip (parts ! j)) < 30)))
       \<and> (opts = [] \<and> length parts \<le> 1 \<longrightarrow>
            select_best_option raw =
              (case number_start (CHR ''1'') 0 True t of
                 Some start \<Rightarrow>
                   strip (strip_number (strip (slice t start
                     (case number_start (CHR ''2'') 0 True t of
                        Some m2 \<Rightarrow> m2 | None \<Rightarrow> length t))))
               | None \<Rightarrow> strip t)))"
    unfolding Let_def
    using select_options[of raw] select_separators[of raw] select_numbered[of raw]
    by blast
  show "select_best_option [] = []" by (simp add: select_best_option_def)
  show "select_best_option ''Option 1: Hello\<newline>Option 2: Goodbye'' = ''Hello''"
    using fixture_values(1) by (simp add: fixture_options_def)
  show "select_best_option ''Foo\<newline>---\<newline>Bar baz long enough text here\<newline>---\<newline>Qux'' = ''Foo''"
    using fixture_values(2) by (simp add: fixture_rules_def)
  show "length ''Bar baz long enough text here'' = 29" by simp
qed

theorem option_selection_witness:
  "fixture_options \<noteq> []
   \<and> option_starts 0 0 None (replace_crlf fixture_options) = [0, 16]
   \<and> select_best_option fixture_options
       = strip (strip_option_label (strip (slice (replace_crlf fixture_options) 0 16)))
   \<and> option_starts 0 0 None (replace_crlf fixture_rules) = []
   \<and> split_separators 0 [] (replace_crlf fixture_rules) = [''Foo'', ''Bar baz long enough text here'', ''Qux'']
   \<and> select_best_option fixture_rules = strip (split_separators 0 [] (replace_crlf fixture_rules) ! 0)"
proof -
  have a: "fixture_options \<noteq> []" by (simp add: fixture_options_def)
  have b: "option_starts 0 0 None (replace_crlf fixture_options) = [0, 16]" by code_simp
  have c: "select_best_option fixture_options
       = strip (strip_option_label (strip (slice (replace_crlf fixture_options) 0 16)))"
    using option_selection[of fixture_options] a b by (simp add: Let_def)
  have d: "option_starts 0 0 None (replace_crlf fixture_rules) = []" by code_simp
  have e: "split_separators 0 [] (replace_crlf fixture_rules) = [''Foo'', ''Bar baz long enough text here'', ''Qux'']"
    by code_simp
  have f: "select_best_option fixture_rules = strip (split_separators 0 [] (replace_crlf fixture_rules) ! 0)"
    by code_simp
  show ?thesis using a b c d e f by blast
qed

section \<open>Properties of the stage processors\<close>


lemma after_failures_fields:
  "gateway_calls (after_failures k a w) = gateway_calls w + k"
  "inbox (after_failures k a w) = inbox w"
  "lockdir (after_failures k a w) = lockdir w"
  "lock_acquisitions (after_failures k a w) = lock_acquisitions w"
  "quota_backoff_until (after_failures k a w) = quota_backoff_until w"
  "last_error (after_failures k a w) = last_error w"
  "error_signal (after_failures k a w) = error_signal w"
  "last_llm_call (after_failures k a w) = last_llm_call w"
  by (induction k arbitrary: a w; simp add: sleep_def)+

lemma after_failures_slept:
  "slept (after_failures k a w) = slept w @ map of_nat [Suc a..<Suc a + k]"
proof (induction k arbitrary: a w)
  case 0
  then show ?case by simp
next
  case (Suc k)
  have "[Suc a..<Suc a + Suc k] = Suc a # [Suc (Suc a)..<Suc (Suc a) + k]"
    by (simp add: upt_rec)
  then show ?case by (simp add: Suc.IH sleep_def)
qed

lemma after_failures_clock:
  "clock (after_failures k a w) = clock w + sum_list (map of_nat [Suc a..<Suc a + k])"
proof (induction k arbitrary: a w)
  case 0
  then show ?case by simp
next
  case (Suc k)
  have "[Suc a..<Suc a + Suc k] = Suc a # [Suc (Suc a)..<Suc (Suc a) + k]"
    by (simp add: upt_rec)
  then show ?case by (simp add: Suc.IH sleep_def)
qed

lemma gateway_down_Suc:
  "gateway_down en p c (Suc k) = (isl (gateway en c p) \<and> gateway_down en p (Suc c) k)"
proof -
  have h: "[0..<Suc k] = 0 # map Suc [0..<k]" by (simp add: upt_conv_Cons map_Suc_upt del: upt_Suc)
  have "list_all (\<lambda>i. isl (gateway en (c + i) p)) (0 # map Suc [0..<k])
        = (isl (gateway en c p) \<and> list_all (\<lambda>i. isl (gateway en (Suc c + i) p)) [0..<k])"
    by (simp add: list.pred_map comp_def)
  then show ?thesis unfolding gateway_down_def h .
qed

lemma gateway_call_Inl:
  "isl (gateway en (gateway_calls w) p) \<Longrightarrow>
   gateway_call en p w = (Inl (Exn ConnectionError (projl (gateway en (gateway_calls w) p))),
                          w\<lparr>gateway_calls := Suc (gateway_calls w)\<rparr>)"
  by (cases "gateway en (gateway_calls w) p") (simp_all add: gateway_call_def)

lemma gateway_call_Inr:
  "gateway en (gateway_calls w) p = Inr out \<Longrightarrow>
   gateway_call en p w = (Inr out, w\<lparr>gateway_calls := Suc (gateway_calls w)\<rparr>)"
  by (simp add: gateway_call_def)

lemma retry_loop_failures:
  assumes shape: "\<And>w. isl (gateway en (gateway_calls w) prompt) \<Longrightarrow>
            attempt w = (Inl (Exn ConnectionError (projl (gateway en (gateway_calls w) prompt))),
                         w\<lparr>gateway_calls := Suc (gateway_calls w)\<rparr>)"
  shows "gateway_down en prompt (gateway_calls w) k \<Longrightarrow> attempts + k \<le> 5 \<Longrightarrow>
     retry_loop attempt failure attempts last_err w =
       retry_loop attempt failure (attempts + k)
         (if k = 0 then last_err
          else Some (Exn ConnectionError (projl (gateway en (gateway_calls w + k - 1) prompt))))
         (after_failures k attempts w)"
proof (induction k arbitrary: attempts last_err w)
  case 0
  then show ?case by simp
next
  case (Suc k)
  from Suc.prems(1) have d0: "isl (gateway en (gateway_calls w) prompt)"
    and dk: "gateway_down en prompt (Suc (gateway_calls w)) k"
    by (simp_all add: gateway_down_Suc)
  let ?w1 = "sleep (of_nat (Suc attempts)) (w\<lparr>gateway_calls := Suc (gateway_calls w)\<rparr>)"
  have c1: "gateway_calls ?w1 = Suc (gateway_calls w)" by (simp add: sleep_def)
  have lt: "attempts < 5" using Suc.prems(2) by simp
  have step: "retry_loop attempt failure attempts last_err w =
      retry_loop attempt failure (Suc attempts)
        (Some (Exn ConnectionError (projl (gateway en (gateway_calls w) prompt)))) ?w1"
    using lt shape[OF d0] by (subst retry_loop.simps) simp
  have ih: "retry_loop attempt failure (Suc attempts)
        (Some (Exn ConnectionError (projl (gateway en (gateway_calls w) prompt)))) ?w1 =
       retry_loop attempt failure (Suc attempts + k)
         (if k = 0 then Some (Exn ConnectionError (projl (gateway en (gateway_calls w) prompt)))
          else Some (Exn ConnectionError (projl (gateway en (gateway_calls ?w1 + k - 1) prompt))))
         (after_failures k (Suc attempts) ?w1)"
    using Suc.IH[of ?w1 "Suc attempts"] dk Suc.prems(2) c1 by simp
  show ?case
    unfolding step ih using c1 by (cases k) simp_all
qed

lemma retry_loop_exhausted:
  "retry_loop attempt failure 5 last_err w = (Inl (Exn ConnectionError (failure 5 last_err)), w)"
  by (subst retry_loop.simps) simp

lemma retry_loop_once:
  assumes "attempts < 5" "attempt w = (r, w1)"
    "\<And>e. r = Inl e \<Longrightarrow> exn_kind_of e \<noteq> ConnectionError"
  shows "retry_loop attempt failure attempts last_err w = (r, w1)"
  using assms by (subst retry_loop.simps) (cases r; simp)

lemma retry_loop_calls:
  "(\<And>w. gateway_calls (snd (attempt w)) = Suc (gateway_calls w)) \<Longrightarrow>
   gateway_calls (snd (retry_loop attempt failure attempts last_err w))
           \<le> gateway_calls w + (5 - attempts)"
proof (induction attempt failure attempts last_err w rule: retry_loop.induct)
  case (1 attempt failure attempts last_err w)
  note one = "1.prems"
  show ?case
  proof (cases "attempts < 5")
    case False
    then show ?thesis by (subst retry_loop.simps) simp
  next
    case True
    obtain r w1 where a: "attempt w = (r, w1)" by (cases "attempt w")
    have c: "gateway_calls w1 = Suc (gateway_calls w)" using one[of w] a by simp
    show ?thesis
    proof (cases r)
      case (Inr v)
      then show ?thesis using True a c by (subst retry_loop.simps) simp
    next
      case (Inl e)
      show ?thesis
      proof (cases "exn_kind_of e = ConnectionError")
        case False
        then show ?thesis using True a c Inl by (subst retry_loop.simps) simp
      next
        case ce: True
        have "gateway_calls (snd (retry_loop attempt failure (attempts + 1) (Some e)
                 (sleep (of_nat (attempts + 1)) w1)))
              \<le> gateway_calls (sleep (of_nat (attempts + 1)) w1) + (5 - (attempts + 1))"
          using "1.IH"[OF True a[symmetric] Inl ce one] by simp
        then show ?thesis using True a c Inl ce
          by (subst retry_loop.simps) (simp add: sleep_def)
      qed
    qed
  qed
qed


lemma sleep_fields:
  "gateway_calls (sleep d w) = gateway_calls w"
  "inbox (sleep d w) = inbox w"
  "lockdir (sleep d w) = lockdir w"
  "quota_backoff_until (sleep d w) = quota_backoff_until w"
  "last_error (sleep d w) = last_error w"
  "error_signal (sleep d w) = error_signal w"
  "clock (sleep d w) = clock w + d"
  by (simp_all add: sleep_def)

lemma update_mail_fields:
  "gateway_calls (snd (update_mail i u w)) = gateway_calls w"
  "quota_backoff_until (snd (update_mail i u w)) = quota_backoff_until w"
  "last_error (snd (update_mail i u w)) = last_error w"
  "error_signal (snd (update_mail i u w)) = error_signal w"
  by (simp_all add: update_mail_cases split: option.splits)

lemma update_mail_error:
  "fst (update_mail i u w) = Inl e \<Longrightarrow> exn_kind_of e = TimeoutError"
  by (auto simp: update_mail_cases split: option.splits if_splits)

lemma add_mail_cases:
  "add_mail m w =
     (case find (\<lambda>k. map_of m k = None) required_fields of
        Some k \<Rightarrow> (Inl (Exn ValueError (''Missing required field: '' @ k)), w)
      | None \<Rightarrow>
          if lockdir w
          then (Inl (Exn TimeoutError (''Failed to acquire lock for '' @ INBOX @ '' within 5.0s'')),
                w\<lparr>clock := clock w + 5, slept := slept w @ replicate 100 (1 / 20)\<rparr>)
          else (let d = (case inbox w of None \<Rightarrow> \<lparr>counter = 0, emails = []\<rparr> | Some d \<Rightarrow> d)
                in (Inr (counter d + 1),
                    w\<lparr>lock_acquisitions := Suc (lock_acquisitions w),
                      inbox := Some (d\<lparr>emails := emails d @ [new_entry m (counter d + 1)],
                                       counter := counter d + 1\<rparr>)\<rparr>)))"
  by (simp add: add_mail_def acquire_lock_def release_lock_def Let_def split: option.splits)

lemma add_mail_fields:
  "gateway_calls (snd (add_mail m w)) = gateway_calls w"
  "quota_backoff_until (snd (add_mail m w)) = quota_backoff_until w"
  "last_error (snd (add_mail m w)) = last_error w"
  "error_signal (snd (add_mail m w)) = error_signal w"
  by (simp_all add: add_mail_cases Let_def split: option.splits)

lemma add_mail_error:
  "fst (add_mail m w) = Inl e \<Longrightarrow> exn_kind_of e = ValueError \<or> exn_kind_of e = TimeoutError"
  by (auto simp: add_mail_cases Let_def split: option.splits if_splits)

lemma add_loop_fields:
  "gateway_calls (snd (add_loop m n l w)) = gateway_calls w
   \<and> quota_backoff_until (snd (add_loop m n l w)) = quota_backoff_until w
   \<and> last_error (snd (add_loop m n l w)) = last_error w
   \<and> error_signal (snd (add_loop m n l w)) = error_signal w"
proof (induction m n l w rule: add_loop.induct)
  case (1 m n l w)
  note u = add_loop.simps[of m n l w]
  show ?case
  proof (cases "n < 5")
    case False
    then show ?thesis by (simp add: u)
  next
    case True
    obtain r w1 where a: "add_mail m w = (r, w1)" by (cases "add_mail m w")
    have f: "gateway_calls w1 = gateway_calls w" "quota_backoff_until w1 = quota_backoff_until w"
      "last_error w1 = last_error w" "error_signal w1 = error_signal w"
      using add_mail_fields[of m w] a by simp_all
    show ?thesis
    proof (cases r)
      case (Inr v)
      then show ?thesis using True a f by (simp add: u)
    next
      case (Inl e)
      show ?thesis
      proof (cases "is_oserror e")
        case False
        then show ?thesis using True a f Inl by (simp add: u)
      next
        case os: True
        show ?thesis
          using "1.IH"[OF True a[symmetric] Inl os] True a f Inl os
          by (simp add: u sleep_fields)
      qed
    qed
  qed
qed

lemma add_loop_error:
  "fst (add_loop m n l w) = Inl e \<Longrightarrow> exn_kind_of e \<noteq> ConnectionError"
proof (induction m n l w rule: add_loop.induct)
  case (1 m n l w)
  show ?case
  proof (cases "n < 5")
    case False
    then show ?thesis using "1.prems" by (subst (asm) add_loop.simps) auto
  next
    case True
    obtain r w1 where a: "add_mail m w = (r, w1)" by (cases "add_mail m w")
    show ?thesis
    proof (cases r)
      case (Inr v)
      then show ?thesis using True a "1.prems" by (subst (asm) add_loop.simps) simp
    next
      case (Inl e')
      show ?thesis
      proof (cases "is_oserror e'")
        case False
        then have "e = e'" using True a Inl "1.prems" by (subst (asm) add_loop.simps) simp
        moreover have "exn_kind_of e' = ValueError \<or> exn_kind_of e' = TimeoutError"
          using add_mail_error[of m w e'] a Inl by simp
        ultimately show ?thesis by auto
      next
        case os: True
        have "fst (add_loop m (n + 1) (Some e') (sleep (of_nat (n + 1) / 5) w1)) = Inl e"
          using True a Inl os "1.prems" by (subst (asm) add_loop.simps) simp
        then show ?thesis using "1.IH"[OF True a[symmetric] Inl os] by simp
      qed
    qed
  qed
qed

lemma mark_not_draftable_fields:
  "gateway_calls (mark_not_draftable m w) = gateway_calls w"
  "quota_backoff_until (mark_not_draftable m w) = quota_backoff_until w"
  "last_error (mark_not_draftable m w) = last_error w"
  "error_signal (mark_not_draftable m w) = error_signal w"
  by (simp_all add: mark_not_draftable_def update_mail_fields split: pyval.splits)

lemma gateway_call_fields:
  "gateway_calls (snd (gateway_call en p w)) = Suc (gateway_calls w)"
  "quota_backoff_until (snd (gateway_call en p w)) = quota_backoff_until w"
  "last_error (snd (gateway_call en p w)) = last_error w"
  "error_signal (snd (gateway_call en p w)) = error_signal w"
  by (simp_all add: gateway_call_def split: sum.splits)

lemma parse_category_error:
  "parse_category out = Inl e \<Longrightarrow> exn_kind_of e \<noteq> ConnectionError"
  by (auto simp: parse_category_def Let_def split: if_splits)

lemma parse_action_items_error:
  "parse_action_items en out = Inl e \<Longrightarrow> exn_kind_of e \<noteq> ConnectionError"
  by (auto simp: parse_action_items_def parse_json_from_text_def Let_def
      split: sum.splits option.splits if_splits)


lemma update_mail_error_pair:
  "update_mail i u w = (Inl e, w') \<Longrightarrow> exn_kind_of e = TimeoutError"
  using update_mail_error[of i u w e] by simp

lemma update_mail_calls_pair:
  "update_mail i u w = (r, w') \<Longrightarrow> gateway_calls w' = gateway_calls w"
  using update_mail_fields(1)[of i u w] by simp

lemma add_loop_error_pair:
  "add_loop m n l w = (Inl e, w') \<Longrightarrow> exn_kind_of e \<noteq> ConnectionError"
  using add_loop_error[of m n l w e] by simp

lemma categorize_attempt_down:
  "isl (gateway en (gateway_calls w) p) \<Longrightarrow>
   categorize_attempt en i p w =
     (Inl (Exn ConnectionError (projl (gateway en (gateway_calls w) p))),
      w\<lparr>gateway_calls := Suc (gateway_calls w)\<rparr>)"
  by (simp add: categorize_attempt_def gateway_call_Inl)

lemma categorize_attempt_error:
  "gateway en (gateway_calls w) p = Inr out \<Longrightarrow> fst (categorize_attempt en i p w) = Inl e \<Longrightarrow>
   exn_kind_of e \<noteq> ConnectionError"
  by (auto simp: categorize_attempt_def gateway_call_Inr
      dest: parse_category_error update_mail_error_pair split: sum.splits prod.splits)

lemma categorize_attempt_calls:
  "gateway_calls (snd (categorize_attempt en i p w)) = Suc (gateway_calls w)"
proof -
  obtain r w1 where g: "gateway_call en p w = (r, w1)" by (cases "gateway_call en p w")
  then have c: "gateway_calls w1 = Suc (gateway_calls w)" using gateway_call_fields(1)[of en p w] by simp
  show ?thesis
    using g c
    by (auto simp: categorize_attempt_def dest: update_mail_calls_pair split: sum.splits prod.splits)
qed

lemma extract_attempt_down:
  "isl (gateway en (gateway_calls w) p) \<Longrightarrow>
   extract_attempt en i p w =
     (Inl (Exn ConnectionError (projl (gateway en (gateway_calls w) p))),
      w\<lparr>gateway_calls := Suc (gateway_calls w)\<rparr>)"
  by (simp add: extract_attempt_def gateway_call_Inl)

lemma extract_attempt_error:
  "gateway en (gateway_calls w) p = Inr out \<Longrightarrow> fst (extract_attempt en i p w) = Inl e \<Longrightarrow>
   exn_kind_of e \<noteq> ConnectionError"
  by (auto simp: extract_attempt_def gateway_call_Inr
      dest: parse_action_items_error update_mail_error_pair split: sum.splits prod.splits)

lemma extract_attempt_calls:
  "gateway_calls (snd (extract_attempt en i p w)) = Suc (gateway_calls w)"
proof -
  obtain r w1 where g: "gateway_call en p w = (r, w1)" by (cases "gateway_call en p w")
  then have c: "gateway_calls w1 = Suc (gateway_calls w)" using gateway_call_fields(1)[of en p w] by simp
  show ?thesis
    using g c
    by (auto simp: extract_attempt_def dest: update_mail_calls_pair split: sum.splits prod.splits)
qed

lemma draft_attempt_down:
  "isl (gateway en (gateway_calls w) p) \<Longrightarrow>
   draft_attempt en m so p w =
     (Inl (Exn ConnectionError (projl (gateway en (gateway_calls w) p))),
      w\<lparr>gateway_calls := Suc (gateway_calls w)\<rparr>)"
  by (simp add: draft_attempt_def gateway_call_Inl)

lemma draft_attempt_error:
  "gateway en (gateway_calls w) p = Inr out \<Longrightarrow> fst (draft_attempt en m so p w) = Inl e \<Longrightarrow>
   exn_kind_of e \<noteq> ConnectionError"
  by (auto simp: draft_attempt_def gateway_call_Inr Let_def dest: add_loop_error_pair
      split: sum.splits prod.splits if_splits)

lemma draft_attempt_calls:
  "gateway_calls (snd (draft_attempt en m so p w)) = Suc (gateway_calls w)"
proof -
  obtain r w1 where g: "gateway_call en p w = (r, w1)" by (cases "gateway_call en p w")
  then have c: "gateway_calls w1 = Suc (gateway_calls w)" using gateway_call_fields(1)[of en p w] by simp
  show ?thesis
  proof (cases r)
    case (Inl e)
    then show ?thesis using g c by (simp add: draft_attempt_def)
  next
    case (Inr out)
    obtain r2 w2 where a: "add_loop (make_draft_mail en m so (clean_draft (select_best_option (strip out))) w1) 0 None w1 = (r2, w2)"
      by (cases "add_loop (make_draft_mail en m so (clean_draft (select_best_option (strip out))) w1) 0 None w1")
    have c2: "gateway_calls w2 = gateway_calls w1"
      using add_loop_fields[of "make_draft_mail en m so (clean_draft (select_best_option (strip out))) w1" 0 None w1] a
      by simp
    show ?thesis using g c Inr a c2
      by (cases r2) (simp_all add: draft_attempt_def Let_def mark_not_draftable_fields update_mail_fields)
  qed
qed

lemma retry_loop_all_down:
  assumes down: "\<And>w. isl (gateway en (gateway_calls w) prompt) \<Longrightarrow>
            attempt w = (Inl (Exn ConnectionError (projl (gateway en (gateway_calls w) prompt))),
                         w\<lparr>gateway_calls := Suc (gateway_calls w)\<rparr>)"
    and all: "gateway_down en prompt (gateway_calls w) 5"
  shows "retry_loop attempt failure 0 None w =
     (Inl (Exn ConnectionError
        (failure 5 (Some (Exn ConnectionError (projl (gateway en (gateway_calls w + 4) prompt)))))),
      after_failures 5 0 w)"
  using retry_loop_failures[of en prompt attempt w 5 0 failure None, OF down all]
  by (simp add: retry_loop_exhausted add.commute)

lemma retry_loop_answer:
  assumes down: "\<And>w. isl (gateway en (gateway_calls w) prompt) \<Longrightarrow>
            attempt w = (Inl (Exn ConnectionError (projl (gateway en (gateway_calls w) prompt))),
                         w\<lparr>gateway_calls := Suc (gateway_calls w)\<rparr>)"
    and err: "\<And>w out e. gateway en (gateway_calls w) prompt = Inr out \<Longrightarrow>
            fst (attempt w) = Inl e \<Longrightarrow> exn_kind_of e \<noteq> ConnectionError"
    and k: "k < 5" "gateway_down en prompt (gateway_calls w) k"
    and ans: "gateway en (gateway_calls w + k) prompt = Inr out"
  shows "retry_loop attempt failure 0 None w = attempt (after_failures k 0 w)"
proof -
  let ?wk = "after_failures k 0 w"
  have ck: "gateway_calls ?wk = gateway_calls w + k" by (simp add: after_failures_fields)
  obtain r w1 where a: "attempt ?wk = (r, w1)" by (cases "attempt ?wk")
  have ne: "\<And>e. r = Inl e \<Longrightarrow> exn_kind_of e \<noteq> ConnectionError"
    using err[of ?wk out] ans ck a by simp
  have "retry_loop attempt failure 0 None w =
       retry_loop attempt failure k
         (if k = 0 then None
          else Some (Exn ConnectionError (projl (gateway en (gateway_calls w + k - 1) prompt)))) ?wk"
    using retry_loop_failures[of en prompt attempt w k 0 failure None, OF down k(2)] k(1) by simp
  also have "\<dots> = (r, w1)"
    using retry_loop_once[of k attempt "after_failures k 0 w" r w1 failure] k(1) a ne by blast
  finally show ?thesis using a by simp
qed

lemma str_of_nat_5: "str_of_nat 5 = ''5''"
  by code_simp


lemma smart_categorizer_ready:
  "py_int (get_or m ''id'' PNone) = Inr mail_id \<Longrightarrow> prompt_for en ''categorization'' \<noteq> [] \<Longrightarrow>
   body_text m = Inr body \<Longrightarrow>
   smart_categorizer en m w =
     retry_loop (categorize_attempt en mail_id (categorizer_prompt en body))
       (\<lambda>attempts last_err. ''Failed to categorize after '' @ str_of_nat attempts @
           '' attempts. Last error: '' @ last_err_str last_err) 0 None w"
  by (simp add: smart_categorizer_def)

lemma action_item_extractor_ready:
  "py_int (get_or m ''id'' PNone) = Inr mail_id \<Longrightarrow> prompt_for en ''action_extraction'' \<noteq> [] \<Longrightarrow>
   body_text m = Inr body \<Longrightarrow>
   action_item_extractor en m w =
     retry_loop (extract_attempt en mail_id (extractor_prompt en body))
       (\<lambda>attempts last_err. ''Failed after '' @ str_of_nat attempts @
           '' attempts. Last error: '' @ last_err_str last_err) 0 None w"
  by (simp add: action_item_extractor_def)

lemma AI_mail_drafter_ready:
  "\<not> py_eq (get_or m ''draftable'' PNone) (PInt 0) \<Longrightarrow> prompt_for en ''auto_reply'' \<noteq> [] \<Longrightarrow>
   body_text m = Inr body \<Longrightarrow>
   AI_mail_drafter en m so w =
     retry_loop (draft_attempt en m so (drafter_prompt en body))
       (\<lambda>attempts last_err. ''Failed to generate draft after '' @ str_of_nat attempts @
           '' attempts. Last error: '' @ last_err_str last_err) 0 None w"
  by (simp add: AI_mail_drafter_def)

lemma smart_categorizer_calls:
  "gateway_calls (snd (smart_categorizer en m w)) \<le> gateway_calls w + 5"
proof -
  have "gateway_calls (snd (retry_loop (categorize_attempt en i p) f 0 None w)) \<le> gateway_calls w + 5"
    for i p f
    using retry_loop_calls[of "categorize_attempt en i p" f 0 None w] categorize_attempt_calls by simp
  then show ?thesis
    by (simp add: smart_categorizer_def split: sum.splits)
qed

lemma action_item_extractor_calls:
  "gateway_calls (snd (action_item_extractor en m w)) \<le> gateway_calls w + 5"
proof -
  have "gateway_calls (snd (retry_loop (extract_attempt en i p) f 0 None w)) \<le> gateway_calls w + 5"
    for i p f
    using retry_loop_calls[of "extract_attempt en i p" f 0 None w] extract_attempt_calls by simp
  then show ?thesis
    by (simp add: action_item_extractor_def split: sum.splits)
qed

lemma AI_mail_drafter_calls:
  "gateway_calls (snd (AI_mail_drafter en m so w)) \<le> gateway_calls w + 5"
proof -
  have "gateway_calls (snd (retry_loop (draft_attempt en m so p) f 0 None w)) \<le> gateway_calls w + 5"
    for p f
    using retry_loop_calls[of "draft_attempt en m so p" f 0 None w] draft_attempt_calls by simp
  then show ?thesis
    by (simp add: AI_mail_drafter_def split: sum.splits)
qed

lemma categorize_attempt_invalid:
  "gateway en (gateway_calls w) p = Inr out \<Longrightarrow> parse_category out = Inl e \<Longrightarrow>
   categorize_attempt en i p w = (Inl e, w\<lparr>gateway_calls := Suc (gateway_calls w)\<rparr>)"
  by (simp add: categorize_attempt_def gateway_call_Inr)

lemma extract_attempt_invalid:
  "gateway en (gateway_calls w) p = Inr out \<Longrightarrow> parse_action_items en out = Inl e \<Longrightarrow>
   extract_attempt en i p w = (Inl e, w\<lparr>gateway_calls := Suc (gateway_calls w)\<rparr>)"
  by (simp add: extract_attempt_def gateway_call_Inr)

lemma draft_attempt_empty:
  "gateway en (gateway_calls w) p = Inr out \<Longrightarrow> strip out = [] \<Longrightarrow>
   draft_attempt en m so p w =
     (Inl (Exn ValueError ''Empty draft from model.''), w\<lparr>gateway_calls := Suc (gateway_calls w)\<rparr>)"
  by (simp add: draft_attempt_def gateway_call_Inr)

lemma draft_attempt_invalid:
  "gateway en (gateway_calls w) p = Inr out \<Longrightarrow> strip out = ''INVALID'' \<Longrightarrow>
   draft_attempt en m so p w =
     (Inr [], mark_not_draftable m (w\<lparr>gateway_calls := Suc (gateway_calls w)\<rparr>))"
  by (simp add: draft_attempt_def gateway_call_Inr)

lemma categorizer_policy:
  assumes r: "py_int (get_or m ''id'' PNone) = Inr mail_id" "prompt_for en ''categorization'' \<noteq> []"
    "body_text m = Inr body"
  shows "gateway_down en (categorizer_prompt en body) (gateway_calls w) 5 \<Longrightarrow>
           smart_categorizer en m w =
             (Inl (Exn ConnectionError (''Failed to categorize after 5 attempts. Last error: '' @
                     projl (gateway en (gateway_calls w + 4) (categorizer_prompt en body)))),
              after_failures 5 0 w)"
    and "k < 5 \<Longrightarrow> gateway_down en (categorizer_prompt en body) (gateway_calls w) k \<Longrightarrow>
         gateway en (gateway_calls w + k) (categorizer_prompt en body) = Inr out \<Longrightarrow>
           smart_categorizer en m w =
             categorize_attempt en mail_id (categorizer_prompt en body) (after_failures k 0 w)"
    and "k < 5 \<Longrightarrow> gateway_down en (categorizer_prompt en body) (gateway_calls w) k \<Longrightarrow>
         gateway en (gateway_calls w + k) (categorizer_prompt en body) = Inr out \<Longrightarrow>
         parse_category out = Inl e \<Longrightarrow>
           smart_categorizer en m w =
             (Inl e, (after_failures k 0 w)\<lparr>gateway_calls := gateway_calls w + k + 1\<rparr>)"
proof -
  let ?p = "categorizer_prompt en body"
  let ?a = "categorize_attempt en mail_id ?p"
  note ready = smart_categorizer_ready[OF r]
  show "gateway_down en ?p (gateway_calls w) 5 \<Longrightarrow>
           smart_categorizer en m w =
             (Inl (Exn ConnectionError (''Failed to categorize after 5 attempts. Last error: '' @
                     projl (gateway en (gateway_calls w + 4) ?p))), after_failures 5 0 w)"
    unfolding ready
    using retry_loop_all_down[of en ?p ?a w] categorize_attempt_down[of en _ ?p mail_id]
    by (simp add: str_of_nat_5 last_err_str_def)
  have ans: "smart_categorizer en m w = ?a (after_failures k 0 w)"
    if "k < 5" "gateway_down en ?p (gateway_calls w) k" "gateway en (gateway_calls w + k) ?p = Inr out"
    for k out
    unfolding ready
    using retry_loop_answer[of en ?p ?a k w out] categorize_attempt_down[of en _ ?p mail_id]
      categorize_attempt_error[of en _ ?p _ mail_id] that
    by blast
  show "k < 5 \<Longrightarrow> gateway_down en ?p (gateway_calls w) k \<Longrightarrow>
         gateway en (gateway_calls w + k) ?p = Inr out \<Longrightarrow>
           smart_categorizer en m w = ?a (after_failures k 0 w)"
    using ans by blast
  show "k < 5 \<Longrightarrow> gateway_down en ?p (gateway_calls w) k \<Longrightarrow>
         gateway en (gateway_calls w + k) ?p = Inr out \<Longrightarrow> parse_category out = Inl e \<Longrightarrow>
           smart_categorizer en m w =
             (Inl e, (after_failures k 0 w)\<lparr>gateway_calls := gateway_calls w + k + 1\<rparr>)"
    using ans[of k out] categorize_attempt_invalid[of en "after_failures k 0 w" ?p out e mail_id]
    by (simp add: after_failures_fields)
qed


lemma extractor_policy:
  assumes r: "py_int (get_or m ''id'' PNone) = Inr mail_id" "prompt_for en ''action_extraction'' \<noteq> []"
    "body_text m = Inr body"
  shows "gateway_down en (extractor_prompt en body) (gateway_calls w) 5 \<Longrightarrow>
           action_item_extractor en m w =
             (Inl (Exn ConnectionError (''Failed after 5 attempts. Last error: '' @
                     projl (gateway en (gateway_calls w + 4) (extractor_prompt en body)))),
              after_failures 5 0 w)"
    and "k < 5 \<Longrightarrow> gateway_down en (extractor_prompt en body) (gateway_calls w) k \<Longrightarrow>
         gateway en (gateway_calls w + k) (extractor_prompt en body) = Inr out \<Longrightarrow>
           action_item_extractor en m w =
             extract_attempt en mail_id (extractor_prompt en body) (after_failures k 0 w)"
    and "k < 5 \<Longrightarrow> gateway_down en (extractor_prompt en body) (gateway_calls w) k \<Longrightarrow>
         gateway en (gateway_calls w + k) (extractor_prompt en body) = Inr out \<Longrightarrow>
         parse_action_items en out = Inl e \<Longrightarrow>
           action_item_extractor en m w =
             (Inl e, (after_failures k 0 w)\<lparr>gateway_calls := gateway_calls w + k + 1\<rparr>)"
proof -
  let ?p = "extractor_prompt en body"
  let ?a = "extract_attempt en mail_id ?p"
  note ready = action_item_extractor_ready[OF r]
  show "gateway_down en ?p (gateway_calls w) 5 \<Longrightarrow>
           action_item_extractor en m w =
             (Inl (Exn ConnectionError (''Failed after 5 attempts. Last error: '' @
                     projl (gateway en (gateway_calls w + 4) ?p))), after_failures 5 0 w)"
    unfolding ready
    using retry_loop_all_down[of en ?p ?a w] extract_attempt_down[of en _ ?p mail_id]
    by (simp add: str_of_nat_5 last_err_str_def)
  have ans: "action_item_extractor en m w = ?a (after_failures k 0 w)"
    if "k < 5" "gateway_down en ?p (gateway_calls w) k" "gateway en (gateway_calls w + k) ?p = Inr out"
    for k out
    unfolding ready
    using retry_loop_answer[of en ?p ?a k w out] extract_attempt_down[of en _ ?p mail_id]
      extract_attempt_error[of en _ ?p _ mail_id] that
    by blast
  show "k < 5 \<Longrightarrow> gateway_down en ?p (gateway_calls w) k \<Longrightarrow>
         gateway en (gateway_calls w + k) ?p = Inr out \<Longrightarrow>
           action_item_extractor en m w = ?a (after_failures k 0 w)"
    using ans by blast
  show "k < 5 \<Longrightarrow> gateway_down en ?p (gateway_calls w) k \<Longrightarrow>
         gateway en (gateway_calls w + k) ?p = Inr out \<Longrightarrow> parse_action_items en out = Inl e \<Longrightarrow>
           action_item_extractor en m w =
             (Inl e, (after_failures k 0 w)\<lparr>gateway_calls := gateway_calls w + k + 1\<rparr>)"
    using ans[of k out] extract_attempt_invalid[of en "after_failures k 0 w" ?p out e mail_id]
    by (simp add: after_failures_fields)
qed

lemma drafter_policy:
  assumes r: "\<not> py_eq (get_or m ''draftable'' PNone) (PInt 0)" "prompt_for en ''auto_reply'' \<noteq> []"
    "body_text m = Inr body"
  shows "gateway_down en (drafter_prompt en body) (gateway_calls w) 5 \<Longrightarrow>
           AI_mail_drafter en m so w =
             (Inl (Exn ConnectionError (''Failed to generate draft after 5 attempts. Last error: '' @
                     projl (gateway en (gateway_calls w + 4) (drafter_prompt en body)))),
              after_failures 5 0 w)"
    and "k < 5 \<Longrightarrow> gateway_down en (drafter_prompt en body) (gateway_calls w) k \<Longrightarrow>
         gateway en (gateway_calls w + k) (drafter_prompt en body) = Inr out \<Longrightarrow>
           AI_mail_drafter en m so w =
             draft_attempt en m so (drafter_prompt en body) (after_failures k 0 w)"
    and "k < 5 \<Longrightarrow> gateway_down en (drafter_prompt en body) (gateway_calls w) k \<Longrightarrow>
         gateway en (gateway_calls w + k) (drafter_prompt en body) = Inr out \<Longrightarrow>
         strip out = [] \<Longrightarrow>
           AI_mail_drafter en m so w =
             (Inl (Exn ValueError ''Empty draft from model.''),
              (after_failures k 0 w)\<lparr>gateway_calls := gateway_calls w + k + 1\<rparr>)"
    and "k < 5 \<Longrightarrow> gateway_down en (drafter_prompt en body) (gateway_calls w) k \<Longrightarrow>
         gateway en (gateway_calls w + k) (drafter_prompt en body) = Inr out \<Longrightarrow>
         strip out = ''INVALID'' \<Longrightarrow>
           AI_mail_drafter en m so w =
             (Inr [], mark_not_draftable m
                        ((after_failures k 0 w)\<lparr>gateway_calls := gateway_calls w + k + 1\<rparr>))"
proof -
  let ?p = "drafter_prompt en body"
  let ?a = "draft_attempt en m so ?p"
  note ready = AI_mail_drafter_ready[OF r]
  show "gateway_down en ?p (gateway_calls w) 5 \<Longrightarrow>
           AI_mail_drafter en m so w =
             (Inl (Exn ConnectionError (''Failed to generate draft after 5 attempts. Last error: '' @
                     projl (gateway en (gateway_calls w + 4) ?p))), after_failures 5 0 w)"
    unfolding ready
    using retry_loop_all_down[of en ?p ?a w] draft_attempt_down[of en _ ?p m so]
    by (simp add: str_of_nat_5 last_err_str_def)
  have ans: "AI_mail_drafter en m so w = ?a (after_failures k 0 w)"
    if "k < 5" "gateway_down en ?p (gateway_calls w) k" "gateway en (gateway_calls w + k) ?p = Inr out"
    for k out
    unfolding ready
    using retry_loop_answer[of en ?p ?a k w out] draft_attempt_down[of en _ ?p m so]
      draft_attempt_error[of en _ ?p _ m so] that
    by blast
  show "k < 5 \<Longrightarrow> gateway_down en ?p (gateway_calls w) k \<Longrightarrow>
         gateway en (gateway_calls w + k) ?p = Inr out \<Longrightarrow>
           AI_mail_drafter en m so w = ?a (after_failures k 0 w)"
    using ans by blast
  show "k < 5 \<Longrightarrow> gateway_down en ?p (gateway_calls w) k \<Longrightarrow>
         gateway en (gateway_calls w + k) ?p = Inr out \<Longrightarrow> strip out = [] \<Longrightarrow>
           AI_mail_drafter en m so w =
             (Inl (Exn ValueError ''Empty draft from model.''),
              (after_failures k 0 w)\<lparr>gateway_calls := gateway_calls w + k + 1\<rparr>)"
    using ans[of k out] draft_attempt_empty[of en "after_failures k 0 w" ?p out m so]
    by (simp add: after_failures_fields)
  show "k < 5 \<Longrightarrow> gateway_down en ?p (gateway_calls w) k \<Longrightarrow>
         gateway en (gateway_calls w + k) ?p = Inr out \<Longrightarrow> strip out = ''INVALID'' \<Longrightarrow>
           AI_mail_drafter en m so w =
             (Inr [], mark_not_draftable m
                        ((after_failures k 0 w)\<lparr>gateway_calls := gateway_calls w + k + 1\<rparr>))"
    using ans[of k out] draft_attempt_invalid[of en "after_failures k 0 w" ?p out m so]
    by (simp add: after_failures_fields)
qed


lemma after_failures_5_slept: "slept (after_failures 5 0 w) = slept w @ [1, 2, 3, 4, 5]"
proof -
  have "[Suc 0..<Suc 0 + 5] = [1, 2, 3, 4, 5]" by (simp add: upt_rec)
  then show ?thesis using after_failures_slept[of 5 0 w] by simp
qed

text \<open>
  Claim C6. Once a processor has its mail id, its prompt and the mail's body: when the gateway
  answers five calls in a row with a \<open>ConnectionError\<close>, the processor has slept 1, 2, 3, 4
  and 5 seconds after them and raises a \<open>ConnectionError\<close> that quotes the last one; when
  the gateway answers after \<open>k < 5\<close> such failures, the processor returns or raises what
  that one attempt returns or raises, whatever it is, so a parsing or validation error
  leaves at once, after \<open>k + 1\<close> calls. No processor ever makes more than five calls.
\<close>

theorem retry_policy:
  "(py_int (get_or m ''id'' PNone) = Inr mail_id \<and> body_text m = Inr body
      \<and> prompt_for en ''categorization'' \<noteq> [] \<longrightarrow>
      (gateway_down en (categorizer_prompt en body) (gateway_calls w) 5 \<longrightarrow>
         smart_categorizer en m w =
           (Inl (Exn ConnectionError (''Failed to categorize after 5 attempts. Last error: '' @
                   projl (gateway en (gateway_calls w + 4) (categorizer_prompt en body)))),
            after_failures 5 0 w))
    \<and> (\<forall>k out. k < 5 \<and> gateway_down en (categorizer_prompt en body) (gateway_calls w) k
           \<and> gateway en (gateway_calls w + k) (categorizer_prompt en body) = Inr out \<longrightarrow>
           smart_categorizer en m w =
             categorize_attempt en mail_id (categorizer_prompt en body) (after_failures k 0 w)
         \<and> (\<forall>e. parse_category out = Inl e \<longrightarrow>
               smart_categorizer en m w =
                 (Inl e, (after_failures k 0 w)\<lparr>gateway_calls := gateway_calls w + k + 1\<rparr>))))
   \<and> (py_int (get_or m ''id'' PNone) = Inr mail_id \<and> body_text m = Inr body
      \<and> prompt_for en ''action_extraction'' \<noteq> [] \<longrightarrow>
      (gateway_down en (extractor_prompt en body) (gateway_calls w) 5 \<longrightarrow>
         action_item_extractor en m w =
           (Inl (Exn ConnectionError (''Failed after 5 attempts. Last error: '' @
                   projl (gateway en (gateway_calls w + 4) (extractor_prompt en body)))),
            after_failures 5 0 w))
    \<and> (\<forall>k out. k < 5 \<and> gateway_down en (extractor_prompt en body) (gateway_calls w) k
           \<and> gateway en (gateway_calls w + k) (extractor_prompt en body) = Inr out \<longrightarrow>
           action_item_extractor en m w =
             extract_attempt en mail_id (extractor_prompt en body) (after_failures k 0 w)
         \<and> (\<forall>e. parse_action_items en out = Inl e \<longrightarrow>
               action_item_extractor en m w =
                 (Inl e, (after_failures k 0 w)\<lparr>gateway_calls := gateway_calls w + k + 1\<rparr>))))
   \<and> (\<not> py_eq (get_or m ''draftable'' PNone) (PInt 0) \<and> body_text m = Inr body
      \<and> prompt_for en ''auto_reply'' \<noteq> [] \<longrightarrow>
      (gateway_down en (drafter_prompt en body) (gateway_calls w) 5 \<longrightarrow>
         AI_mail_drafter en m so w =
           (Inl (Exn ConnectionError (''Failed to generate draft after 5 attempts. Last error: '' @
                   projl (gateway en (gateway_calls w + 4) (drafter_prompt en body)))),
            after_failures 5 0 w))
    \<and> (\<forall>k out. k < 5 \<and> gateway_down en (drafter_prompt en body) (gateway_calls w) k
           \<and> gateway en (gateway_calls w + k) (drafter_prompt en body) = Inr out \<longrightarrow>
           AI_mail_drafter en m so w =
             draft_attempt en m so (drafter_prompt en body) (after_failures k 0 w)
         \<and> (strip out = [] \<longrightarrow>
               AI_mail_drafter en m so w =
                 (Inl (Exn ValueError ''Empty draft from model.''),
                  (after_failures k 0 w)\<lparr>gateway_calls := gateway_calls w + k + 1\<rparr>))))
   \<and> gateway_calls (snd (smart_categorizer en m w)) \<le> gateway_calls w + 5
   \<and> gateway_calls (snd (action_item_extractor en m w)) \<le> gateway_calls w + 5
   \<and> gateway_calls (snd (AI_mail_drafter en m so w)) \<le> gateway_calls w + 5
   \<and> gateway_calls (after_failures n 0 w) = gateway_calls w + n
   \<and> slept (after_failures n 0 w) = slept w @ map of_nat [1..<Suc n]
   \<and> slept (after_failures 5 0 w) = slept w @ [1, 2, 3, 4, 5]
   \<and> inbox (after_failures n 0 w) = inbox w"
proof -
  have c: "py_int (get_or m ''id'' PNone) = Inr mail_id \<and> body_text m = Inr body
      \<and> prompt_for en ''categorization'' \<noteq> [] \<longrightarrow>
      (gateway_down en (categorizer_prompt en body) (gateway_calls w) 5 \<longrightarrow>
         smart_categorizer en m w =
           (Inl (Exn ConnectionError (''Failed to categorize after 5 attempts. Last error: '' @
                   projl (gateway en (gateway_calls w + 4) (categorizer_prompt en body)))),
            after_failures 5 0 w))
    \<and> (\<forall>k out. k < 5 \<and> gateway_down en (categorizer_prompt en body) (gateway_calls w) k
           \<and> gateway en (gateway_calls w + k) (categorizer_prompt en body) = Inr out \<longrightarrow>
           smart_categorizer en m w =
             categorize_attempt en mail_id (categorizer_prompt en body) (after_failures k 0 w)
         \<and> (\<forall>e. parse_category out = Inl e \<longrightarrow>
               smart_categorizer en m w =
                 (Inl e, (after_failures k 0 w)\<lparr>gateway_calls := gateway_calls w + k + 1\<rparr>)))"
    using categorizer_policy[where m=m and mail_id=mail_id and en=en and body=body and w=w] by blast
  have x: "py_int (get_or m ''id'' PNone) = Inr mail_id \<and> body_text m = Inr body
      \<and> prompt_for en ''action_extraction'' \<noteq> [] \<longrightarrow>
      (gateway_down en (extractor_prompt en body) (gateway_calls w) 5 \<longrightarrow>
         action_item_extractor en m w =
           (Inl (Exn ConnectionError (''Failed after 5 attempts. Last error: '' @
                   projl (gateway en (gateway_calls w + 4) (extractor_prompt en body)))),
            after_failures 5 0 w))
    \<and> (\<forall>k out. k < 5 \<and> gateway_down en (extractor_prompt en body) (gateway_calls w) k
           \<and> gateway en (gateway_calls w + k) (extractor_prompt en body) = Inr out \<longrightarrow>
           action_item_extractor en m w =
             extract_attempt en mail_id (extractor_prompt en body) (after_failures k 0 w)
         \<and> (\<forall>e. parse_action_items en out = Inl e \<longrightarrow>
               action_item_extractor en m w =
                 (Inl e, (after_failures k 0 w)\<lparr>gateway_calls := gateway_calls w + k + 1\<rparr>)))"
    using extractor_policy[where m=m and mail_id=mail_id and en=en and body=body and w=w] by blast
  have d: "\<not> py_eq (get_or m ''draftable'' PNone) (PInt 0) \<and> body_text m = Inr body
      \<and> prompt_for en ''auto_reply'' \<noteq> [] \<longrightarrow>
      (gateway_down en (drafter_prompt en body) (gateway_calls w) 5 \<longrightarrow>
         AI_mail_drafter en m so w =
           (Inl (Exn ConnectionError (''Failed to generate draft after 5 attempts. Last error: '' @
                   projl (gateway en (gateway_calls w + 4) (drafter_prompt en body)))),
            after_failures 5 0 w))
    \<and> (\<forall>k out. k < 5 \<and> gateway_down en (drafter_prompt en body) (gateway_calls w) k
           \<and> gateway en (gateway_calls w + k) (drafter_prompt en body) = Inr out \<longrightarrow>
           AI_mail_drafter en m so w =
             draft_attempt en m so (drafter_prompt en body) (after_failures k 0 w)
         \<and> (strip out = [] \<longrightarrow>
               AI_mail_drafter en m so w =
                 (Inl (Exn ValueError ''Empty draft from model.''),
                  (after_failures k 0 w)\<lparr>gateway_calls := gateway_calls w + k + 1\<rparr>)))"
    using drafter_policy(1,2,3)[where m=m and en=en and body=body and w=w and so=so] by blast
  have s: "slept (after_failures n 0 w) = slept w @ map of_nat [1..<Suc n]"
    using after_failures_slept[of n 0 w] by simp
  show ?thesis
    using c x d s smart_categorizer_calls[of en m w] action_item_extractor_calls[of en m w]
      AI_mail_drafter_calls[of en m so w] after_failures_fields(1,2)[of n 0 w]
      after_failures_5_slept[of w]
    by blast
qed


lemma gateway_down_iff:
  "gateway_down en p c k = (\<forall>i<k. isl (gateway en (c + i) p))"
  by (auto simp: gateway_down_def list_all_iff)

lemma first_mail_ready:
  "py_int (get_or first_mail ''id'' PNone) = Inr 1"
  "body_text first_mail = Inr ''This is a test email body.''"
  "\<not> py_eq (get_or first_mail ''draftable'' PNone) (PInt 0)"
  by (simp_all add: first_mail_def sample_mail_def get_or_def body_text_def)

lemma demo_prompts:
  "prompt_for (demo_env gw) ''categorization'' = ''Label this mail.''"
  "prompt_for (demo_env gw) ''action_extraction'' = ''List the tasks.''"
  "prompt_for (demo_env gw) ''auto_reply'' = ''Write a reply.''"
  "gateway (demo_env gw) = gw"
  by (simp_all add: demo_env_def prompt_for_def)

theorem retry_policy_witness:
  "smart_categorizer (demo_env quota_gateway) first_mail one_mail_world =
     (Inl (Exn ConnectionError
        ''Failed to categorize after 5 attempts. Last error: Quota exceeded (429).''),
      after_failures 5 0 one_mail_world)
   \<and> slept (after_failures 5 0 one_mail_world) = [1, 2, 3, 4, 5]
   \<and> gateway_calls (after_failures 5 0 one_mail_world) = 5
   \<and> smart_categorizer (demo_env (flaky_gateway ''bad!'')) first_mail one_mail_world =
       (Inl (Exn ValueError (''Invalid category format: '' @ [CHR 0x27] @ ''bad!'' @ [CHR 0x27])),
        (after_failures 1 0 one_mail_world)\<lparr>gateway_calls := 2\<rparr>)"
proof -
  let ?w = one_mail_world
  have c0: "gateway_calls ?w = 0" "slept ?w = []"
    by (simp_all add: one_mail_world_def fresh_world_def)
  let ?q = "demo_env quota_gateway"
  let ?f = "demo_env (flaky_gateway ''bad!'')"
  note tq = retry_policy[where m=first_mail and mail_id=1 and body="''This is a test email body.''"
      and en="?q" and w="?w" and n=5]
  note tf = retry_policy[where m=first_mail and mail_id=1 and body="''This is a test email body.''"
      and en="?f" and w="?w" and n=1]
  have dq: "gateway_down ?q (categorizer_prompt ?q ''This is a test email body.'') (gateway_calls ?w) 5"
    by (simp add: gateway_down_iff demo_prompts quota_gateway_def)
  have pq: "prompt_for ?q ''categorization'' \<noteq> []" by (simp add: demo_prompts)
  from tq first_mail_ready(1,2) pq dq
  have a0: "smart_categorizer ?q first_mail ?w =
     (Inl (Exn ConnectionError (''Failed to categorize after 5 attempts. Last error: '' @
             projl (gateway ?q (gateway_calls ?w + 4) (categorizer_prompt ?q ''This is a test email body.'')))),
      after_failures 5 0 ?w)" by blast
  have a: "smart_categorizer ?q first_mail ?w =
     (Inl (Exn ConnectionError
        ''Failed to categorize after 5 attempts. Last error: Quota exceeded (429).''),
      after_failures 5 0 ?w)"
    using a0 by (simp add: demo_prompts quota_gateway_def)
  from tq have b0: "slept (after_failures 5 0 ?w) = slept ?w @ [1, 2, 3, 4, 5]"
    "gateway_calls (after_failures 5 0 ?w) = gateway_calls ?w + 5" by blast+
  have b: "slept (after_failures 5 0 ?w) = [1, 2, 3, 4, 5]" "gateway_calls (after_failures 5 0 ?w) = 5"
    using b0 c0 by simp_all
  have df: "gateway_down ?f (categorizer_prompt ?f ''This is a test email body.'') (gateway_calls ?w) 1"
    by (simp add: gateway_down_iff demo_prompts flaky_gateway_def c0)
  have gf: "gateway ?f (gateway_calls ?w + 1) (categorizer_prompt ?f ''This is a test email body.'') = Inr ''bad!''"
    by (simp add: demo_prompts flaky_gateway_def c0)
  have pf: "parse_category ''bad!'' =
      Inl (Exn ValueError (''Invalid category format: '' @ [CHR 0x27] @ ''bad!'' @ [CHR 0x27]))"
    by code_simp
  have pf2: "prompt_for ?f ''categorization'' \<noteq> []" by (simp add: demo_prompts)
  have "1 < (5::nat)" by simp
  with tf first_mail_ready(1,2) pf2 df gf pf
  have c1: "smart_categorizer ?f first_mail ?w =
       (Inl (Exn ValueError (''Invalid category format: '' @ [CHR 0x27] @ ''bad!'' @ [CHR 0x27])),
        (after_failures 1 0 ?w)\<lparr>gateway_calls := gateway_calls ?w + 1 + 1\<rparr>)" by blast
  have c: "smart_categorizer ?f first_mail ?w =
       (Inl (Exn ValueError (''Invalid category format: '' @ [CHR 0x27] @ ''bad!'' @ [CHR 0x27])),
        (after_failures 1 0 ?w)\<lparr>gateway_calls := 2\<rparr>)"
    using c1 by (simp add: c0)
  show ?thesis using a b c by blast
qed


lemma update_mail_inbox_shape:
  "inbox w = None \<Longrightarrow> inbox (snd (update_mail i u w)) = None"
  "inbox w = Some d \<Longrightarrow> \<exists>d'. inbox (snd (update_mail i u w)) = Some d' \<and> counter d' = counter d
                   \<and> length (emails d') = length (emails d)"
proof -
  show "inbox w = None \<Longrightarrow> inbox (snd (update_mail i u w)) = None"
    by (simp add: update_mail_cases)
  assume d: "inbox w = Some d"
  show "\<exists>d'. inbox (snd (update_mail i u w)) = Some d' \<and> counter d' = counter d
                   \<and> length (emails d') = length (emails d)"
  proof (cases "update_first i u (emails d)")
    case None
    then show ?thesis using d by (simp add: update_mail_cases)
  next
    case (Some es')
    from update_first_Some[OF Some] have "length es' = length (emails d)" by auto
    then show ?thesis using Some d by (simp add: update_mail_cases)
  qed
qed

lemma update_mail_hit:
  assumes "inbox w = Some d" "\<not> lockdir w" "\<exists>e\<in>set (emails d). id_matches e i"
  shows "\<exists>k<length (emails d). id_matches (emails d ! k) i \<and> (\<forall>j<k. \<not> id_matches (emails d ! j) i)
          \<and> update_mail i u w =
              (Inr True, w\<lparr>lock_acquisitions := Suc (lock_acquisitions w),
                           inbox := Some (d\<lparr>emails := (emails d)[k := apply_updates u (emails d ! k)]\<rparr>)\<rparr>)"
proof -
  from assms(3) have "update_first i u (emails d) \<noteq> None" using update_first_None by blast
  then obtain es' where es': "update_first i u (emails d) = Some es'" by blast
  from update_first_Some[OF es'] obtain k where k: "k < length (emails d)"
    "id_matches (emails d ! k) i" "\<forall>j<k. \<not> id_matches (emails d ! j) i"
    "es' = (emails d)[k := apply_updates u (emails d ! k)]" by blast
  have "update_mail i u w =
     (Inr True, w\<lparr>lock_acquisitions := Suc (lock_acquisitions w), inbox := Some (d\<lparr>emails := es'\<rparr>)\<rparr>)"
    using assms(1,2) es' by (simp add: update_mail_cases)
  then show ?thesis using k by blast
qed

lemma mark_not_draftable_shape:
  "inbox w = None \<Longrightarrow> inbox (mark_not_draftable m w) = None"
  "inbox w = Some d \<Longrightarrow> \<exists>d'. inbox (mark_not_draftable m w) = Some d' \<and> counter d' = counter d
                   \<and> length (emails d') = length (emails d)"
proof -
  have e: "mark_not_draftable m w =
      (if get_or m ''id'' PNone = PNone then w
       else snd (update_mail (get_or m ''id'' PNone) [(''draftable'', PInt 0)] w))"
    by (simp add: mark_not_draftable_def split: pyval.splits)
  show "inbox w = None \<Longrightarrow> inbox (mark_not_draftable m w) = None"
    unfolding e by (simp add: update_mail_inbox_shape(1))
  show "inbox w = Some d \<Longrightarrow> \<exists>d'. inbox (mark_not_draftable m w) = Some d' \<and> counter d' = counter d
                   \<and> length (emails d') = length (emails d)"
    unfolding e using update_mail_inbox_shape(2)[where w=w and d=d] by simp
qed

lemma mark_not_draftable_hit:
  assumes "inbox w = Some d" "\<not> lockdir w" "get_or m ''id'' PNone \<noteq> PNone"
    "\<exists>e\<in>set (emails d). id_matches e (get_or m ''id'' PNone)"
  shows "\<exists>k<length (emails d). id_matches (emails d ! k) (get_or m ''id'' PNone)
          \<and> (\<forall>j<k. \<not> id_matches (emails d ! j) (get_or m ''id'' PNone))
          \<and> inbox (mark_not_draftable m w) =
              Some (d\<lparr>emails := (emails d)[k := AList.update ''draftable'' (PInt 0) (emails d ! k)]\<rparr>)"
proof -
  have e: "mark_not_draftable m w = snd (update_mail (get_or m ''id'' PNone) [(''draftable'', PInt 0)] w)"
    using assms(3) by (simp add: mark_not_draftable_def split: pyval.splits)
  from update_mail_hit[where u="[(''draftable'', PInt 0)]", OF assms(1,2,4)]
  obtain k where k: "k < length (emails d)" "id_matches (emails d ! k) (get_or m ''id'' PNone)"
    "\<forall>j<k. \<not> id_matches (emails d ! j) (get_or m ''id'' PNone)"
    "update_mail (get_or m ''id'' PNone) [(''draftable'', PInt 0)] w =
       (Inr True, w\<lparr>lock_acquisitions := Suc (lock_acquisitions w),
          inbox := Some (d\<lparr>emails := (emails d)[k := apply_updates [(''draftable'', PInt 0)] (emails d ! k)]\<rparr>)\<rparr>)"
    by blast
  have "inbox (mark_not_draftable m w) =
     Some (d\<lparr>emails := (emails d)[k := AList.update ''draftable'' (PInt 0) (emails d ! k)]\<rparr>)"
    unfolding e k(4) by simp
  then show ?thesis using k(1,2,3) by blast
qed

text \<open>
  Claim C7. For a mail with \<open>draftable == 0\<close>, \<open>AI_mail_drafter\<close> returns the empty text
  and the world is untouched: no gateway call, no record. When the answer the gateway gives,
  after any failures of its own, is \<open>INVALID\<close> (white space around it apart), the drafter
  returns the empty text, the mailbox has the records it had and the counter it had, and the
  world is the one \<open>update_mail(src_id, {"draftable": 0})\<close> leaves, whatever that call
  returned or raised: with the lock free and the source mail in the mailbox, that mail has
  \<open>draftable = 0\<close> and nothing else has changed.
\<close>

theorem drafter_short_circuits:
  "(py_eq (get_or m ''draftable'' PNone) (PInt 0) \<longrightarrow> AI_mail_drafter en m so w = (Inr [], w))
   \<and> (\<not> py_eq (get_or m ''draftable'' PNone) (PInt 0) \<and> body_text m = Inr body
        \<and> prompt_for en ''auto_reply'' \<noteq> [] \<longrightarrow>
       (\<forall>k out. k < 5 \<and> gateway_down en (drafter_prompt en body) (gateway_calls w) k
            \<and> gateway en (gateway_calls w + k) (drafter_prompt en body) = Inr out
            \<and> strip out = ''INVALID'' \<longrightarrow>
          AI_mail_drafter en m so w =
            (Inr [], mark_not_draftable m
                       ((after_failures k 0 w)\<lparr>gateway_calls := gateway_calls w + k + 1\<rparr>))
        \<and> (case inbox w of
              None \<Rightarrow> inbox (snd (AI_mail_drafter en m so w)) = None
            | Some d \<Rightarrow> \<exists>d'. inbox (snd (AI_mail_drafter en m so w)) = Some d'
                           \<and> counter d' = counter d \<and> length (emails d') = length (emails d))
        \<and> (\<forall>d. inbox w = Some d \<and> \<not> lockdir w \<and> get_or m ''id'' PNone \<noteq> PNone
                \<and> (\<exists>e\<in>set (emails d). id_matches e (get_or m ''id'' PNone)) \<longrightarrow>
              (\<exists>i<length (emails d).
                  id_matches (emails d ! i) (get_or m ''id'' PNone)
                \<and> (\<forall>j<i. \<not> id_matches (emails d ! j) (get_or m ''id'' PNone))
                \<and> inbox (snd (AI_mail_drafter en m so w)) =
                    Some (d\<lparr>emails := (emails d)[i := AList.update ''draftable'' (PInt 0)
                                                          (emails d ! i)]\<rparr>)))))"
proof (intro conjI impI allI)
  assume "py_eq (get_or m ''draftable'' PNone) (PInt 0)"
  then show "AI_mail_drafter en m so w = (Inr [], w)" by (simp add: AI_mail_drafter_def)
next
  fix k out
  assume r: "\<not> py_eq (get_or m ''draftable'' PNone) (PInt 0) \<and> body_text m = Inr body
        \<and> prompt_for en ''auto_reply'' \<noteq> []"
    and h: "k < 5 \<and> gateway_down en (drafter_prompt en body) (gateway_calls w) k
            \<and> gateway en (gateway_calls w + k) (drafter_prompt en body) = Inr out
            \<and> strip out = ''INVALID''"
  let ?w1 = "(after_failures k 0 w)\<lparr>gateway_calls := gateway_calls w + k + 1\<rparr>"
  have res: "AI_mail_drafter en m so w = (Inr [], mark_not_draftable m ?w1)"
    using drafter_policy(4)[where m=m and en=en and body=body and w=w and so=so and k=k and out=out]
      r h by blast
  show "AI_mail_drafter en m so w = (Inr [], mark_not_draftable m ?w1)" by (rule res)
  have i1: "inbox ?w1 = inbox w" "lockdir ?w1 = lockdir w" by (simp_all add: after_failures_fields)
  show "case inbox w of
              None \<Rightarrow> inbox (snd (AI_mail_drafter en m so w)) = None
            | Some d \<Rightarrow> \<exists>d'. inbox (snd (AI_mail_drafter en m so w)) = Some d'
                           \<and> counter d' = counter d \<and> length (emails d') = length (emails d)"
  proof (cases "inbox w")
    case None
    then show ?thesis using mark_not_draftable_shape(1)[where w="?w1" and m=m] i1 by (simp add: res)
  next
    case (Some d)
    then show ?thesis using mark_not_draftable_shape(2)[where w="?w1" and m=m and d=d] i1
      by (simp add: res)
  qed
next
  fix k out d
  assume r: "\<not> py_eq (get_or m ''draftable'' PNone) (PInt 0) \<and> body_text m = Inr body
        \<and> prompt_for en ''auto_reply'' \<noteq> []"
    and h: "k < 5 \<and> gateway_down en (drafter_prompt en body) (gateway_calls w) k
            \<and> gateway en (gateway_calls w + k) (drafter_prompt en body) = Inr out
            \<and> strip out = ''INVALID''"
    and s: "inbox w = Some d \<and> \<not> lockdir w \<and> get_or m ''id'' PNone \<noteq> PNone
                \<and> (\<exists>e\<in>set (emails d). id_matches e (get_or m ''id'' PNone))"
  let ?w1 = "(after_failures k 0 w)\<lparr>gateway_calls := gateway_calls w + k + 1\<rparr>"
  have res: "AI_mail_drafter en m so w = (Inr [], mark_not_draftable m ?w1)"
    using drafter_policy(4)[where m=m and en=en and body=body and w=w and so=so and k=k and out=out]
      r h by blast
  have i1: "inbox ?w1 = Some d" "\<not> lockdir ?w1" using s by (simp_all add: after_failures_fields)
  show "\<exists>i<length (emails d).
                  id_matches (emails d ! i) (get_or m ''id'' PNone)
                \<and> (\<forall>j<i. \<not> id_matches (emails d ! j) (get_or m ''id'' PNone))
                \<and> inbox (snd (AI_mail_drafter en m so w)) =
                    Some (d\<lparr>emails := (emails d)[i := AList.update ''draftable'' (PInt 0)
                                                          (emails d ! i)]\<rparr>)"
    using mark_not_draftable_hit[where m=m, OF i1] s by (simp add: res)
qed

theorem drafter_short_circuits_witness:
  "AI_mail_drafter (demo_env (\<lambda>n p. Inr ''INVALID'')) (AList.update ''draftable'' (PInt 0) first_mail)
        None one_mail_world = (Inr [], one_mail_world)
   \<and> fst (AI_mail_drafter (demo_env (flaky_gateway ''INVALID'')) first_mail None one_mail_world) = Inr []
   \<and> inbox (snd (AI_mail_drafter (demo_env (flaky_gateway ''INVALID'')) first_mail None one_mail_world))
       = Some \<lparr>counter = 1, emails = [AList.update ''draftable'' (PInt 0) first_mail]\<rparr>
   \<and> gateway_calls (snd (AI_mail_drafter (demo_env (flaky_gateway ''INVALID'')) first_mail None
        one_mail_world)) = 2"
proof -
  let ?w = one_mail_world
  let ?f = "demo_env (flaky_gateway ''INVALID'')"
  let ?b = "''This is a test email body.''"
  have c0: "gateway_calls ?w = 0" "inbox ?w = Some \<lparr>counter = 1, emails = [first_mail]\<rparr>" "\<not> lockdir ?w"
    by (simp_all add: one_mail_world_def fresh_world_def)
  have z: "py_eq (get_or (AList.update ''draftable'' (PInt 0) first_mail) ''draftable'' PNone) (PInt 0)"
    by (simp add: first_mail_def sample_mail_def get_or_def)
  from drafter_short_circuits[where m="AList.update ''draftable'' (PInt 0) first_mail"
      and en="demo_env (\<lambda>n p. Inr ''INVALID'')" and so=None and w="?w"] z
  have a: "AI_mail_drafter (demo_env (\<lambda>n p. Inr ''INVALID'')) (AList.update ''draftable'' (PInt 0) first_mail)
        None ?w = (Inr [], ?w)" by blast
  have pf: "prompt_for ?f ''auto_reply'' \<noteq> []" by (simp add: demo_prompts)
  have df: "gateway_down ?f (drafter_prompt ?f ?b) (gateway_calls ?w) 1"
    by (simp add: gateway_down_iff demo_prompts flaky_gateway_def c0)
  have gf: "gateway ?f (gateway_calls ?w + 1) (drafter_prompt ?f ?b) = Inr ''INVALID''"
    by (simp add: demo_prompts flaky_gateway_def c0)
  have st: "strip ''INVALID'' = ''INVALID''" by code_simp
  have idm: "get_or first_mail ''id'' PNone \<noteq> PNone"
    "\<exists>e\<in>set (emails \<lparr>counter = 1, emails = [first_mail]\<rparr>). id_matches e (get_or first_mail ''id'' PNone)"
    by (simp_all add: first_mail_def sample_mail_def get_or_def id_matches_def)
  have "1 < (5::nat)" by simp
  note t = drafter_short_circuits[where m=first_mail and en="?f" and so=None and w="?w" and body="?b"]
  from t first_mail_ready(2,3) pf \<open>1 < (5::nat)\<close> df gf st
  have b: "AI_mail_drafter ?f first_mail None ?w =
            (Inr [], mark_not_draftable first_mail
                       ((after_failures 1 0 ?w)\<lparr>gateway_calls := gateway_calls ?w + 1 + 1\<rparr>))"
    by blast
  from t first_mail_ready(2,3) pf \<open>1 < (5::nat)\<close> df gf st c0(2,3) idm
  obtain i where i: "i < length (emails \<lparr>counter = 1, emails = [first_mail]\<rparr>)"
    "inbox (snd (AI_mail_drafter ?f first_mail None ?w)) =
       Some (\<lparr>counter = 1, emails = [first_mail]\<rparr>\<lparr>emails :=
          (emails \<lparr>counter = 1, emails = [first_mail]\<rparr>)[i := AList.update ''draftable'' (PInt 0)
             (emails \<lparr>counter = 1, emails = [first_mail]\<rparr> ! i)]\<rparr>)"
    by blast
  have i0: "i = 0" using i(1) by simp
  have c: "inbox (snd (AI_mail_drafter ?f first_mail None ?w))
       = Some \<lparr>counter = 1, emails = [AList.update ''draftable'' (PInt 0) first_mail]\<rparr>"
    using i(2) unfolding i0 by simp
  have d: "gateway_calls (snd (AI_mail_drafter ?f first_mail None ?w)) = 2"
    unfolding b by (simp add: mark_not_draftable_fields c0)
  show ?thesis using a b c d by simp
qed

section \<open>Properties of the orchestrator\<close>


lemma backoff_state_simps:
  "backoff_state (sleep d w) = backoff_state w"
  "backoff_state (snd (update_mail i u w)) = backoff_state w"
  "backoff_state (snd (add_mail m w)) = backoff_state w"
  "backoff_state (snd (add_loop m n l w)) = backoff_state w"
  "backoff_state (mark_not_draftable m w) = backoff_state w"
  "backoff_state (snd (gateway_call en p w)) = backoff_state w"
  "backoff_state (w\<lparr>gateway_calls := c\<rparr>) = backoff_state w"
  by (simp_all add: backoff_state_def sleep_fields update_mail_fields add_mail_fields
      add_loop_fields mark_not_draftable_fields gateway_call_fields)

lemma backoff_state_pair:
  "update_mail i u w = (r, w') \<Longrightarrow> backoff_state w' = backoff_state w"
  "add_loop m n l w = (r2, w') \<Longrightarrow> backoff_state w' = backoff_state w"
  "gateway_call en p w = (r3, w') \<Longrightarrow> backoff_state w' = backoff_state w"
  using backoff_state_simps(2)[of i u w] backoff_state_simps(4)[of m n l w]
    backoff_state_simps(6)[of en p w] by simp_all

lemma categorize_attempt_backoff:
  "backoff_state (snd (categorize_attempt en i p w)) = backoff_state w"
proof -
  obtain r w1 where g: "gateway_call en p w = (r, w1)" by (cases "gateway_call en p w")
  then have c: "backoff_state w1 = backoff_state w" by (rule backoff_state_pair)
  show ?thesis
  proof (cases r)
    case (Inl e)
    then show ?thesis using g c by (simp add: categorize_attempt_def)
  next
    case (Inr out)
    show ?thesis
    proof (cases "parse_category out")
      case (Inl e)
      then show ?thesis using g c Inr by (simp add: categorize_attempt_def)
    next
      case parsed: (Inr v)
      obtain r2 w2 where u: "update_mail (PInt i) [(''category'', PStr v)] w1 = (r2, w2)"
        by (cases "update_mail (PInt i) [(''category'', PStr v)] w1")
      then have c2: "backoff_state w2 = backoff_state w1" by (rule backoff_state_pair)
      show ?thesis using g c Inr parsed u c2 by (cases r2) (simp_all add: categorize_attempt_def)
    qed
  qed
qed

lemma extract_attempt_backoff:
  "backoff_state (snd (extract_attempt en i p w)) = backoff_state w"
proof -
  obtain r w1 where g: "gateway_call en p w = (r, w1)" by (cases "gateway_call en p w")
  then have c: "backoff_state w1 = backoff_state w" by (rule backoff_state_pair)
  show ?thesis
  proof (cases r)
    case (Inl e)
    then show ?thesis using g c by (simp add: extract_attempt_def)
  next
    case (Inr out)
    show ?thesis
    proof (cases "parse_action_items en out")
      case (Inl e)
      then show ?thesis using g c Inr by (simp add: extract_attempt_def)
    next
      case parsed: (Inr v)
      obtain r2 w2 where u: "update_mail (PInt i) [(''action_items'', PList v)] w1 = (r2, w2)"
        by (cases "update_mail (PInt i) [(''action_items'', PList v)] w1")
      then have c2: "backoff_state w2 = backoff_state w1" by (rule backoff_state_pair)
      show ?thesis using g c Inr parsed u c2 by (cases r2) (simp_all add: extract_attempt_def)
    qed
  qed
qed

lemma draft_attempt_backoff:
  "backoff_state (snd (draft_attempt en m so p w)) = backoff_state w"
proof -
  obtain r w1 where g: "gateway_call en p w = (r, w1)" by (cases "gateway_call en p w")
  then have c: "backoff_state w1 = backoff_state w" by (rule backoff_state_pair)
  show ?thesis
  proof (cases r)
    case (Inl e)
    then show ?thesis using g c by (simp add: draft_attempt_def)
  next
    case (Inr out)
    obtain r2 w2 where a: "add_loop (make_draft_mail en m so (clean_draft (select_best_option (strip out))) w1) 0 None w1 = (r2, w2)"
      by (cases "add_loop (make_draft_mail en m so (clean_draft (select_best_option (strip out))) w1) 0 None w1")
    then have c2: "backoff_state w2 = backoff_state w1" by (rule backoff_state_pair)
    show ?thesis using g c Inr a c2
      by (cases r2) (simp_all add: draft_attempt_def Let_def backoff_state_simps)
  qed
qed

lemma retry_loop_backoff:
  "(\<And>w. backoff_state (snd (attempt w)) = backoff_state w) \<Longrightarrow>
   backoff_state (snd (retry_loop attempt failure attempts last_err w)) = backoff_state w"
proof (induction attempt failure attempts last_err w rule: retry_loop.induct)
  case (1 attempt failure attempts last_err w)
  note one = "1.prems"
  note u = retry_loop.simps[of attempt failure attempts last_err w]
  show ?case
  proof (cases "attempts < 5")
    case False
    then show ?thesis by (simp add: u)
  next
    case True
    obtain r w1 where a: "attempt w = (r, w1)" by (cases "attempt w")
    have c: "backoff_state w1 = backoff_state w" using one[of w] a by simp
    show ?thesis
    proof (cases r)
      case (Inr v)
      then show ?thesis using True a c by (simp add: u)
    next
      case (Inl e)
      show ?thesis
      proof (cases "exn_kind_of e = ConnectionError")
        case False
        then show ?thesis using True a c Inl by (simp add: u)
      next
        case ce: True
        show ?thesis
          using "1.IH"[OF True a[symmetric] Inl ce one] True a c Inl ce
          by (simp add: u backoff_state_simps)
      qed
    qed
  qed
qed

lemma processors_backoff:
  "backoff_state (snd (smart_categorizer en m w)) = backoff_state w"
  "backoff_state (snd (action_item_extractor en m w)) = backoff_state w"
  "backoff_state (snd (AI_mail_drafter en m so w)) = backoff_state w"
proof -
  have a: "backoff_state (snd (retry_loop (categorize_attempt en i p) f 0 None w)) = backoff_state w"
    for i p f
    using retry_loop_backoff[of "categorize_attempt en i p" f 0 None w] categorize_attempt_backoff
    by simp
  show "backoff_state (snd (smart_categorizer en m w)) = backoff_state w"
    by (simp add: smart_categorizer_def a split: sum.splits)
  have b: "backoff_state (snd (retry_loop (extract_attempt en i p) f 0 None w)) = backoff_state w"
    for i p f
    using retry_loop_backoff[of "extract_attempt en i p" f 0 None w] extract_attempt_backoff
    by simp
  show "backoff_state (snd (action_item_extractor en m w)) = backoff_state w"
    by (simp add: action_item_extractor_def b split: sum.splits)
  have c: "backoff_state (snd (retry_loop (draft_attempt en m so p) f 0 None w)) = backoff_state w"
    for p f
    using retry_loop_backoff[of "draft_attempt en m so p" f 0 None w] draft_attempt_backoff
    by simp
  show "backoff_state (snd (AI_mail_drafter en m so w)) = backoff_state w"
    by (simp add: AI_mail_drafter_def c split: sum.splits)
qed

lemma throttle_fields:
  "backoff_state (throttle en w) = backoff_state w"
  "gateway_calls (throttle en w) = gateway_calls w"
  "inbox (throttle en w) = inbox w"
  "lockdir (throttle en w) = lockdir w"
  "clock w \<le> clock (throttle en w)"
  by (simp_all add: throttle_def Let_def backoff_state_def sleep_def)

lemma read_inbox_fields:
  "backoff_state (snd (read_inbox w)) = backoff_state w"
  "gateway_calls (snd (read_inbox w)) = gateway_calls w"
  "inbox (snd (read_inbox w)) = inbox w"
  "lockdir (snd (read_inbox w)) = lockdir w"
  "clock w \<le> clock (snd (read_inbox w))"
  "fst (read_inbox w) = (case inbox w of None \<Rightarrow> \<lparr>counter = 0, emails = []\<rparr> | Some d \<Rightarrow> d)"
  by (simp_all add: read_inbox_def backoff_state_def split: option.splits)

lemma set_quota_backoff_fields:
  "quota_backoff_until (set_quota_backoff en msg w)
     = max (quota_backoff_until w) (clock w + retry_backoff_seconds en)"
  "last_error (set_quota_backoff en msg w) = Some (msg, clock w)"
  "error_signal (set_quota_backoff en msg w) = Some (msg, clock w)"
  "clock (set_quota_backoff en msg w) = clock w"
  "gateway_calls (set_quota_backoff en msg w) = gateway_calls w"
  "inbox (set_quota_backoff en msg w) = inbox w"
  by (simp_all add: set_quota_backoff_def set_last_error_def)

lemma clear_quota_backoff_fields:
  "backoff_state (clear_quota_backoff w) = (0, None, None)"
  "clock (clear_quota_backoff w) = clock w"
  "gateway_calls (clear_quota_backoff w) = gateway_calls w"
  "inbox (clear_quota_backoff w) = inbox w"
  by (simp_all add: clear_quota_backoff_def clear_last_error_def backoff_state_def)


lemma backoff_set_holds: "backoff_set en e w1 (set_quota_backoff en (exn_str e) w1)"
  by (simp add: backoff_set_def set_quota_backoff_fields)

lemma on_stage_failure_quota:
  "is_quota_or_token_error e \<Longrightarrow> on_stage_failure en e w = (True, set_quota_backoff en (exn_str e) w)"
  "\<not> is_quota_or_token_error e \<Longrightarrow> on_stage_failure en e w = (False, w)"
  by (simp_all add: on_stage_failure_def)

lemma categorize_stage_failure:
  assumes "\<not> py_truthy (get_or m ''category'' PNone)"
    "fst (smart_categorizer en m (throttle en w)) = Inl e"
  shows "categorize_stage en m w = on_stage_failure en e (snd (smart_categorizer en m (throttle en w)))"
  using assms by (cases "smart_categorizer en m (throttle en w)") (simp add: categorize_stage_def)

lemma extract_stage_failure:
  assumes "normalize_action_items en
             (if py_truthy (get_or m ''action_items'' PNone) then get_or m ''action_items'' PNone
              else PList []) = []"
    "fst (action_item_extractor en m (throttle en w)) = Inl e"
  shows "extract_stage en m w = on_stage_failure en e (snd (action_item_extractor en m (throttle en w)))"
  using assms by (cases "action_item_extractor en m (throttle en w)") (simp add: extract_stage_def Let_def)

lemma draft_mail_branch_failure:
  assumes "fst (action_item_extractor en m (throttle en w)) = Inl e"
  shows "draft_mail_branch en m w
           = snd (on_stage_failure en e (snd (action_item_extractor en m (throttle en w))))"
  using assms by (cases "action_item_extractor en m (throttle en w)") (simp add: draft_mail_branch_def)

lemma draft_stage_run:
  assumes "category_lower m = Inr c" "c \<noteq> ''draft''"
    "\<not> fst (draft_exists_for (get_or m ''id'' PNone) w)"
  shows "fst (AI_mail_drafter en m None (throttle en (snd (draft_exists_for (get_or m ''id'' PNone) w)))) = Inl e
         \<Longrightarrow> draft_stage en m w = snd (on_stage_failure en e
               (snd (AI_mail_drafter en m None (throttle en (snd (draft_exists_for (get_or m ''id'' PNone) w))))))"
    and "fst (AI_mail_drafter en m None (throttle en (snd (draft_exists_for (get_or m ''id'' PNone) w)))) = Inr draft
         \<Longrightarrow> draft_stage en m w = clear_quota_backoff
               (snd (AI_mail_drafter en m None (throttle en (snd (draft_exists_for (get_or m ''id'' PNone) w)))))"
proof -
  obtain b w1 where d: "draft_exists_for (get_or m ''id'' PNone) w = (b, w1)"
    by (cases "draft_exists_for (get_or m ''id'' PNone) w")
  then have nb: "\<not> b" using assms(3) by simp
  obtain r w2 where a: "AI_mail_drafter en m None (throttle en w1) = (r, w2)"
    by (cases "AI_mail_drafter en m None (throttle en w1)")
  show "fst (AI_mail_drafter en m None (throttle en (snd (draft_exists_for (get_or m ''id'' PNone) w)))) = Inl e
         \<Longrightarrow> draft_stage en m w = snd (on_stage_failure en e
               (snd (AI_mail_drafter en m None (throttle en (snd (draft_exists_for (get_or m ''id'' PNone) w))))))"
    using assms(1,2) d nb a by (simp add: draft_stage_def)
  show "fst (AI_mail_drafter en m None (throttle en (snd (draft_exists_for (get_or m ''id'' PNone) w)))) = Inr draft
         \<Longrightarrow> draft_stage en m w = clear_quota_backoff
               (snd (AI_mail_drafter en m None (throttle en (snd (draft_exists_for (get_or m ''id'' PNone) w)))))"
    using assms(1,2) d nb a by (simp add: draft_stage_def)
qed

lemma draft_exists_for_fields:
  "backoff_state (snd (draft_exists_for i w)) = backoff_state w"
  "gateway_calls (snd (draft_exists_for i w)) = gateway_calls w"
  "inbox (snd (draft_exists_for i w)) = inbox w"
  "clock w \<le> clock (snd (draft_exists_for i w))"
  "fst (draft_exists_for i w)
     = (case inbox w of None \<Rightarrow> False | Some d \<Rightarrow> list_ex (is_draft_for i) (emails d))"
  using read_inbox_fields[of w]
  by (cases "read_inbox w"; simp add: draft_exists_for_def split: option.splits)+


lemma process_one_mail_skip:
  "0 < quota_backoff_active w \<Longrightarrow> process_one_mail en m w = (None, w)"
  by (simp add: process_one_mail_def)

lemma process_one_mail_stage1_quota:
  assumes "\<not> 0 < quota_backoff_active w" "category_lower m = Inr c" "c \<noteq> ''draft''"
    "\<not> py_truthy (get_or m ''category'' PNone)"
    "fst (smart_categorizer en m (throttle en w)) = Inl e" "is_quota_or_token_error e"
  shows "process_one_mail en m w =
           (None, set_quota_backoff en (exn_str e) (snd (smart_categorizer en m (throttle en w))))"
  using assms categorize_stage_failure[OF assms(4,5)]
  by (simp add: process_one_mail_def on_stage_failure_quota)

lemma process_one_mail_draft_branch:
  assumes "\<not> 0 < quota_backoff_active w" "category_lower m = Inr ''draft''"
  shows "process_one_mail en m w = (None, draft_mail_branch en m w)"
  using assms by (simp add: process_one_mail_def)

text \<open>
  Claim C4. An exception whose message holds a quota keyword makes the handler of a stage
  set the backoff: the deadline becomes at least now plus the configured pause (60 s by
  default) and the last error is recorded with its time; any other exception leaves the
  world as the stage left it, and no stage processor touches the backoff state. This holds
  at the four places a stage can fail: the categorizer, the extractor, the extractor on a
  draft, and the drafter. When the drafter returns, the deadline and the last error are
  cleared. With a backoff running, \<open>_process_one_mail\<close> does nothing.
\<close>

theorem quota_backoff:
  "(is_quota_or_token_error e \<longrightarrow>
       on_stage_failure en e w1 = (True, set_quota_backoff en (exn_str e) w1)
     \<and> backoff_set en e w1 (set_quota_backoff en (exn_str e) w1))
   \<and> (\<not> is_quota_or_token_error e \<longrightarrow> on_stage_failure en e w1 = (False, w1))
   \<and> (\<not> py_truthy (get_or m ''category'' PNone)
        \<and> fst (smart_categorizer en m (throttle en w)) = Inl e \<longrightarrow>
         categorize_stage en m w
           = on_stage_failure en e (snd (smart_categorizer en m (throttle en w)))
       \<and> backoff_state (snd (smart_categorizer en m (throttle en w))) = backoff_state w)
   \<and> (normalize_action_items en
          (if py_truthy (get_or m ''action_items'' PNone) then get_or m ''action_items'' PNone
           else PList []) = []
        \<and> fst (action_item_extractor en m (throttle en w)) = Inl e \<longrightarrow>
         extract_stage en m w
           = on_stage_failure en e (snd (action_item_extractor en m (throttle en w)))
       \<and> backoff_state (snd (action_item_extractor en m (throttle en w))) = backoff_state w)
   \<and> (fst (action_item_extractor en m (throttle en w)) = Inl e \<longrightarrow>
         draft_mail_branch en m w
           = snd (on_stage_failure en e (snd (action_item_extractor en m (throttle en w))))
       \<and> backoff_state (snd (action_item_extractor en m (throttle en w))) = backoff_state w)
   \<and> (category_lower m = Inr c \<and> c \<noteq> ''draft''
        \<and> \<not> fst (draft_exists_for (get_or m ''id'' PNone) w) \<longrightarrow>
         (let w2 = snd (draft_exists_for (get_or m ''id'' PNone) w)
          in (fst (AI_mail_drafter en m None (throttle en w2)) = Inl e \<longrightarrow>
                draft_stage en m w
                  = snd (on_stage_failure en e (snd (AI_mail_drafter en m None (throttle en w2))))
              \<and> backoff_state (snd (AI_mail_drafter en m None (throttle en w2))) = backoff_state w)
           \<and> (\<forall>draft. fst (AI_mail_drafter en m None (throttle en w2)) = Inr draft \<longrightarrow>
                draft_stage en m w
                  = clear_quota_backoff (snd (AI_mail_drafter en m None (throttle en w2)))
              \<and> backoff_state (draft_stage en m w) = (0, None, None))))
   \<and> (0 < quota_backoff_active w \<longrightarrow> process_one_mail en m w = (None, w))
   \<and> (\<not> 0 < quota_backoff_active w \<and> category_lower m = Inr c \<and> c \<noteq> ''draft''
        \<and> \<not> py_truthy (get_or m ''category'' PNone)
        \<and> fst (smart_categorizer en m (throttle en w)) = Inl e \<and> is_quota_or_token_error e \<longrightarrow>
         process_one_mail en m w =
           (None, set_quota_backoff en (exn_str e) (snd (smart_categorizer en m (throttle en w)))))
   \<and> (\<not> 0 < quota_backoff_active w \<and> category_lower m = Inr ''draft'' \<longrightarrow>
         process_one_mail en m w = (None, draft_mail_branch en m w))"
proof -
  have bs: "backoff_state (snd (smart_categorizer en m (throttle en w))) = backoff_state w"
    "backoff_state (snd (action_item_extractor en m (throttle en w))) = backoff_state w"
    by (simp_all add: processors_backoff throttle_fields)
  have bd: "backoff_state (snd (AI_mail_drafter en m None
              (throttle en (snd (draft_exists_for (get_or m ''id'' PNone) w))))) = backoff_state w"
    by (simp add: processors_backoff throttle_fields draft_exists_for_fields)
  have d: "category_lower m = Inr c \<and> c \<noteq> ''draft''
        \<and> \<not> fst (draft_exists_for (get_or m ''id'' PNone) w) \<longrightarrow>
         (let w2 = snd (draft_exists_for (get_or m ''id'' PNone) w)
          in (fst (AI_mail_drafter en m None (throttle en w2)) = Inl e \<longrightarrow>
                draft_stage en m w
                  = snd (on_stage_failure en e (snd (AI_mail_drafter en m None (throttle en w2))))
              \<and> backoff_state (snd (AI_mail_drafter en m None (throttle en w2))) = backoff_state w)
           \<and> (\<forall>draft. fst (AI_mail_drafter en m None (throttle en w2)) = Inr draft \<longrightarrow>
                draft_stage en m w
                  = clear_quota_backoff (snd (AI_mail_drafter en m None (throttle en w2)))
              \<and> backoff_state (draft_stage en m w) = (0, None, None)))"
  proof (intro impI)
    assume a: "category_lower m = Inr c \<and> c \<noteq> ''draft''
        \<and> \<not> fst (draft_exists_for (get_or m ''id'' PNone) w)"
    let ?w2 = "snd (draft_exists_for (get_or m ''id'' PNone) w)"
    let ?r = "AI_mail_drafter en m None (throttle en ?w2)"
    note run = draft_stage_run[where m=m and c=c and w=w and en=en]
    have f: "fst ?r = Inl e \<Longrightarrow> draft_stage en m w = snd (on_stage_failure en e (snd ?r))"
      using run(1) a by blast
    have s: "draft_stage en m w = clear_quota_backoff (snd ?r)" if "fst ?r = Inr draft" for draft
      using run(2)[where draft=draft] a that by blast
    have s2: "backoff_state (draft_stage en m w) = (0, None, None)" if "fst ?r = Inr draft" for draft
      using s[OF that] by (simp add: clear_quota_backoff_fields)
    show "let w2 = snd (draft_exists_for (get_or m ''id'' PNone) w)
          in (fst (AI_mail_drafter en m None (throttle en w2)) = Inl e \<longrightarrow>
                draft_stage en m w
                  = snd (on_stage_failure en e (snd (AI_mail_drafter en m None (throttle en w2))))
              \<and> backoff_state (snd (AI_mail_drafter en m None (throttle en w2))) = backoff_state w)
           \<and> (\<forall>draft. fst (AI_mail_drafter en m None (throttle en w2)) = Inr draft \<longrightarrow>
                draft_stage en m w
                  = clear_quota_backoff (snd (AI_mail_drafter en m None (throttle en w2)))
              \<and> backoff_state (draft_stage en m w) = (0, None, None))"
      unfolding Let_def using f s s2 bd by blast
  qed
  show ?thesis
    using on_stage_failure_quota[of e en w1] backoff_set_holds[of en e w1]
      categorize_stage_failure[of m en w e] extract_stage_failure[of en m w e]
      draft_mail_branch_failure[of en m w e] bs d
      process_one_mail_skip[of w en m]
      process_one_mail_stage1_quota[of w m c en e]
      process_one_mail_draft_branch[of w m en]
    by blast
qed


theorem quota_backoff_witness:
  "process_one_mail (demo_env quota_gateway) first_mail one_mail_world =
     (None, set_quota_backoff (demo_env quota_gateway)
        ''Failed to categorize after 5 attempts. Last error: Quota exceeded (429).''
        (snd (smart_categorizer (demo_env quota_gateway) first_mail
               (throttle (demo_env quota_gateway) one_mail_world))))
   \<and> quota_backoff_until (snd (process_one_mail (demo_env quota_gateway) first_mail one_mail_world)) = 175
   \<and> last_error (snd (process_one_mail (demo_env quota_gateway) first_mail one_mail_world))
       = Some (''Failed to categorize after 5 attempts. Last error: Quota exceeded (429).'', 115)
   \<and> categorize_stage (demo_env (flaky_gateway ''bad!'')) first_mail one_mail_world
       = (False, snd (smart_categorizer (demo_env (flaky_gateway ''bad!'')) first_mail
                        (throttle (demo_env (flaky_gateway ''bad!'')) one_mail_world)))
   \<and> backoff_state (snd (categorize_stage (demo_env (flaky_gateway ''bad!'')) first_mail one_mail_world))
       = backoff_state one_mail_world
   \<and> backoff_state stale_error_world
       = (50, Some (''Quota exceeded (429).'', - 10), Some (''Quota exceeded (429).'', - 10))
   \<and> backoff_state (draft_stage (demo_env polite_gateway) work_mail stale_error_world)
       = (0, None, None)"
proof -
  let ?q = "demo_env quota_gateway"
  let ?f = "demo_env (flaky_gateway ''bad!'')"
  let ?p = "demo_env polite_gateway"
  let ?w = one_mail_world
  let ?e = "Exn ConnectionError ''Failed to categorize after 5 attempts. Last error: Quota exceeded (429).''"
  let ?v = "Exn ValueError (''Invalid category format: '' @ [CHR 0x27] @ ''bad!'' @ [CHR 0x27])"
  have h1: "\<not> 0 < quota_backoff_active ?w" by code_simp
  have h2: "category_lower first_mail = Inr []" "[] \<noteq> ''draft''"
    "\<not> py_truthy (get_or first_mail ''category'' PNone)" by code_simp+
  have h3: "fst (smart_categorizer ?q first_mail (throttle ?q ?w)) = Inl ?e" by code_simp
  have h4: "is_quota_or_token_error ?e" by code_simp
  have h5: "clock (snd (smart_categorizer ?q first_mail (throttle ?q ?w))) = 115"
    "quota_backoff_until (snd (smart_categorizer ?q first_mail (throttle ?q ?w))) = 0"
    "retry_backoff_seconds ?q = 60" by code_simp+
  note tq = quota_backoff[where en="?q" and m=first_mail and w="?w" and e="?e" and c="[]"
      and ?w1.0="snd (smart_categorizer ?q first_mail (throttle ?q ?w))"]
  from tq h1 h2 h3 h4
  have a: "process_one_mail ?q first_mail ?w =
     (None, set_quota_backoff ?q (exn_str ?e) (snd (smart_categorizer ?q first_mail (throttle ?q ?w))))"
    by blast
  from tq h4
  have a2: "backoff_set ?q ?e (snd (smart_categorizer ?q first_mail (throttle ?q ?w)))
      (set_quota_backoff ?q (exn_str ?e) (snd (smart_categorizer ?q first_mail (throttle ?q ?w))))"
    by blast
  have b: "quota_backoff_until (snd (process_one_mail ?q first_mail ?w)) = 175"
    unfolding a by (simp add: set_quota_backoff_fields h5)
  have c: "last_error (snd (process_one_mail ?q first_mail ?w))
       = Some (''Failed to categorize after 5 attempts. Last error: Quota exceeded (429).'', 115)"
    unfolding a by (simp add: set_quota_backoff_fields h5)
  have g1: "fst (smart_categorizer ?f first_mail (throttle ?f ?w)) = Inl ?v" by code_simp
  have g2: "\<not> is_quota_or_token_error ?v" by code_simp
  note tf = quota_backoff[where en="?f" and m=first_mail and w="?w" and e="?v"
      and ?w1.0="snd (smart_categorizer ?f first_mail (throttle ?f ?w))"]
  from tf h2(3) g1 g2
  have d: "categorize_stage ?f first_mail ?w
       = (False, snd (smart_categorizer ?f first_mail (throttle ?f ?w)))"
    "backoff_state (snd (smart_categorizer ?f first_mail (throttle ?f ?w))) = backoff_state ?w"
    by simp_all
  have d2: "backoff_state (snd (categorize_stage ?f first_mail ?w)) = backoff_state ?w"
    unfolding d(1) using d(2) by simp
  have k1: "category_lower work_mail = Inr ''work''" "''work'' \<noteq> ''draft''"
    "\<not> fst (draft_exists_for (get_or work_mail ''id'' PNone) stale_error_world)" by code_simp+
  have k2: "fst (AI_mail_drafter ?p work_mail None
      (throttle ?p (snd (draft_exists_for (get_or work_mail ''id'' PNone) stale_error_world))))
        = Inr ''Thanks, will do.''" by code_simp
  note tp = quota_backoff[where en="?p" and m=work_mail and w=stale_error_world and c="''work''"]
  from tp k1 k2
  have e: "backoff_state (draft_stage ?p work_mail stale_error_world) = (0, None, None)"
    unfolding Let_def by blast
  have e0: "backoff_state stale_error_world
       = (50, Some (''Quota exceeded (429).'', - 10), Some (''Quota exceeded (429).'', - 10))"
    by (simp add: backoff_state_def stale_error_world_def)
  show ?thesis using a b c d(1) d2 e0 e by simp
qed

end
